(* ===== verification/Takt_Prelude.thy ===== *)
theory Takt_Prelude
  imports Main "HOL-Library.Word" "HOL-Library.Monad_Syntax" "HOL-Library.Multiset"
begin

text \<open>
  Shared vocabulary of the development: the machine types of the ESP32 target, pointers,
  little-endian encoding of integers into bytes, flash-like memories as functions from
  addresses to bytes, the search for the first free slot of a fixed-size pool, and the
  lemma collections that the component theories feed and use.

  Conventions used everywhere:
  \<^item> \<open>uint8_t\<close>, \<open>uint16_t\<close>, \<open>uint32_t\<close> and \<open>uint64_t\<close> are words of that width, so that
    \<open>+\<close> and \<open>-\<close> wrap as they do in C++;
  \<^item> \<open>size_t\<close> is 32 bits wide, as on the ESP32;
  \<^item> an array member is a list of the declared length, updated by index;
  \<^item> a pointer is an address, and \<open>nullptr\<close> is \<open>None\<close>;
  \<^item> a call that has no defined result (it does not return, or it uses an object after its
    destruction) is \<open>None\<close> of an option.
\<close>

unbundle bit_operations_syntax

type_synonym u8 = "8 word"
type_synonym u16 = "16 word"
type_synonym u32 = "32 word"
type_synonym u64 = "64 word"
type_synonym ptr = nat
type_synonym bytes = "u8 list"

named_theorems takt_ops \<open>unfolding rules of the operations of the model\<close>
named_theorems takt_inv \<open>invariants of components are preserved by their operations\<close>


section \<open>The first free slot of a pool\<close>

text \<open>
  Every pool of the kernel (subscriptions, timers) is searched from slot 0 upwards for the
  first slot that satisfies a condition.
\<close>

primrec find_index :: "('a \<Rightarrow> bool) \<Rightarrow> 'a list \<Rightarrow> nat option" where
  "find_index P [] = None"
| "find_index P (x # xs) = (if P x then Some 0 else map_option Suc (find_index P xs))"

lemma find_index_None [simp]: "find_index P xs = None \<longleftrightarrow> (\<forall>x\<in>set xs. \<not> P x)"
  by (induction xs) auto

lemma find_index_Some:
  "find_index P xs = Some i \<longleftrightarrow> i < length xs \<and> P (xs ! i) \<and> (\<forall>j<i. \<not> P (xs ! j))"
proof (induction xs arbitrary: i)
  case (Cons x xs)
  show ?case
    by (cases i) (auto simp: Cons.IH nth_Cons split: nat.splits)
qed simp

lemma find_index_less: "find_index P xs = Some i \<Longrightarrow> i < length xs"
  by (simp add: find_index_Some)

lemma find_index_holds: "find_index P xs = Some i \<Longrightarrow> P (xs ! i)"
  by (simp add: find_index_Some)

lemma find_index_append:
  "find_index P (xs @ ys) = (case find_index P xs of Some i \<Rightarrow> Some i
     | None \<Rightarrow> map_option ((+) (length xs)) (find_index P ys))"
proof (cases "find_index P ys")
  case None
  then show ?thesis by (induction xs) (auto split: option.split simp del: find_index_None)
next
  case (Some k)
  then show ?thesis by (induction xs) (auto split: option.split simp del: find_index_None)
qed

text \<open>How an update of one slot changes the number of slots that satisfy a condition.\<close>

lemma count_update:
  assumes "i < length xs"
  shows "length (filter P (xs[i := x])) =
         (length (filter P xs) + (if P x then 1 else 0)) - (if P (xs ! i) then 1 else 0)"
  using assms
proof (induction xs arbitrary: i)
  case (Cons y ys)
  show ?case
  proof (cases i)
    case (Suc j)
    have "P (ys ! j) \<Longrightarrow> 0 < length (filter P ys)"
      using Cons.prems Suc by (auto simp: filter_empty_conv)
    then show ?thesis using Cons Suc by auto
  qed simp
qed simp

lemma count_pos: "i < length xs \<Longrightarrow> P (xs ! i) \<Longrightarrow> 0 < length (filter P xs)"
  by (auto simp: filter_empty_conv)

lemma count_full: "length (filter P xs) < length xs \<Longrightarrow> \<exists>i. find_index (\<lambda>x. \<not> P x) xs = Some i"
  by (metis filter_True find_index_None not_less_iff_gr_or_eq option.exhaust)


section \<open>Chains of steps\<close>

text \<open>\<open>chained R xs v v'\<close>: one step of \<open>R x\<close> for each \<open>x\<close> of the list, in order, leads from \<open>v\<close> to \<open>v'\<close>.\<close>

primrec chained :: "('a \<Rightarrow> 'v \<Rightarrow> 'v \<Rightarrow> bool) \<Rightarrow> 'a list \<Rightarrow> 'v \<Rightarrow> 'v \<Rightarrow> bool" where
  "chained R [] v v' \<longleftrightarrow> v' = v"
| "chained R (x # xs) v v' \<longleftrightarrow> (\<exists>u. R x v u \<and> chained R xs u v')"

lemma chained_append: "chained R (xs @ ys) v v' \<longleftrightarrow> (\<exists>u. chained R xs v u \<and> chained R ys u v')"
  by (induction xs arbitrary: v) auto

lemma chained_fold: "chained (\<lambda>x v v'. v' = f x v) xs v v' \<longleftrightarrow> v' = fold f xs v"
  by (induction xs arbitrary: v) auto

lemma chained_function: "(\<And>x u u'. R x u u' \<Longrightarrow> u' = f x u) \<Longrightarrow> chained R xs v v' \<Longrightarrow> v' = fold f xs v"
  by (induction xs arbitrary: v) auto

lemma chained_still: "chained R xs v v' \<Longrightarrow> (\<And>x u u'. x \<in> set xs \<Longrightarrow> R x u u' \<Longrightarrow> u' = u) \<Longrightarrow> v' = v"
  by (induction xs arbitrary: v) auto


section \<open>Little-endian bytes\<close>

definition u16_bytes :: "u16 \<Rightarrow> bytes" where
  "u16_bytes w = [ucast w, ucast (drop_bit 8 w)]"

definition u32_bytes :: "u32 \<Rightarrow> bytes" where
  "u32_bytes w = [ucast w, ucast (drop_bit 8 w), ucast (drop_bit 16 w), ucast (drop_bit 24 w)]"

fun bytes_u16 :: "bytes \<Rightarrow> u16" where
  "bytes_u16 (a # b # _) = ucast a OR push_bit 8 (ucast b)"
| "bytes_u16 _ = 0"

fun bytes_u32 :: "bytes \<Rightarrow> u32" where
  "bytes_u32 (a # b # c # d # _) =
     ucast a OR push_bit 8 (ucast b) OR push_bit 16 (ucast c) OR push_bit 24 (ucast d)"
| "bytes_u32 _ = 0"

lemma length_u16_bytes [simp]: "length (u16_bytes w) = 2"
  by (simp add: u16_bytes_def)

lemma length_u32_bytes [simp]: "length (u32_bytes w) = 4"
  by (simp add: u32_bytes_def)

lemma bytes_u16_bytes [simp]: "bytes_u16 (u16_bytes w @ r) = w"
  unfolding u16_bytes_def
  by (rule bit_word_eqI) (auto simp: bit_simps)

lemma bytes_u32_bytes [simp]: "bytes_u32 (u32_bytes w @ r) = w"
proof (rule bit_word_eqI)
  fix n assume "n < LENGTH(32)"
  then consider "n < 8" | "8 \<le> n \<and> n < 16" | "16 \<le> n \<and> n < 24" | "24 \<le> n \<and> n < 32"
    by fastforce
  then show "bit (bytes_u32 (u32_bytes w @ r)) n = bit w n"
    by cases (auto simp: u32_bytes_def bit_simps)
qed

lemma bytes_u16_bytes_eq [simp]: "bytes_u16 (u16_bytes w) = w"
  using bytes_u16_bytes [of w "[]"] by simp

lemma bytes_u32_bytes_eq [simp]: "bytes_u32 (u32_bytes w) = w"
  using bytes_u32_bytes [of w "[]"] by simp

lemma u32_bytes_inject [simp]: "u32_bytes v = u32_bytes w \<longleftrightarrow> v = w"
  by (metis bytes_u32_bytes_eq)


section \<open>Reading machine integers\<close>

lemma u32_less: "unat (w :: u32) < 4294967296"
  using unsigned_less [of w, where 'a = nat] by simp

lemma unat_u32_add: "unat a + unat b < 4294967296 \<Longrightarrow> unat (a + b :: u32) = unat a + unat b"
  by (simp add: unat_word_ariths)

lemma unat_u32_add_wrap:
  "4294967296 \<le> unat a + unat b \<Longrightarrow> unat (a + b :: u32) = unat a + unat b - 4294967296"
  using u32_less [of a] u32_less [of b] by (simp add: unat_word_ariths le_mod_geq)

lemma unat_u32_of_nat: "n < 4294967296 \<Longrightarrow> unat (of_nat n :: u32) = n"
  by (simp add: unat_of_nat)

lemma sint_u32: assumes "unat w < 2147483648" shows "sint (w :: u32) = int (unat w)"
proof -
  have u: "uint w = int (unat w)" by (rule uint_nat)
  have "int (unat w) < int 2147483648" using assms by (simp only: of_nat_less_iff)
  also have "int 2147483648 = 2 ^ 31" by simp
  finally have "uint w < 2 ^ 31" unfolding u .
  moreover have "- (2 ^ 31) \<le> uint w" unfolding u by (rule order_trans [of _ 0]) simp_all
  ultimately have "signed_take_bit 31 (uint w) = uint w" by (intro signed_take_bit_int_eq_self)
  moreover have "sint w = signed_take_bit 31 (uint w)"
    unfolding sint_uint by (rule arg_cong2 [where f = signed_take_bit]) simp_all
  ultimately show ?thesis using u by (simp only:)
qed


section \<open>Byte memories\<close>

text \<open>
  A memory is a function from addresses to bytes. \<open>mem_get m a n\<close> reads \<open>n\<close> bytes from
  \<open>a\<close> on, \<open>mem_put m a d\<close> stores the bytes \<open>d\<close> there, \<open>mem_fill m a n v\<close> sets \<open>n\<close> bytes.
\<close>

type_synonym memory = "nat \<Rightarrow> u8"

definition mem_get :: "memory \<Rightarrow> nat \<Rightarrow> nat \<Rightarrow> bytes" where
  "mem_get m a n = map m [a..<a + n]"

definition mem_put :: "memory \<Rightarrow> nat \<Rightarrow> bytes \<Rightarrow> memory" where
  "mem_put m a d = (\<lambda>x. if a \<le> x \<and> x < a + length d then d ! (x - a) else m x)"

definition mem_fill :: "memory \<Rightarrow> nat \<Rightarrow> nat \<Rightarrow> u8 \<Rightarrow> memory" where
  "mem_fill m a n v = (\<lambda>x. if a \<le> x \<and> x < a + n then v else m x)"

lemma length_mem_get [simp]: "length (mem_get m a n) = n"
  by (simp add: mem_get_def)

lemma mem_get_0 [simp]: "mem_get m a 0 = []"
  by (simp add: mem_get_def)

lemma mem_get_add: "mem_get m a (n + k) = mem_get m a n @ mem_get m (a + n) k"
proof -
  have "[a..<a + (n + k)] = [a..<a + n] @ [a + n..<a + n + k]"
    by (metis add.assoc le_add1 upt_add_eq_append)
  then show ?thesis by (simp add: mem_get_def)
qed

lemma mem_get_cong:
  "(\<And>x. a \<le> x \<Longrightarrow> x < a + n \<Longrightarrow> m x = m' x) \<Longrightarrow> mem_get m a n = mem_get m' a n"
  by (simp add: mem_get_def)

lemma mem_get_eq_iff: "mem_get m a n = mem_get m' a n \<longleftrightarrow> (\<forall>x. a \<le> x \<and> x < a + n \<longrightarrow> m x = m' x)"
  by (auto simp: mem_get_def)

lemma mem_get_put [simp]: "mem_get (mem_put m a d) a (length d) = d"
  by (auto simp: mem_get_def mem_put_def intro: nth_equalityI)

lemma mem_get_put_other:
  "b + n \<le> a \<or> a + length d \<le> b \<Longrightarrow> mem_get (mem_put m a d) b n = mem_get m b n"
  by (auto simp: mem_get_def mem_put_def)

lemma mem_get_fill_other:
  "b + n \<le> a \<or> a + k \<le> b \<Longrightarrow> mem_get (mem_fill m a k v) b n = mem_get m b n"
  by (auto simp: mem_get_def mem_fill_def)

lemma mem_get_fill: "a \<le> b \<Longrightarrow> b + n \<le> a + k \<Longrightarrow> mem_get (mem_fill m a k v) b n = replicate n v"
  by (auto simp: mem_get_def mem_fill_def intro: nth_equalityI)

lemma mem_put_append: "mem_put m a (d @ e) = mem_put (mem_put m a d) (a + length d) e"
  by (rule ext) (auto simp: mem_put_def nth_append)

lemma mem_fill_0 [simp]: "mem_fill m a 0 v = m"
  by (rule ext) (auto simp: mem_fill_def)

lemma mem_put_Nil [simp]: "mem_put m a [] = m"
  by (rule ext) (auto simp: mem_put_def)

lemma mem_fill_fill: "mem_fill (mem_fill m a n v) (a + n) k v = mem_fill m a (n + k) v"
  by (rule ext) (auto simp: mem_fill_def)


section \<open>Splitting an index range\<close>

lemma upt_split_at: "i < n \<Longrightarrow> [0..<n] = [0..<i] @ i # [Suc i..<n]"
  using upt_add_eq_append [of 0 i "n - i"] by (simp add: upt_conv_Cons)


section \<open>Loops over a fixed range whose body may have no result\<close>

primrec mfold :: "('x \<Rightarrow> 'w \<Rightarrow> 'w option) \<Rightarrow> 'x list \<Rightarrow> 'w \<Rightarrow> 'w option" where
  "mfold f [] w = Some w"
| "mfold f (x # xs) w = Option.bind (f x w) (mfold f xs)"

lemma mfold_append: "mfold f (xs @ ys) w = Option.bind (mfold f xs w) (mfold f ys)"
proof (induction xs arbitrary: w)
  case (Cons x xs)
  show ?case by (cases "f x w") (simp_all add: Cons.IH)
qed simp

lemma mfold_inv:
  assumes "\<And>x w. x \<in> set xs \<Longrightarrow> I w \<Longrightarrow> \<exists>w'. f x w = Some w' \<and> I w'" and "I w"
  shows "\<exists>w'. mfold f xs w = Some w' \<and> I w'"
  using assms
proof (induction xs arbitrary: w)
  case (Cons x xs)
  then obtain w1 where "f x w = Some w1" and "I w1" by fastforce
  with Cons show ?case by simp
qed simp

lemma mfold_some_fold:
  "(\<And>x w. x \<in> set xs \<Longrightarrow> f x w = Some (g x w)) \<Longrightarrow> mfold f xs w = Some (fold g xs w)"
  by (induction xs arbitrary: w) auto

end
