(* ===== verification/Ring_Queue.thy ===== *)
theory Ring_Queue
  imports Takt_Prelude
begin

text \<open>
  Bounded FIFO queues in a circular array, as the event bus
  (\<open>kernel/src/event_bus.cpp\<close>) and the script engine
  (\<open>middleware/src/script_engine_module.cpp\<close>) have them: a head index, a tail index and
  a count, each index advanced modulo the capacity. The first part relates the array to the
  list of queued elements; the locale \<open>fifo\<close> is the contract that the drain loops of the
  clients rely on.
\<close>


section \<open>The queued elements of a circular array\<close>

definition ring :: "'a list \<Rightarrow> nat \<Rightarrow> nat \<Rightarrow> 'a list" where
  "ring buf head n = map (\<lambda>k. buf ! ((head + k) mod length buf)) [0..<n]"

lemma length_ring [simp]: "length (ring buf head n) = n"
  by (simp add: ring_def)

lemma ring_0 [simp]: "ring buf head 0 = []"
  by (simp add: ring_def)

lemma ring_mod_inj_le:
  fixes n :: nat
  assumes "i \<le> j" and "j < n" and "(h + i) mod n = (h + j) mod n"
  shows "i = j"
proof -
  have "n dvd (h + j) - (h + i)"
    using assms mod_eq_dvd_iff_nat [of "h + i" "h + j" n] by simp
  then show ?thesis using assms by (auto dest: dvd_imp_le)
qed

lemma ring_mod_inj:
  fixes n :: nat
  assumes "i < n" and "j < n" and "(h + i) mod n = (h + j) mod n"
  shows "i = j"
  using ring_mod_inj_le [of i j n h] ring_mod_inj_le [of j i n h] assms by linarith

lemma ring_push:
  assumes "n < length buf" and "t = (head + n) mod length buf"
  shows "ring (buf[t := x]) head (Suc n) = ring buf head n @ [x]"
proof -
  have "t \<noteq> (head + k) mod length buf" if "k < n" for k
    using ring_mod_inj [of n "length buf" k head] that assms by auto
  moreover have "t < length buf" using assms by (auto intro!: mod_less_divisor)
  ultimately show ?thesis using assms(1) by (simp add: ring_def assms(2) [symmetric])
qed

lemma ring_pop:
  assumes "0 < n"
  shows "ring buf head n = buf ! (head mod length buf) # ring buf ((head + 1) mod length buf) (n - 1)"
proof -
  obtain k where n: "n = Suc k" using assms by (cases n) auto
  have "[0..<Suc k] = 0 # map Suc [0..<k]"
    by (simp add: map_Suc_upt upt_conv_Cons del: upt_Suc)
  then show ?thesis by (simp add: ring_def n mod_simps del: upt_Suc)
qed


section \<open>The contract of a bounded FIFO queue\<close>

locale fifo =
  fixes enq :: "'a \<Rightarrow> 'q \<Rightarrow> bool \<times> 'q"
    and deq :: "'q \<Rightarrow> 'a \<times> 'q"
    and items :: "'q \<Rightarrow> 'a list"
    and ok :: "'q \<Rightarrow> bool"
    and cap :: nat
  assumes enq_room: "ok q \<Longrightarrow> length (items q) < cap \<Longrightarrow>
      fst (enq x q) \<and> items (snd (enq x q)) = items q @ [x]"
    and enq_full: "ok q \<Longrightarrow> length (items q) = cap \<Longrightarrow> enq x q = (False, q)"
    and enq_ok: "ok q \<Longrightarrow> ok (snd (enq x q))"
    and deq_items: "ok q \<Longrightarrow> items q \<noteq> [] \<Longrightarrow>
      fst (deq q) = hd (items q) \<and> items (snd (deq q)) = tl (items q)"
    and deq_ok: "ok q \<Longrightarrow> items q \<noteq> [] \<Longrightarrow> ok (snd (deq q))"
    and bound: "ok q \<Longrightarrow> length (items q) \<le> cap"
begin

lemma enq_accepts: "ok q \<Longrightarrow> fst (enq x q) \<longleftrightarrow> length (items q) < cap"
  using enq_room enq_full bound by (metis fst_conv nless_le)

lemma enq_items:
  "ok q \<Longrightarrow> items (snd (enq x q)) = items q @ (if length (items q) < cap then [x] else [])"
  using enq_room enq_full bound by (cases "length (items q) < cap") (auto simp: nless_le)

lemma enq_list:
  assumes "ok q"
  shows "ok (fold (\<lambda>x q. snd (enq x q)) xs q) \<and>
    items (fold (\<lambda>x q. snd (enq x q)) xs q) = items q @ take (cap - length (items q)) xs"
  using assms
proof (induction xs arbitrary: q)
  case (Cons x xs)
  have "ok (snd (enq x q))" using Cons.prems by (rule enq_ok)
  from Cons.IH [OF this] show ?case
    using Cons.prems bound [OF Cons.prems]
    by (cases "length (items q) < cap") (auto simp: enq_items Suc_diff_Suc [symmetric])
qed simp

lemma deq_shorter: "ok q \<Longrightarrow> items q \<noteq> [] \<Longrightarrow> length (items (snd (deq q))) < length (items q)"
  using deq_items by (simp add: tl_def split: list.splits)

end

end
