(* ===== verification/Event_Bus.thy ===== *)
theory Event_Bus
  imports Ring_Queue
begin

text \<open>
  The publish-subscribe bus of the kernel: \<open>kernel/include/takt/event.hpp\<close>,
  \<open>kernel/include/takt/event_bus.hpp\<close> and \<open>kernel/src/event_bus.cpp\<close>.

  A callback is a function pointer of the application. It gets the whole system state and
  may call the bus again, so the state of the bus is the field \<open>bus\<close> of a system record
  that later components extend, and a \<open>handlers\<close> value says what the function behind each
  pointer does to the system. Callbacks return; the loop \<open>dispatchQueued\<close> may not, and is
  a partial function.
\<close>


section \<open>Events\<close>

datatype event_name =
  EvNone | SystemBoot | SystemReady | SystemShutdown | TaktOverrun | MemoryLow | StackOverflow
| WiFiConnected | WiFiDisconnected | MqttConnected | MqttDisconnected
| BleConnected | BleDisconnected
| OtaStart | OtaProgress | OtaComplete | OtaFailed | OtaRollback | RecoveryEnter | RecoveryExit
| SensorDataReady | UartDataReceived | ModbusRequest | CycleStarted | CycleCompleted
| UserDefined

fun event_code :: "event_name \<Rightarrow> u32" where
  "event_code EvNone = 0"
| "event_code SystemBoot = 0x0001"
| "event_code SystemReady = 0x0002"
| "event_code SystemShutdown = 0x0003"
| "event_code TaktOverrun = 0x0004"
| "event_code MemoryLow = 0x0005"
| "event_code StackOverflow = 0x0006"
| "event_code WiFiConnected = 0x0100"
| "event_code WiFiDisconnected = 0x0101"
| "event_code MqttConnected = 0x0102"
| "event_code MqttDisconnected = 0x0103"
| "event_code BleConnected = 0x0104"
| "event_code BleDisconnected = 0x0105"
| "event_code OtaStart = 0x0200"
| "event_code OtaProgress = 0x0201"
| "event_code OtaComplete = 0x0202"
| "event_code OtaFailed = 0x0203"
| "event_code OtaRollback = 0x0204"
| "event_code RecoveryEnter = 0x0205"
| "event_code RecoveryExit = 0x0206"
| "event_code SensorDataReady = 0x0300"
| "event_code UartDataReceived = 0x0301"
| "event_code ModbusRequest = 0x0302"
| "event_code CycleStarted = 0x0303"
| "event_code CycleCompleted = 0x0304"
| "event_code UserDefined = 0x1000"

text \<open>
  An \<open>Event\<close> value is any 32-bit number (applications extend the enumeration, the C SDK
  casts integers to it), so the payload carries the code.
\<close>

record event_data =
  ev_id :: u32
  param1 :: u32
  param2 :: u32
  blob :: bytes

definition empty_event :: event_data where
  "empty_event = \<lparr>ev_id = event_code EvNone, param1 = 0, param2 = 0, blob = replicate 8 0\<rparr>"


section \<open>State\<close>

definition kMaxEventSubscribers :: nat where
  "kMaxEventSubscribers = 32"

definition kEventQueueDepth :: nat where
  "kEventQueueDepth = 64"

record subscription =
  sub_event :: u32
  sub_callback :: "ptr option"
  sub_userData :: "ptr option"
  sub_active :: bool

record event_bus =
  subscriptions :: "subscription list"
  subscriberCount :: nat
  queue :: "event_data list"
  queueHead :: nat
  queueTail :: nat
  queueCount :: nat

definition new_subscription :: subscription where
  "new_subscription = \<lparr>sub_event = event_code EvNone, sub_callback = None, sub_userData = None,
     sub_active = False\<rparr>"

definition new_event_bus :: event_bus where
  "new_event_bus = \<lparr>subscriptions = replicate kMaxEventSubscribers new_subscription,
     subscriberCount = 0, queue = replicate kEventQueueDepth empty_event,
     queueHead = 0, queueTail = 0, queueCount = 0\<rparr>"

record bus_sys =
  bus :: event_bus

type_synonym 'w handlers = "ptr \<Rightarrow> event_data \<Rightarrow> ptr option \<Rightarrow> 'w \<Rightarrow> 'w"


section \<open>Operations\<close>

definition subscribe :: "u32 \<Rightarrow> ptr option \<Rightarrow> ptr option \<Rightarrow> event_bus \<Rightarrow> int \<times> event_bus" where
  "subscribe event cb userData b =
     (if kMaxEventSubscribers \<le> subscriberCount b then (-1, b)
      else case find_index (\<lambda>s. \<not> sub_active s) (subscriptions b) of
        None \<Rightarrow> (-1, b)
      | Some i \<Rightarrow> (int i, b\<lparr>subscriptions := (subscriptions b)
            [i := \<lparr>sub_event = event, sub_callback = cb, sub_userData = userData, sub_active = True\<rparr>],
          subscriberCount := subscriberCount b + 1\<rparr>))"

definition unsubscribe :: "int \<Rightarrow> event_bus \<Rightarrow> event_bus" where
  "unsubscribe handle b =
     (if handle < 0 \<or> int kMaxEventSubscribers \<le> handle then b
      else let i = nat handle; s = subscriptions b ! i in
        if sub_active s
        then b\<lparr>subscriptions := (subscriptions b)[i := s\<lparr>sub_active := False\<rparr>],
               subscriberCount := subscriberCount b - 1\<rparr>
        else b)"

definition enqueue :: "event_data \<Rightarrow> event_bus \<Rightarrow> bool \<times> event_bus" where
  "enqueue d b =
     (if kEventQueueDepth \<le> queueCount b then (False, b)
      else (True, b\<lparr>queue := (queue b)[queueTail b := d],
                    queueTail := (queueTail b + 1) mod kEventQueueDepth,
                    queueCount := queueCount b + 1\<rparr>))"

text \<open>The three statements of \<open>dispatchQueued\<close> that take one event off the queue.\<close>

definition dequeue :: "event_bus \<Rightarrow> event_data \<times> event_bus" where
  "dequeue b =
     (queue b ! queueHead b,
      b\<lparr>queueHead := (queueHead b + 1) mod kEventQueueDepth, queueCount := queueCount b - 1\<rparr>)"

text \<open>One iteration of the loop of \<open>dispatch\<close>: slot \<open>i\<close> as it is at that moment.\<close>

definition dispatch_slot ::
  "'z bus_sys_scheme handlers \<Rightarrow> event_data \<Rightarrow> nat \<Rightarrow> 'z bus_sys_scheme \<Rightarrow> 'z bus_sys_scheme" where
  "dispatch_slot cbs d i w =
     (let s = subscriptions (bus w) ! i in
      if sub_active s \<and> sub_event s = ev_id d
      then case sub_callback s of Some c \<Rightarrow> cbs c d (sub_userData s) w | None \<Rightarrow> w
      else w)"

definition dispatch ::
  "'z bus_sys_scheme handlers \<Rightarrow> event_data \<Rightarrow> 'z bus_sys_scheme \<Rightarrow> 'z bus_sys_scheme" where
  "dispatch cbs d w = fold (dispatch_slot cbs d) [0..<kMaxEventSubscribers] w"

definition publish_data ::
  "'z bus_sys_scheme handlers \<Rightarrow> event_data \<Rightarrow> 'z bus_sys_scheme \<Rightarrow> 'z bus_sys_scheme" where
  "publish_data cbs d w = dispatch cbs d w"

definition publish ::
  "'z bus_sys_scheme handlers \<Rightarrow> u32 \<Rightarrow> u32 \<Rightarrow> u32 \<Rightarrow> 'z bus_sys_scheme \<Rightarrow> 'z bus_sys_scheme" where
  "publish cbs event p1 p2 w = dispatch cbs (empty_event\<lparr>ev_id := event, param1 := p1, param2 := p2\<rparr>) w"

partial_function (option) dispatchQueued ::
  "'z bus_sys_scheme handlers \<Rightarrow> 'z bus_sys_scheme \<Rightarrow> 'z bus_sys_scheme option" where
  "dispatchQueued cbs w =
     (if 0 < queueCount (bus w)
      then dispatchQueued cbs (dispatch cbs (fst (dequeue (bus w))) (w\<lparr>bus := snd (dequeue (bus w))\<rparr>))
      else Some w)"

lemmas bus_defs = subscribe_def unsubscribe_def enqueue_def dequeue_def
lemmas bus_consts = kMaxEventSubscribers_def kEventQueueDepth_def

declare subscribe_def [takt_ops] unsubscribe_def [takt_ops] enqueue_def [takt_ops]
  dequeue_def [takt_ops] dispatch_slot_def [takt_ops]


section \<open>Invariant\<close>

definition wf_bus :: "event_bus \<Rightarrow> bool" where
  "wf_bus b \<longleftrightarrow>
     length (subscriptions b) = kMaxEventSubscribers \<and>
     subscriberCount b = length (filter sub_active (subscriptions b)) \<and>
     length (queue b) = kEventQueueDepth \<and>
     queueHead b < kEventQueueDepth \<and>
     queueCount b \<le> kEventQueueDepth \<and>
     queueTail b = (queueHead b + queueCount b) mod kEventQueueDepth"

text \<open>The queued events, oldest first: the abstract state of the queue.\<close>

definition queued :: "event_bus \<Rightarrow> event_data list" where
  "queued b = ring (queue b) (queueHead b) (queueCount b)"

lemma length_queued [simp]: "length (queued b) = queueCount b"
  by (simp add: queued_def)

lemma queued_empty_iff [simp]: "queued b = [] \<longleftrightarrow> queueCount b = 0"
  by (metis length_queued length_0_conv)

lemma wf_new_event_bus [takt_inv]: "wf_bus new_event_bus"
  by (simp add: wf_bus_def new_event_bus_def bus_consts new_subscription_def)

lemma wf_subscribe [takt_inv]: "wf_bus b \<Longrightarrow> wf_bus (snd (subscribe e c u b))"
  by (auto simp: wf_bus_def subscribe_def find_index_Some count_update split: option.splits)

lemma wf_unsubscribe [takt_inv]: "wf_bus b \<Longrightarrow> wf_bus (unsubscribe h b)"
  by (auto simp: wf_bus_def unsubscribe_def Let_def count_update)

lemma wf_enqueue [takt_inv]: "wf_bus b \<Longrightarrow> wf_bus (snd (enqueue d b))"
  by (auto simp: wf_bus_def enqueue_def mod_simps)

lemma wf_dequeue [takt_inv]: "wf_bus b \<Longrightarrow> 0 < queueCount b \<Longrightarrow> wf_bus (snd (dequeue b))"
  by (cases "queueCount b") (auto simp: wf_bus_def dequeue_def mod_simps bus_consts)

lemma subscriptions_queue_ops [simp]:
  "subscriptions (snd (enqueue d b)) = subscriptions b"
  "subscriptions (snd (dequeue b)) = subscriptions b"
  "subscriberCount (snd (enqueue d b)) = subscriberCount b"
  "subscriberCount (snd (dequeue b)) = subscriberCount b"
  by (simp_all add: enqueue_def dequeue_def)

lemma queued_subscribe [simp]: "queued (snd (subscribe e c u b)) = queued b"
  by (simp add: queued_def subscribe_def split: option.splits)

lemma queued_unsubscribe [simp]: "queued (unsubscribe h b) = queued b"
  by (simp add: queued_def unsubscribe_def Let_def)

lemma queued_enqueue:
  "wf_bus b \<Longrightarrow> queueCount b < kEventQueueDepth \<Longrightarrow> queued (snd (enqueue d b)) = queued b @ [d]"
  by (simp add: queued_def enqueue_def wf_bus_def ring_push)

lemma queued_dequeue:
  assumes "wf_bus b" and "0 < queueCount b"
  shows "queued b = fst (dequeue b) # queued (snd (dequeue b))"
  using assms ring_pop [of "queueCount b" "queue b" "queueHead b"]
  by (simp add: queued_def dequeue_def wf_bus_def)

lemma enqueue_full: "kEventQueueDepth \<le> queueCount b \<Longrightarrow> enqueue d b = (False, b)"
  by (simp add: enqueue_def)

interpretation eventq: fifo enqueue dequeue queued wf_bus kEventQueueDepth
proof
  fix b :: event_bus and d
  assume ok: "wf_bus b"
  show "length (queued b) < kEventQueueDepth \<Longrightarrow>
      fst (enqueue d b) \<and> queued (snd (enqueue d b)) = queued b @ [d]"
    using ok by (simp add: queued_enqueue) (simp add: enqueue_def)
  show "length (queued b) = kEventQueueDepth \<Longrightarrow> enqueue d b = (False, b)"
    by (simp add: enqueue_full)
  show "wf_bus (snd (enqueue d b))" using ok by (rule wf_enqueue)
  show "queued b \<noteq> [] \<Longrightarrow> fst (dequeue b) = hd (queued b) \<and> queued (snd (dequeue b)) = tl (queued b)"
    using queued_dequeue [OF ok] by simp
  show "queued b \<noteq> [] \<Longrightarrow> wf_bus (snd (dequeue b))" using ok by (simp add: wf_dequeue)
  show "length (queued b) \<le> kEventQueueDepth" using ok by (simp add: wf_bus_def)
qed


section \<open>Dispatching\<close>

text \<open>The slots whose subscriber an event reaches, in slot order.\<close>

definition reaches :: "event_bus \<Rightarrow> event_data \<Rightarrow> nat \<Rightarrow> bool" where
  "reaches b d i \<longleftrightarrow> sub_active (subscriptions b ! i) \<and> sub_event (subscriptions b ! i) = ev_id d
      \<and> sub_callback (subscriptions b ! i) \<noteq> None"

definition reached :: "event_bus \<Rightarrow> event_data \<Rightarrow> nat list" where
  "reached b d = filter (reaches b d) [0..<kMaxEventSubscribers]"

definition deliver ::
  "'z bus_sys_scheme handlers \<Rightarrow> event_bus \<Rightarrow> event_data \<Rightarrow> nat \<Rightarrow> 'z bus_sys_scheme \<Rightarrow> 'z bus_sys_scheme" where
  "deliver cbs b d i w =
     cbs (the (sub_callback (subscriptions b ! i))) d (sub_userData (subscriptions b ! i)) w"

lemma reached_cong: "subscriptions b = subscriptions b' \<Longrightarrow> reached b d = reached b' d"
  unfolding reached_def by (rule filter_cong) (simp_all add: reaches_def)

lemma dispatch_slot_reaches:
  "subscriptions (bus w) = subscriptions b \<Longrightarrow>
   dispatch_slot cbs d i w = (if reaches b d i then deliver cbs b d i w else w)"
  by (auto simp: dispatch_slot_def deliver_def reaches_def Let_def split: option.splits)

lemma dispatch_slot_inv:
  assumes "\<And>c u w. I w \<Longrightarrow> I (cbs c d u w)" and "I w"
  shows "I (dispatch_slot cbs d i w)"
  using assms by (auto simp: dispatch_slot_def Let_def split: option.splits)

lemma dispatch_inv:
  assumes "\<And>c u w. I w \<Longrightarrow> I (cbs c d u w)" and "I w"
  shows "I (dispatch cbs d w)"
proof -
  have "I (fold (dispatch_slot cbs d) xs w)" for xs
    using assms(2)
  proof (induction xs arbitrary: w)
    case (Cons i xs)
    have "I (dispatch_slot cbs d i w)"
      using assms(1) Cons.prems by (rule dispatch_slot_inv)
    then show ?case by (simp add: Cons.IH)
  qed simp
  then show ?thesis by (simp add: dispatch_def)
qed

lemma dispatch_reached:
  assumes "\<And>c u w. subscriptions (bus (cbs c d u w)) = subscriptions (bus w)"
  shows "dispatch cbs d w = fold (deliver cbs (bus w) d) (reached (bus w) d) w"
proof -
  have "fold (dispatch_slot cbs d) xs v = fold (deliver cbs b d) (filter (reaches b d) xs) v"
    if "subscriptions (bus v) = subscriptions b" for xs v b
    using that
  proof (induction xs arbitrary: v)
    case (Cons i xs)
    have "subscriptions (bus (deliver cbs b d i v)) = subscriptions b"
      using Cons.prems by (simp add: deliver_def assms)
    then show ?case using Cons by (simp add: dispatch_slot_reaches [of v b])
  qed simp
  then show ?thesis by (simp add: dispatch_def reached_def)
qed

lemma dispatch_bus:
  assumes "\<And>c d u w. bus (cbs c d u w) = bus w"
  shows "bus (dispatch cbs d w) = bus w"
  by (rule dispatch_inv [where I = "\<lambda>v. bus v = bus w"]) (simp_all add: assms)

text \<open>
  Cascades. A handler may enqueue further events; what it may append to the queue is bounded
  by a rank: reacting to \<open>d\<close> it only enqueues events of strictly smaller rank.
\<close>

definition appends_lower :: "(event_data \<Rightarrow> nat) \<Rightarrow> event_data \<Rightarrow> event_bus \<Rightarrow> event_bus \<Rightarrow> bool" where
  "appends_lower rank d b b' \<longleftrightarrow>
     wf_bus b' \<and> (\<exists>es. queued b' = queued b @ es \<and> (\<forall>e\<in>set es. rank e < rank d))"

definition ranked_handlers :: "(event_data \<Rightarrow> nat) \<Rightarrow> 'z bus_sys_scheme handlers \<Rightarrow> bool" where
  "ranked_handlers rank cbs \<longleftrightarrow>
     (\<forall>c d u w. wf_bus (bus w) \<longrightarrow> appends_lower rank d (bus w) (bus (cbs c d u w)))"

lemma appends_lower_trans:
  "appends_lower rank d a b \<Longrightarrow> appends_lower rank d b c \<Longrightarrow> appends_lower rank d a c"
  unfolding appends_lower_def by (metis (no_types, lifting) Un_iff append.assoc set_append)

lemma dispatch_appends_lower:
  fixes cbs :: "'z bus_sys_scheme handlers"
  assumes "ranked_handlers rank cbs" and "wf_bus (bus w)"
  shows "appends_lower rank d (bus w) (bus (dispatch cbs d w))"
proof (rule dispatch_inv [where I = "\<lambda>v. appends_lower rank d (bus w) (bus v)"])
  show "appends_lower rank d (bus w) (bus w)" using assms(2) by (simp add: appends_lower_def)
next
  fix c u and v :: "'z bus_sys_scheme"
  assume "appends_lower rank d (bus w) (bus v)"
  moreover from this have "appends_lower rank d (bus v) (bus (cbs c d u v))"
    using assms(1) by (simp add: ranked_handlers_def appends_lower_def)
  ultimately show "appends_lower rank d (bus w) (bus (cbs c d u v))" by (rule appends_lower_trans)
qed

lemma drain_step_decreases:
  assumes "ranked_handlers rank cbs" and wf: "wf_bus (bus w)" and pos: "0 < queueCount (bus w)"
    and w': "w' = dispatch cbs (fst (dequeue (bus w))) (w\<lparr>bus := snd (dequeue (bus w))\<rparr>)"
  shows "wf_bus (bus w') \<and>
    (mset (map rank (queued (bus w'))), mset (map rank (queued (bus w)))) \<in> mult1 less_than"
proof -
  let ?d = "fst (dequeue (bus w))" and ?b = "snd (dequeue (bus w))"
  have "wf_bus ?b" using wf pos by (rule wf_dequeue)
  then have "appends_lower rank ?d ?b (bus w')"
    using dispatch_appends_lower [OF assms(1), of "w\<lparr>bus := ?b\<rparr>" ?d] w' by simp
  then obtain es where "wf_bus (bus w')" and q': "queued (bus w') = queued ?b @ es"
    and low: "\<forall>e\<in>set es. rank e < rank ?d" by (auto simp: appends_lower_def)
  moreover have q: "queued (bus w) = ?d # queued ?b" using wf pos by (rule queued_dequeue)
  ultimately show ?thesis
    using mult1I [of "mset (map rank (queued (bus w)))" "rank ?d" "mset (map rank (queued ?b))"
        "mset (map rank (queued (bus w')))" "mset (map rank es)" less_than] by auto
qed

lemma drain_terminates:
  assumes "ranked_handlers rank cbs" and "wf_bus (bus w)"
  shows "\<exists>w'. dispatchQueued cbs w = Some w' \<and> wf_bus (bus w') \<and> queueCount (bus w') = 0"
  using assms(2)
proof (induction "mset (map rank (queued (bus w)))" arbitrary: w
    rule: wf_induct_rule [OF wf_mult1 [OF wf_less_than]])
  case (1 w)
  show ?case
  proof (cases "0 < queueCount (bus w)")
    case True
    from drain_step_decreases [OF assms(1) "1.prems" True refl] "1.hyps" True
    show ?thesis by (subst dispatchQueued.simps) simp
  next
    case False
    then show ?thesis using "1.prems" by (subst dispatchQueued.simps) simp
  qed
qed


text \<open>
  The opposite case: a handler that enqueues again every event it gets. On a queue all of
  whose events reach somebody the queue never runs empty.
\<close>

definition echo :: "'z bus_sys_scheme handlers" where
  "echo c d u w = w\<lparr>bus := snd (enqueue d (bus w))\<rparr>"

definition echoing :: "event_bus \<Rightarrow> bool" where
  "echoing b \<longleftrightarrow> wf_bus b \<and> queued b \<noteq> [] \<and> (\<forall>d\<in>set (queued b). reached b d \<noteq> [])"

lemma echo_all:
  assumes "wf_bus (bus w)"
  shows "wf_bus (bus (fold (deliver echo b d) is w)) \<and>
    subscriptions (bus (fold (deliver echo b d) is w)) = subscriptions (bus w) \<and>
    set (queued (bus (fold (deliver echo b d) is w))) \<subseteq> insert d (set (queued (bus w))) \<and>
    (queued (bus w) \<noteq> [] \<or> is \<noteq> [] \<longrightarrow> queued (bus (fold (deliver echo b d) is w)) \<noteq> [])"
  using assms
proof (induction "is" arbitrary: w)
  case (Cons i "is")
  let ?w = "deliver echo b d i w"
  have q: "queued (bus ?w) = queued (bus w) @ (if queueCount (bus w) < kEventQueueDepth then [d] else [])"
    and wf: "wf_bus (bus ?w)" and subs: "subscriptions (bus ?w) = subscriptions (bus w)"
    using Cons.prems by (simp_all add: deliver_def echo_def eventq.enq_items takt_inv)
  have ne: "queued (bus ?w) \<noteq> []" using q by (auto simp: bus_consts split: if_splits)
  have sub: "set (queued (bus ?w)) \<subseteq> insert d (set (queued (bus w)))" using q by (auto split: if_splits)
  show ?case using Cons.IH [OF wf] ne sub subs by (simp del: queued_empty_iff) blast
qed auto

lemma echo_step:
  assumes "echoing (bus w)"
  shows "0 < queueCount (bus w) \<and>
    echoing (bus (dispatch echo (fst (dequeue (bus w))) (w\<lparr>bus := snd (dequeue (bus w))\<rparr>)))"
proof -
  let ?d = "fst (dequeue (bus w))" and ?b = "snd (dequeue (bus w))"
  have wf: "wf_bus (bus w)" and pos: "0 < queueCount (bus w)"
    using assms by (auto simp: echoing_def)
  have q: "queued (bus w) = ?d # queued ?b" using wf pos by (rule queued_dequeue)
  have disp: "dispatch echo ?d (w\<lparr>bus := ?b\<rparr>) = fold (deliver echo ?b ?d) (reached ?b ?d) (w\<lparr>bus := ?b\<rparr>)"
    by (subst dispatch_reached) (simp_all add: echo_def)
  have "wf_bus ?b" using wf pos by (rule wf_dequeue)
  moreover have r: "reached ?b e = reached (bus w) e" for e by (rule reached_cong) simp
  moreover have "reached (bus w) ?d \<noteq> []" using assms q by (auto simp: echoing_def)
  ultimately show ?thesis
    using echo_all [of "w\<lparr>bus := ?b\<rparr>" ?b ?d "reached ?b ?d"] assms q pos
    unfolding disp echoing_def by (auto simp del: queued_empty_iff cong: reached_cong)
qed

text \<open>What callbacks and the removal of an event preserve, the whole drain preserves.\<close>

lemma dispatchQueued_inv:
  fixes cbs :: "'z bus_sys_scheme handlers" and I :: "'z bus_sys_scheme \<Rightarrow> bool"
  assumes cb: "\<And>c d u w. I w \<Longrightarrow> I (cbs c d u w)"
    and deq: "\<And>w. I w \<Longrightarrow> 0 < queueCount (bus w) \<Longrightarrow> I (w\<lparr>bus := snd (dequeue (bus w))\<rparr>)"
    and "dispatchQueued cbs w = Some w'" and "I w"
  shows "I w'"
proof -
  have "cbs = cbs \<longrightarrow> I w \<longrightarrow> I w'"
  proof (rule dispatchQueued.raw_induct [where
        P = "\<lambda>c (w :: 'z bus_sys_scheme) (w' :: 'z bus_sys_scheme). c = cbs \<longrightarrow> I w \<longrightarrow> I w'", OF _ assms(3)])
    fix f and c :: "'z bus_sys_scheme handlers" and w r
    assume IH: "\<And>c (w :: 'z bus_sys_scheme) r. f c w = Some r \<Longrightarrow> c = cbs \<longrightarrow> I w \<longrightarrow> I r"
      and eq: "(if 0 < queueCount (bus w)
        then f c (dispatch c (fst (dequeue (bus w))) (w\<lparr>bus := snd (dequeue (bus w))\<rparr>))
        else Some w) = Some r"
    have step: "I (dispatch cbs (fst (dequeue (bus w))) (w\<lparr>bus := snd (dequeue (bus w))\<rparr>))"
      if "I w" "0 < queueCount (bus w)"
    proof (rule dispatch_inv [of I cbs])
      show "I (w\<lparr>bus := snd (dequeue (bus w))\<rparr>)" using that by (rule deq)
    qed (rule cb)
    show "c = cbs \<longrightarrow> I w \<longrightarrow> I r"
      using IH [of c "dispatch c (fst (dequeue (bus w))) (w\<lparr>bus := snd (dequeue (bus w))\<rparr>)" r] eq step
      by (cases "0 < queueCount (bus w)") auto
  qed
  then show ?thesis using assms(4) by simp
qed


section \<open>Properties\<close>

text \<open>
  C22: every operation of the bus keeps its tables consistent: 32 subscription slots whose
  active ones are counted, and a 64-slot queue whose indices and count agree.
\<close>

theorem bus_operations_keep_invariant:
  "wf_bus new_event_bus \<and>
   (wf_bus b \<longrightarrow> wf_bus (snd (subscribe e c u b)) \<and> wf_bus (unsubscribe h b) \<and>
      wf_bus (snd (enqueue d b)) \<and> (0 < queueCount b \<longrightarrow> wf_bus (snd (dequeue b))))"
  by (simp add: takt_inv)

theorem bus_operations_keep_invariant_witness:
  "wf_bus (snd (enqueue empty_event (snd (subscribe 0x0100 (Some 1) None new_event_bus))))"
  using bus_operations_keep_invariant [where b = new_event_bus and e = "0x0100" and c = "Some 1" and u = None]
    bus_operations_keep_invariant [where b = "snd (subscribe 0x0100 (Some 1) None new_event_bus)"]
  by blast

text \<open>
  \<open>subscribe\<close> fails with -1 exactly when 32 subscribers are active; otherwise the handle
  is a free slot, the new callback receives exactly the events of its identifier in addition
  to what was received before, and \<open>unsubscribe\<close> of the handle undoes that.
\<close>

theorem subscribe_functional:
  assumes "wf_bus b" and "subscribe e c u b = (h, b')"
  shows "(h = -1 \<longleftrightarrow> subscriberCount b = kMaxEventSubscribers) \<and>
    (h \<noteq> -1 \<longrightarrow> 0 \<le> h \<and> h < int kMaxEventSubscribers \<and>
       \<not> sub_active (subscriptions b ! nat h) \<and>
       set (reached b' d) = set (reached b d) \<union> (if e = ev_id d \<and> c \<noteq> None then {nat h} else {}) \<and>
       set (reached (unsubscribe h b') d) = set (reached b d))"
proof (cases "kMaxEventSubscribers \<le> subscriberCount b")
  case True
  then have "subscriberCount b = kMaxEventSubscribers"
    using assms(1) length_filter_le [of sub_active "subscriptions b"] by (simp add: wf_bus_def)
  with True show ?thesis using assms(2) by (simp add: subscribe_def)
next
  case False
  then have "length (filter sub_active (subscriptions b)) < length (subscriptions b)"
    using assms(1) by (simp add: wf_bus_def)
  then obtain i where i: "find_index (\<lambda>s. \<not> sub_active s) (subscriptions b) = Some i"
    using count_full by blast
  with assms False have h: "h = int i" and len: "length (subscriptions b) = kMaxEventSubscribers"
    and b': "b' = b\<lparr>subscriptions := (subscriptions b)
            [i := \<lparr>sub_event = e, sub_callback = c, sub_userData = u, sub_active = True\<rparr>],
          subscriberCount := subscriberCount b + 1\<rparr>"
    by (auto simp: subscribe_def wf_bus_def)
  from i len have "i < kMaxEventSubscribers" and "\<not> sub_active (subscriptions b ! i)"
    by (auto dest: find_index_less find_index_holds)
  then show ?thesis
    using False len
    by (auto simp: h b' reached_def reaches_def unsubscribe_def nth_list_update split: if_splits)
qed

theorem subscribe_functional_witness:
  "set (reached (snd (subscribe 0x0100 (Some 1) None new_event_bus)) (empty_event\<lparr>ev_id := 0x0100\<rparr>)) =
   set (reached new_event_bus (empty_event\<lparr>ev_id := 0x0100\<rparr>)) \<union> {0}"
proof -
  have s: "subscribe 0x0100 (Some 1) None new_event_bus =
      (0, snd (subscribe 0x0100 (Some 1) None new_event_bus))"
    by (simp add: subscribe_def new_event_bus_def bus_consts new_subscription_def numeral_eq_Suc)
  show ?thesis
    using subscribe_functional [OF wf_new_event_bus s, of "empty_event\<lparr>ev_id := 0x0100\<rparr>"] by simp
qed

text \<open>
  C14: the deferred queue is a lossless FIFO up to its depth: a sequence of \<open>enqueue\<close> calls
  appends its events in order, and exactly the ones that no longer fit are dropped.
\<close>

theorem enqueue_all_fifo:
  assumes "wf_bus b"
  shows "queued (fold (\<lambda>d b. snd (enqueue d b)) ds b) =
    queued b @ take (kEventQueueDepth - queueCount b) ds"
  using eventq.enq_list [OF assms, of ds] by simp

theorem enqueue_all_fifo_witness:
  "queued (fold (\<lambda>d b. snd (enqueue d b)) [empty_event, empty_event\<lparr>ev_id := 7\<rparr>] new_event_bus) =
   [empty_event, empty_event\<lparr>ev_id := 7\<rparr>]"
  using enqueue_all_fifo [OF wf_new_event_bus, of "[empty_event, empty_event\<lparr>ev_id := 7\<rparr>]"]
  by (simp add: bus_consts) (simp add: new_event_bus_def queued_def bus_consts)

text \<open>
  C23: a synchronous publication calls exactly the active subscribers of that event, each
  once and in slot order, when the callbacks leave the subscription table alone.
\<close>

theorem publish_calls_subscribers_in_order:
  assumes "\<And>c d u w. subscriptions (bus (cbs c d u w)) = subscriptions (bus w)"
  shows "publish cbs e p1 p2 w =
    (let d = empty_event\<lparr>ev_id := e, param1 := p1, param2 := p2\<rparr>
     in fold (deliver cbs (bus w) d) (reached (bus w) d) w)"
  by (simp add: publish_def Let_def dispatch_reached assms)

text \<open>A bus with two subscribers of event 7, and an application that counts its calls.\<close>

definition two_subscribers :: event_bus where
  "two_subscribers = new_event_bus\<lparr>subscriptions :=
     \<lparr>sub_event = 7, sub_callback = Some 1, sub_userData = None, sub_active = True\<rparr> #
     \<lparr>sub_event = 7, sub_callback = Some 2, sub_userData = None, sub_active = True\<rparr> #
     replicate 30 new_subscription, subscriberCount := 2\<rparr>"

lemma wf_two_subscribers: "wf_bus two_subscribers"
  by (simp add: two_subscribers_def wf_bus_def new_event_bus_def bus_consts new_subscription_def)

lemma reached_two: "ev_id d = 7 \<Longrightarrow> reached two_subscribers d = [0, 1]"
  by (simp add: reached_def bus_consts upt_rec reaches_def two_subscribers_def new_subscription_def
      nth_Cons')

lemma queued_two [simp]: "queued two_subscribers = []"
  by (simp add: two_subscribers_def new_event_bus_def queued_def)

lemma count_two [simp]: "queueCount two_subscribers = 0"
  by (simp add: two_subscribers_def new_event_bus_def)

definition count_calls :: "nat bus_sys_scheme handlers" where
  "count_calls c d u w = w\<lparr>bus_sys.more := bus_sys.more w + 1\<rparr>"

theorem publish_calls_subscribers_in_order_witness:
  "bus_sys.more (publish count_calls 7 0 0 \<lparr>bus = two_subscribers, \<dots> = 0\<rparr>) = 2"
  by (subst publish_calls_subscribers_in_order)
    (simp_all add: count_calls_def reached_two Let_def deliver_def)

text \<open>
  C7: draining the queue terminates with an empty queue and consistent tables whenever the
  cascades are well-founded: the reaction to an event may enqueue further events, as many as
  it likes, provided their rank is smaller.
\<close>

theorem drain_of_ranked_cascades_terminates:
  assumes "ranked_handlers rank cbs" and "wf_bus (bus w)"
  shows "\<exists>w'. dispatchQueued cbs w = Some w' \<and> wf_bus (bus w') \<and> queued (bus w') = []"
  using drain_terminates [OF assms] by simp

text \<open>A handler that reacts to event 7 by enqueueing event 3 and to nothing else.\<close>

definition chain :: "unit bus_sys_scheme handlers" where
  "chain c d u w = (if ev_id d = 7
     then w\<lparr>bus := snd (enqueue (empty_event\<lparr>ev_id := 3\<rparr>) (bus w))\<rparr> else w)"

lemma chain_ranked: "ranked_handlers (\<lambda>d. if ev_id d = 7 then 1 else 0) chain"
  unfolding ranked_handlers_def appends_lower_def
  by (auto simp: chain_def takt_inv eventq.enq_items)

theorem drain_of_ranked_cascades_terminates_witness:
  "\<exists>w'. dispatchQueued chain \<lparr>bus = snd (enqueue (empty_event\<lparr>ev_id := 7\<rparr>) two_subscribers)\<rparr> = Some w'
     \<and> queued (bus w') = []"
  using drain_of_ranked_cascades_terminates [OF chain_ranked,
      of "\<lparr>bus = snd (enqueue (empty_event\<lparr>ev_id := 7\<rparr>) two_subscribers)\<rparr>"]
  by (auto simp: takt_inv wf_two_subscribers)

text \<open>
  C21: when callbacks do not touch the bus, draining delivers the queued events oldest first,
  each to its subscribers, and returns.
\<close>

theorem drain_delivers_in_order:
  fixes cbs :: "'z bus_sys_scheme handlers"
  assumes "wf_bus (bus w)" and "\<And>c d u w. bus (cbs c d u w) = bus w"
  shows "dispatchQueued cbs w =
    Some (fold (\<lambda>d w. dispatch cbs d (w\<lparr>bus := snd (dequeue (bus w))\<rparr>)) (queued (bus w)) w)"
  using assms(1)
proof (induction "queued (bus w)" arbitrary: w)
  case Nil
  then have "queueCount (bus w) = 0" and "queued (bus w) = []" by (metis queued_empty_iff)+
  then show ?case by (subst dispatchQueued.simps) (simp del: queued_empty_iff)
next
  case (Cons d ds)
  let ?w = "dispatch cbs d (w\<lparr>bus := snd (dequeue (bus w))\<rparr>)"
  have pos: "0 < queueCount (bus w)" using Cons.hyps(2) by (metis list.distinct(1) queued_empty_iff gr0I)
  have d: "fst (dequeue (bus w)) = d" "queued (bus ?w) = ds"
    using queued_dequeue [OF Cons.prems pos] Cons.hyps(2) by (simp_all add: dispatch_bus assms(2))
  have "wf_bus (bus ?w)" using wf_dequeue [OF Cons.prems pos] by (simp add: dispatch_bus assms(2))
  from Cons.hyps(1) [OF _ this] d show ?case
    using pos Cons.hyps(2) [symmetric] by (subst dispatchQueued.simps) simp
qed

theorem drain_delivers_in_order_witness:
  "map_option bus_sys.more (dispatchQueued count_calls
     \<lparr>bus = snd (enqueue (empty_event\<lparr>ev_id := 7\<rparr>) two_subscribers), \<dots> = 0\<rparr>) = Some 2"
proof -
  let ?b = "snd (enqueue (empty_event\<lparr>ev_id := 7\<rparr>) two_subscribers)"
  have keep: "bus (count_calls c d u w) = bus w" for c d u w by (simp add: count_calls_def)
  have "dispatch count_calls (empty_event\<lparr>ev_id := 7\<rparr>) \<lparr>bus = snd (dequeue ?b), \<dots> = 0\<rparr> =
      \<lparr>bus = snd (dequeue ?b), \<dots> = 2\<rparr>"
    using reached_cong [of "snd (dequeue ?b)" two_subscribers "empty_event\<lparr>ev_id := 7\<rparr>"]
    by (subst dispatch_reached) (simp_all add: keep reached_two deliver_def count_calls_def)
  then show ?thesis
    using drain_delivers_in_order [of "\<lparr>bus = ?b, \<dots> = 0\<rparr>" count_calls, OF _ keep]
    by (simp add: takt_inv wf_two_subscribers eventq.enq_items bus_consts)
qed

text \<open>
  the drain loop has no bound of its own. When a callback enqueues the event it is
  handling, \<open>dispatchQueued\<close>, and with it the takt, never returns.
\<close>

theorem reenqueueing_handler_livelocks:
  fixes w :: "'z bus_sys_scheme"
  assumes "wf_bus (bus w)" and "queued (bus w) \<noteq> []"
    and "\<forall>d\<in>set (queued (bus w)). reached (bus w) d \<noteq> []"
  shows "dispatchQueued echo w = None"
proof (rule ccontr)
  assume "dispatchQueued echo w \<noteq> None"
  then obtain r where r: "dispatchQueued echo w = Some r" by auto
  have "\<not> ((echo :: 'z bus_sys_scheme handlers) = echo \<and> echoing (bus w))"
  proof (rule dispatchQueued.raw_induct [where
        P = "\<lambda>cbs (w :: 'z bus_sys_scheme) (r :: 'z bus_sys_scheme). \<not> (cbs = echo \<and> echoing (bus w))", OF _ r])
    fix f and cbs :: "'z bus_sys_scheme handlers" and w r
    assume IH: "\<And>cbs w r. f cbs w = Some r \<Longrightarrow> \<not> (cbs = echo \<and> echoing (bus w))"
      and eq: "(if 0 < queueCount (bus w)
        then f cbs (dispatch cbs (fst (dequeue (bus w))) (w\<lparr>bus := snd (dequeue (bus w))\<rparr>))
        else Some w) = Some r"
    show "\<not> (cbs = echo \<and> echoing (bus w))"
      using echo_step [of w] IH eq by (auto split: if_splits)
  qed
  with assms show False by (simp add: echoing_def)
qed

theorem reenqueueing_handler_livelocks_witness:
  "dispatchQueued echo \<lparr>bus = snd (enqueue (empty_event\<lparr>ev_id := 7\<rparr>) two_subscribers)\<rparr> = None"
proof (rule reenqueueing_handler_livelocks)
  let ?b = "snd (enqueue (empty_event\<lparr>ev_id := 7\<rparr>) two_subscribers)"
  have "reached ?b d = reached two_subscribers d" for d by (rule reached_cong) simp
  then show "\<forall>d\<in>set (queued (bus \<lparr>bus = ?b\<rparr>)). reached (bus \<lparr>bus = ?b\<rparr>) d \<noteq> []"
    by (simp add: eventq.enq_items wf_two_subscribers bus_consts reached_two)
qed (simp_all add: takt_inv wf_two_subscribers eventq.enq_items bus_consts del: queued_empty_iff)

end
