(* ===== verification/Timers.thy ===== *)
theory Timers
  imports Event_Bus
begin

text \<open>
  Software timers: \<open>kernel/include/takt/timer.hpp\<close>, \<open>kernel/include/takt/timer_manager.hpp\<close>
  and \<open>kernel/src/timer.cpp\<close>.

  \<open>Timer\<close> objects are owned by the application; the manager only holds pointers to them. The
  objects therefore live in an explicit store from addresses to timers, where a missing
  entry is an object that does not exist (any more). An operation on a missing object is
  undefined behaviour and has no result (\<open>None\<close>). A timer's \<open>std::function\<close> is an
  identifier that a \<open>timer_callbacks\<close> value interprets as a change of the system.
\<close>


section \<open>State\<close>

definition kMaxTimers :: nat where
  "kMaxTimers = 32"

definition no_handle :: u16 where
  "no_handle = 0xFFFF"

record timer =
  t_handle :: u16
  intervalMs :: u32
  elapsedMs :: u32
  t_active :: bool
  t_repeat :: bool
  t_callback :: "ptr option"

record timer_manager =
  timer_slots :: "ptr option list"
  activeCount :: nat

record timer_sys = bus_sys +
  timers :: "ptr \<rightharpoonup> timer"
  tmgr :: timer_manager

type_synonym 'w timer_callbacks = "ptr \<Rightarrow> 'w \<Rightarrow> 'w"

definition new_timer :: "u32 \<Rightarrow> bool \<Rightarrow> timer" where
  "new_timer interval rep = \<lparr>t_handle = no_handle, intervalMs = interval, elapsedMs = 0,
     t_active = False, t_repeat = rep, t_callback = None\<rparr>"

definition new_timer_manager :: timer_manager where
  "new_timer_manager = \<lparr>timer_slots = replicate kMaxTimers None, activeCount = 0\<rparr>"


section \<open>The manager's pool\<close>

definition registerTimer :: "ptr \<Rightarrow> 'z timer_sys_scheme \<Rightarrow> (bool \<times> 'z timer_sys_scheme) option" where
  "registerTimer p w =
     (case timers w p of None \<Rightarrow> None
      | Some t \<Rightarrow>
        if kMaxTimers \<le> activeCount (tmgr w) then Some (False, w)
        else case find_index (\<lambda>s. s = None) (timer_slots (tmgr w)) of
          None \<Rightarrow> Some (False, w)
        | Some i \<Rightarrow> Some (True, w\<lparr>tmgr := \<lparr>timer_slots = (timer_slots (tmgr w))[i := Some p],
                                        activeCount = activeCount (tmgr w) + 1\<rparr>,
                                 timers := (timers w)(p \<mapsto> t\<lparr>t_handle := of_nat i\<rparr>)\<rparr>))"

definition unregisterTimer :: "ptr \<Rightarrow> 'z timer_sys_scheme \<Rightarrow> 'z timer_sys_scheme option" where
  "unregisterTimer p w =
     (case timers w p of None \<Rightarrow> None
      | Some t \<Rightarrow> let h = unat (t_handle t) in
        if h < kMaxTimers \<and> timer_slots (tmgr w) ! h = Some p
        then Some (w\<lparr>tmgr := \<lparr>timer_slots = (timer_slots (tmgr w))[h := None],
                              activeCount = activeCount (tmgr w) - 1\<rparr>,
                     timers := (timers w)(p \<mapsto> t\<lparr>t_handle := no_handle\<rparr>)\<rparr>)
        else Some w)"


section \<open>Operations of a timer object\<close>

definition with_timer :: "(timer \<Rightarrow> timer) \<Rightarrow> ptr \<Rightarrow> 'z timer_sys_scheme \<Rightarrow> 'z timer_sys_scheme option" where
  "with_timer f p w = map_option (\<lambda>t. w\<lparr>timers := (timers w)(p \<mapsto> f t)\<rparr>) (timers w p)"

definition timer_construct :: "u32 \<Rightarrow> bool \<Rightarrow> ptr \<Rightarrow> 'z timer_sys_scheme \<Rightarrow> 'z timer_sys_scheme" where
  "timer_construct interval rep p w = w\<lparr>timers := (timers w)(p \<mapsto> new_timer interval rep)\<rparr>"

definition timer_destroy :: "ptr \<Rightarrow> 'z timer_sys_scheme \<Rightarrow> 'z timer_sys_scheme option" where
  "timer_destroy p w = map_option (\<lambda>w. w\<lparr>timers := (timers w)(p := None)\<rparr>) (unregisterTimer p w)"

definition timer_setInterval :: "u32 \<Rightarrow> ptr \<Rightarrow> 'z timer_sys_scheme \<Rightarrow> 'z timer_sys_scheme option" where
  "timer_setInterval interval = with_timer (\<lambda>t. t\<lparr>intervalMs := interval\<rparr>)"

definition timer_setRepeat :: "bool \<Rightarrow> ptr \<Rightarrow> 'z timer_sys_scheme \<Rightarrow> 'z timer_sys_scheme option" where
  "timer_setRepeat rep = with_timer (\<lambda>t. t\<lparr>t_repeat := rep\<rparr>)"

definition timer_start :: "ptr \<Rightarrow> 'z timer_sys_scheme \<Rightarrow> 'z timer_sys_scheme option" where
  "timer_start = with_timer (\<lambda>t. t\<lparr>elapsedMs := 0, t_active := True\<rparr>)"

definition timer_stop :: "ptr \<Rightarrow> 'z timer_sys_scheme \<Rightarrow> 'z timer_sys_scheme option" where
  "timer_stop = with_timer (\<lambda>t. t\<lparr>t_active := False\<rparr>)"

definition timer_reset :: "ptr \<Rightarrow> 'z timer_sys_scheme \<Rightarrow> 'z timer_sys_scheme option" where
  "timer_reset = with_timer (\<lambda>t. t\<lparr>elapsedMs := 0\<rparr>)"

definition timer_onTimeout :: "ptr \<Rightarrow> ptr \<Rightarrow> 'z timer_sys_scheme \<Rightarrow> 'z timer_sys_scheme option" where
  "timer_onTimeout cb p w =
     do { w1 \<leftarrow> with_timer (\<lambda>t. t\<lparr>t_callback := Some cb\<rparr>) p w;
          map_option snd (registerTimer p w1) }"

text \<open>
  Moving copies the fields and resets the handle of the source; the \<open>std::function\<close> moved
  from is left empty. Neither operation tells the manager the new address.
\<close>

definition timer_move_construct :: "ptr \<Rightarrow> ptr \<Rightarrow> 'z timer_sys_scheme \<Rightarrow> 'z timer_sys_scheme option" where
  "timer_move_construct dst src w =
     map_option (\<lambda>t. w\<lparr>timers := (timers w)(dst \<mapsto> t, src \<mapsto> t\<lparr>t_handle := no_handle, t_callback := None\<rparr>)\<rparr>)
       (timers w src)"

definition timer_move_assign :: "ptr \<Rightarrow> ptr \<Rightarrow> 'z timer_sys_scheme \<Rightarrow> 'z timer_sys_scheme option" where
  "timer_move_assign dst src w =
     (if dst = src then Some w
      else do { w1 \<leftarrow> unregisterTimer dst w; timer_move_construct dst src w1 })"

text \<open>
  \<open>tick\<close> advances the counter, calls the callback at the interval (which may do anything to
  the system, this timer included) and then reads the mode of the timer as it is afterwards.
\<close>

definition timer_tick ::
  "'z timer_sys_scheme timer_callbacks \<Rightarrow> u32 \<Rightarrow> ptr \<Rightarrow> 'z timer_sys_scheme \<Rightarrow> 'z timer_sys_scheme option" where
  "timer_tick tcbs deltaMs p w =
     (case timers w p of None \<Rightarrow> None
      | Some t \<Rightarrow>
        if \<not> t_active t then Some w
        else let t1 = t\<lparr>elapsedMs := elapsedMs t + deltaMs\<rparr>;
                 w1 = w\<lparr>timers := (timers w)(p \<mapsto> t1)\<rparr>
             in if intervalMs t1 \<le> elapsedMs t1
                then let w2 = (case t_callback t1 of Some c \<Rightarrow> tcbs c w1 | None \<Rightarrow> w1)
                     in with_timer (\<lambda>t2. if t_repeat t2 then t2\<lparr>elapsedMs := 0\<rparr>
                                         else t2\<lparr>t_active := False\<rparr>) p w2
                else Some w1)"

definition tmgr_tick_slot ::
  "'z timer_sys_scheme timer_callbacks \<Rightarrow> u32 \<Rightarrow> nat \<Rightarrow> 'z timer_sys_scheme \<Rightarrow> 'z timer_sys_scheme option" where
  "tmgr_tick_slot tcbs deltaMs i w =
     (case timer_slots (tmgr w) ! i of None \<Rightarrow> Some w | Some p \<Rightarrow> timer_tick tcbs deltaMs p w)"

definition tmgr_tick ::
  "'z timer_sys_scheme timer_callbacks \<Rightarrow> u32 \<Rightarrow> 'z timer_sys_scheme \<Rightarrow> 'z timer_sys_scheme option" where
  "tmgr_tick tcbs deltaMs w = mfold (tmgr_tick_slot tcbs deltaMs) [0..<kMaxTimers] w"

lemmas timer_op_defs = with_timer_def timer_construct_def timer_setInterval_def timer_setRepeat_def
  timer_start_def timer_stop_def timer_reset_def

declare registerTimer_def [takt_ops] unregisterTimer_def [takt_ops] timer_destroy_def [takt_ops]
  timer_onTimeout_def [takt_ops] timer_op_defs [takt_ops]


section \<open>Invariants\<close>

text \<open>
  \<open>wf_tmgr\<close>: the pool has 32 slots and counts the occupied ones. \<open>safe_timers\<close>: moreover
  every registered pointer is a live timer that knows its slot.
\<close>

definition wf_tmgr :: "timer_manager \<Rightarrow> bool" where
  "wf_tmgr m \<longleftrightarrow> length (timer_slots m) = kMaxTimers \<and>
     activeCount m = length (filter (\<lambda>s. s \<noteq> None) (timer_slots m))"

definition safe_timers :: "'z timer_sys_scheme \<Rightarrow> bool" where
  "safe_timers w \<longleftrightarrow> wf_tmgr (tmgr w) \<and>
     (\<forall>i<kMaxTimers. \<forall>p. timer_slots (tmgr w) ! i = Some p \<longrightarrow>
        (\<exists>t. timers w p = Some t \<and> unat (t_handle t) = i))"

lemma wf_new_timer_manager [takt_inv]: "wf_tmgr new_timer_manager"
  by (simp add: wf_tmgr_def new_timer_manager_def)

lemma wf_registerTimer:
  "wf_tmgr (tmgr w) \<Longrightarrow> registerTimer p w = Some (r, w') \<Longrightarrow> wf_tmgr (tmgr w')"
  by (auto simp: registerTimer_def wf_tmgr_def find_index_Some count_update
      split: option.splits if_splits)

lemma wf_unregisterTimer:
  "wf_tmgr (tmgr w) \<Longrightarrow> unregisterTimer p w = Some w' \<Longrightarrow> wf_tmgr (tmgr w')"
  by (auto simp: unregisterTimer_def wf_tmgr_def Let_def count_update
      split: option.splits if_splits)

lemma unat_slot: "i < kMaxTimers \<Longrightarrow> unat (of_nat i :: u16) = i"
  by (simp add: kMaxTimers_def unat_of_nat)

lemma unat_no_handle: "\<not> unat no_handle < kMaxTimers"
  by (simp add: no_handle_def kMaxTimers_def)

lemma safe_slot_unique:
  assumes "safe_timers w" and "i < kMaxTimers" and "j < kMaxTimers"
    and "timer_slots (tmgr w) ! i = Some p" and "timer_slots (tmgr w) ! j = Some p"
  shows "i = j"
  using assms unfolding safe_timers_def by (metis option.inject)

lemma safe_unregisterTimer:
  assumes "safe_timers w" and "unregisterTimer p w = Some w'"
  shows "safe_timers w'"
  using assms safe_slot_unique [OF assms(1)] wf_unregisterTimer [of w p w']
  by (auto simp: safe_timers_def unregisterTimer_def Let_def wf_tmgr_def nth_list_update
      split: option.splits if_splits)

lemma safe_registerTimer:
  assumes "safe_timers w" and "registerTimer p w = Some (r, w')" and "timers w p = Some t"
    and "t_handle t = no_handle"
  shows "safe_timers w'"
proof -
  have free: "timer_slots (tmgr w) ! i \<noteq> Some p" if "i < kMaxTimers" for i
    using assms(1,3,4) that unat_no_handle by (fastforce simp: safe_timers_def)
  have len: "length (timer_slots (tmgr w)) = kMaxTimers"
    using assms(1) by (simp add: safe_timers_def wf_tmgr_def)
  have "wf_tmgr (tmgr w')" using assms(1,2) wf_registerTimer by (auto simp: safe_timers_def)
  then show ?thesis
    using assms free len
    by (auto simp: safe_timers_def registerTimer_def nth_list_update find_index_Some unat_slot
        split: option.splits if_splits)
qed

lemma safe_with_timer:
  assumes "safe_timers w" and "with_timer f p w = Some w'" and "\<And>t. t_handle (f t) = t_handle t"
  shows "safe_timers w'"
  using assms by (fastforce simp: safe_timers_def with_timer_def)

lemma registered_handle:
  assumes "safe_timers w" and "i < kMaxTimers" and "timer_slots (tmgr w) ! i = Some p"
  obtains t where "timers w p = Some t" and "unat (t_handle t) = i"
  using assms by (auto simp: safe_timers_def)

lemma safe_timer_construct:
  "safe_timers w \<Longrightarrow> timers w p = None \<Longrightarrow> safe_timers (timer_construct i r p w)"
  by (auto simp: safe_timers_def timer_construct_def)

lemma safe_timer_destroy:
  assumes "safe_timers w" and "timer_destroy p w = Some w'"
  shows "safe_timers w'"
proof -
  from assms(2) obtain w1 where u: "unregisterTimer p w = Some w1"
    and w': "w' = w1\<lparr>timers := (timers w1)(p := None)\<rparr>"
    by (auto simp: timer_destroy_def)
  have safe: "safe_timers w1" using assms(1) u by (rule safe_unregisterTimer)
  have gone: "timer_slots (tmgr w1) ! i \<noteq> Some p" if "i < kMaxTimers" for i
  proof
    assume i: "timer_slots (tmgr w1) ! i = Some p"
    have "timer_slots (tmgr w) ! i = Some p"
      using u i that assms(1)
      by (auto simp: unregisterTimer_def Let_def safe_timers_def wf_tmgr_def nth_list_update
          split: option.splits if_splits)
    with assms(1) that obtain t where "timers w p = Some t" "unat (t_handle t) = i"
      by (rule registered_handle)
    with u i that assms(1) \<open>timer_slots (tmgr w) ! i = Some p\<close> show False
      by (auto simp: unregisterTimer_def safe_timers_def wf_tmgr_def)
  qed
  show ?thesis
    using safe gone unfolding w' safe_timers_def by auto
qed


section \<open>One tick\<close>

text \<open>
  \<open>timer_fires d t\<close>: the tick by \<open>d\<close> calls the callback of \<open>t\<close>. \<open>timer_advance d t\<close>: the
  timer after that tick if the callback leaves it alone.
\<close>

definition timer_fires :: "u32 \<Rightarrow> timer \<Rightarrow> bool" where
  "timer_fires d t \<longleftrightarrow> t_active t \<and> intervalMs t \<le> elapsedMs t + d"

definition timer_advance :: "u32 \<Rightarrow> timer \<Rightarrow> timer" where
  "timer_advance d t =
     (if \<not> t_active t then t
      else if timer_fires d t
      then if t_repeat t then t\<lparr>elapsedMs := 0\<rparr> else t\<lparr>elapsedMs := elapsedMs t + d, t_active := False\<rparr>
      else t\<lparr>elapsedMs := elapsedMs t + d\<rparr>)"

lemma timer_advance_handle [simp]: "t_handle (timer_advance d t) = t_handle t"
  by (simp add: timer_advance_def)

lemma timer_advance_callback [simp]: "t_callback (timer_advance d t) = t_callback t"
  by (simp add: timer_advance_def)

text \<open>
  Callbacks that keep the discipline of \<open>safe_timers\<close> and do not destroy the timer that is
  firing; and callbacks that do not touch timers at all.
\<close>

definition careful_callbacks :: "'z timer_sys_scheme timer_callbacks \<Rightarrow> bool" where
  "careful_callbacks tcbs \<longleftrightarrow>
     (\<forall>c w p t. safe_timers w \<and> timers w p = Some t \<and> t_callback t = Some c \<longrightarrow>
        safe_timers (tcbs c w) \<and> timers (tcbs c w) p \<noteq> None)"

definition quiet_callbacks :: "'z timer_sys_scheme timer_callbacks \<Rightarrow> bool" where
  "quiet_callbacks tcbs \<longleftrightarrow> (\<forall>c w. timers (tcbs c w) = timers w \<and> tmgr (tcbs c w) = tmgr w)"

lemma safe_timer_update:
  "safe_timers w \<Longrightarrow> timers w p = Some t \<Longrightarrow> t_handle t' = t_handle t \<Longrightarrow>
   safe_timers (w\<lparr>timers := (timers w)(p \<mapsto> t')\<rparr>)"
  by (fastforce simp: safe_timers_def)

lemma safe_timer_tick:
  assumes "careful_callbacks tcbs" and "safe_timers w" and "timers w p = Some t"
  shows "\<exists>w'. timer_tick tcbs d p w = Some w' \<and> safe_timers w'"
proof -
  let ?t1 = "t\<lparr>elapsedMs := elapsedMs t + d\<rparr>"
  let ?w1 = "w\<lparr>timers := (timers w)(p \<mapsto> ?t1)\<rparr>"
  let ?w2 = "case t_callback ?t1 of Some c \<Rightarrow> tcbs c ?w1 | None \<Rightarrow> ?w1"
  have s1: "safe_timers ?w1" using assms(2,3) by (rule safe_timer_update) simp
  have s2: "safe_timers ?w2 \<and> timers ?w2 p \<noteq> None"
  proof (cases "t_callback t")
    case (Some c)
    have "timers ?w1 p = Some ?t1" and "t_callback ?t1 = Some c" using Some by simp_all
    then show ?thesis
      using assms(1) s1 Some unfolding careful_callbacks_def
      by (metis (no_types, lifting) option.simps(5))
  qed (use s1 in simp)
  then obtain t2 where t2: "timers ?w2 p = Some t2" by blast
  let ?f = "\<lambda>t2. if t_repeat t2 then t2\<lparr>elapsedMs := 0\<rparr> else t2\<lparr>t_active := False\<rparr>"
  have w3: "with_timer ?f p ?w2 = Some (?w2\<lparr>timers := (timers ?w2)(p \<mapsto> ?f t2)\<rparr>)"
    using t2 by (simp only: with_timer_def option.map)
  have "safe_timers (?w2\<lparr>timers := (timers ?w2)(p \<mapsto> ?f t2)\<rparr>)"
    using conjunct1 [OF s2] t2 by (rule safe_timer_update) simp
  then show ?thesis
    using s1 assms(2,3) w3 by (simp add: timer_tick_def Let_def)
qed

lemma safe_tick_slot:
  assumes "careful_callbacks tcbs" and "safe_timers w" and "i < kMaxTimers"
  shows "\<exists>w'. tmgr_tick_slot tcbs d i w = Some w' \<and> safe_timers w'"
proof (cases "timer_slots (tmgr w) ! i")
  case (Some p)
  with assms obtain t where "timers w p = Some t" by (meson registered_handle)
  with safe_timer_tick [OF assms(1,2)] Some show ?thesis by (simp add: tmgr_tick_slot_def)
qed (use assms in \<open>simp add: tmgr_tick_slot_def\<close>)

lemma safe_tick_slots:
  assumes "careful_callbacks tcbs" and "safe_timers w"
  shows "\<exists>w'. mfold (tmgr_tick_slot tcbs d) [0..<kMaxTimers] w = Some w' \<and> safe_timers w'"
  using safe_tick_slot [OF assms(1)] assms(2) by (intro mfold_inv [where I = safe_timers]) auto

lemma quiet_timer_tick:
  assumes "quiet_callbacks tcbs" and "timers w p = Some t"
  obtains w' where "timer_tick tcbs d p w = Some w'"
    and "timers w' = (timers w)(p \<mapsto> timer_advance d t)" and "tmgr w' = tmgr w"
proof -
  let ?t1 = "t\<lparr>elapsedMs := elapsedMs t + d\<rparr>"
  let ?w1 = "w\<lparr>timers := (timers w)(p \<mapsto> ?t1)\<rparr>"
  let ?w2 = "case t_callback ?t1 of Some c \<Rightarrow> tcbs c ?w1 | None \<Rightarrow> ?w1"
  have w2: "timers ?w2 = timers ?w1" "tmgr ?w2 = tmgr w"
    using assms(1) by (auto simp: quiet_callbacks_def split: option.split)
  show ?thesis
    by (rule that [of "the (timer_tick tcbs d p w)"])
      (use assms(2) w2 in \<open>auto simp: timer_tick_def timer_advance_def timer_fires_def Let_def with_timer_def
        not_le split: option.split\<close>)
qed

section \<open>All timers under callbacks that leave timers alone\<close>

definition registered :: "'z timer_sys_scheme \<Rightarrow> ptr \<Rightarrow> bool" where
  "registered w p \<longleftrightarrow> Some p \<in> set (timer_slots (tmgr w))"

text \<open>What a tick must do to the timer store: every registered timer advances once.\<close>

definition advance_all :: "u32 \<Rightarrow> 'z timer_sys_scheme \<Rightarrow> ptr \<rightharpoonup> timer" where
  "advance_all d w = (\<lambda>p. if registered w p then map_option (timer_advance d) (timers w p) else timers w p)"

lemma safe_advance:
  assumes "safe_timers w" and "timers w' = (timers w)(p \<mapsto> timer_advance d t)" and "tmgr w' = tmgr w"
    and "timers w p = Some t"
  shows "safe_timers w'"
  using assms by (fastforce simp: safe_timers_def)

lemma registered_iff:
  "wf_tmgr (tmgr w) \<Longrightarrow> registered w p \<longleftrightarrow> (\<exists>i<kMaxTimers. timer_slots (tmgr w) ! i = Some p)"
  by (auto simp: registered_def wf_tmgr_def in_set_conv_nth)

lemma mfold_snoc: "mfold f (xs @ [x]) w = Option.bind (mfold f xs w) (f x)"
  by (cases "mfold f xs w"; cases "f x (the (mfold f xs w))") (simp_all add: mfold_append)

lemma tick_slot_simps:
  "timer_slots (tmgr w) ! i = None \<Longrightarrow> tmgr_tick_slot tcbs d i w = Some w"
  "timer_slots (tmgr w) ! i = Some p \<Longrightarrow> tmgr_tick_slot tcbs d i w = timer_tick tcbs d p w"
  by (simp_all add: tmgr_tick_slot_def)

lemma tick_slots:
  assumes "quiet_callbacks tcbs" and "safe_timers w" and "n \<le> kMaxTimers"
  shows "\<exists>w'. mfold (tmgr_tick_slot tcbs d) [0..<n] w = Some w' \<and> tmgr w' = tmgr w \<and> safe_timers w' \<and>
    timers w' = (\<lambda>p. if \<exists>i<n. timer_slots (tmgr w) ! i = Some p
                     then map_option (timer_advance d) (timers w p) else timers w p)"
  using assms(3)
proof (induction n)
  case 0
  then show ?case using assms(2) by simp
next
  case (Suc n)
  then obtain w1 where w1: "mfold (tmgr_tick_slot tcbs d) [0..<n] w = Some w1" "tmgr w1 = tmgr w"
      "safe_timers w1"
      "timers w1 = (\<lambda>p. if \<exists>i<n. timer_slots (tmgr w) ! i = Some p
                     then map_option (timer_advance d) (timers w p) else timers w p)"
    by auto
  show ?case
  proof (cases "timer_slots (tmgr w) ! n")
    case None
    then have "(\<exists>i<Suc n. timer_slots (tmgr w) ! i = Some p) \<longleftrightarrow> (\<exists>i<n. timer_slots (tmgr w) ! i = Some p)" for p
      by (auto simp: less_Suc_eq)
    with w1 None show ?thesis by (simp add: mfold_snoc tick_slot_simps)
  next
    case (Some p)
    have first: "timer_slots (tmgr w) ! i \<noteq> Some p" if "i < n" for i
      using safe_slot_unique [OF assms(2), of i n p] that Suc.prems Some by auto
    obtain t where t: "timers w p = Some t"
      using registered_handle [OF assms(2), of n p] Suc.prems Some by auto
    with w1(4) first have t1: "timers w1 p = Some t" by auto
    obtain w2 where w2: "timer_tick tcbs d p w1 = Some w2"
        "timers w2 = (timers w1)(p \<mapsto> timer_advance d t)" "tmgr w2 = tmgr w1"
      using assms(1) t1 by (rule quiet_timer_tick)
    have "mfold (tmgr_tick_slot tcbs d) [0..<Suc n] w = Some w2"
      using w1(1,2) Some w2(1) by (simp add: mfold_snoc tick_slot_simps)
    moreover have "safe_timers w2" using w1(3) w2(2,3) t1 by (rule safe_advance)
    moreover have "timers w2 = (\<lambda>p. if \<exists>i<Suc n. timer_slots (tmgr w) ! i = Some p
                     then map_option (timer_advance d) (timers w p) else timers w p)"
      using w1(4) w2(2) Some t first by (auto simp: less_Suc_eq fun_eq_iff)
    ultimately show ?thesis using w1(2) w2(3) by simp
  qed
qed

lemma quiet_tmgr_tick:
  assumes "quiet_callbacks tcbs" and "safe_timers w"
  obtains w' where "tmgr_tick tcbs d w = Some w'" and "tmgr w' = tmgr w" and "safe_timers w'"
    and "timers w' = advance_all d w"
proof -
  have "wf_tmgr (tmgr w)" using assms(2) by (simp add: safe_timers_def)
  then have "advance_all d w = (\<lambda>p. if \<exists>i<kMaxTimers. timer_slots (tmgr w) ! i = Some p
      then map_option (timer_advance d) (timers w p) else timers w p)"
    by (simp add: advance_all_def registered_iff)
  with tick_slots [OF assms order.refl, of d] that show ?thesis
    unfolding tmgr_tick_def by auto
qed


section \<open>An application that logs which callbacks ran\<close>

definition log_call :: "ptr list timer_sys_scheme timer_callbacks" where
  "log_call c w = w\<lparr>timer_sys.more := timer_sys.more w @ [c]\<rparr>"

lemma quiet_log_call [simp]: "quiet_callbacks log_call"
  by (simp add: quiet_callbacks_def log_call_def)

definition fired_slot :: "u32 \<Rightarrow> 'z timer_sys_scheme \<Rightarrow> nat \<Rightarrow> ptr list" where
  "fired_slot d w i = (case timer_slots (tmgr w) ! i of None \<Rightarrow> []
     | Some p \<Rightarrow> (case timers w p of None \<Rightarrow> []
       | Some t \<Rightarrow> if timer_fires d t then (case t_callback t of None \<Rightarrow> [] | Some c \<Rightarrow> [c]) else []))"

lemma fired_slot_simps:
  "timer_slots (tmgr w) ! i = None \<Longrightarrow> fired_slot d w i = []"
  "timer_slots (tmgr w) ! i = Some p \<Longrightarrow> timers w p = Some t \<Longrightarrow> fired_slot d w i =
     (if timer_fires d t then (case t_callback t of None \<Rightarrow> [] | Some c \<Rightarrow> [c]) else [])"
  by (simp_all add: fired_slot_def)

text \<open>
  A view of the system that callbacks change by \<open>R\<close> as long as \<open>I\<close> holds, and that the timer store does
  not touch, changes by one step of \<open>R\<close> per callback of a timer that fires, in slot order.
\<close>

definition fired :: "u32 \<Rightarrow> 'z timer_sys_scheme \<Rightarrow> ptr list" where
  "fired d w = concat (map (fired_slot d w) [0..<kMaxTimers])"

definition reacts_by ::
  "('z timer_sys_scheme \<Rightarrow> bool) \<Rightarrow> ('z timer_sys_scheme \<Rightarrow> 'v) \<Rightarrow> (ptr \<Rightarrow> 'v \<Rightarrow> 'v \<Rightarrow> bool) \<Rightarrow>
   'z timer_sys_scheme timer_callbacks \<Rightarrow> bool" where
  "reacts_by I view R tcbs \<longleftrightarrow> (\<forall>w ts. view (w\<lparr>timers := ts\<rparr>) = view w \<and> (I (w\<lparr>timers := ts\<rparr>) \<longleftrightarrow> I w)) \<and>
     (\<forall>c w. I w \<longrightarrow> R c (view w) (view (tcbs c w)) \<and> I (tcbs c w))"

lemma timer_tick_view:
  assumes "reacts_by I view R tcbs" and "I w" and "timers w p = Some t" and "timer_tick tcbs d p w = Some w'"
  shows "chained R (if timer_fires d t then (case t_callback t of None \<Rightarrow> [] | Some c \<Rightarrow> [c]) else []) (view w) (view w') \<and> I w'"
proof -
  have upd: "view (v\<lparr>timers := ts\<rparr>) = view v" "I (v\<lparr>timers := ts\<rparr>) = I v" for v ts
    using assms(1) by (simp_all add: reacts_by_def)
  have cb: "R c (view v) (view (tcbs c v)) \<and> I (tcbs c v)" if "I v" for c v
    using assms(1) that by (simp add: reacts_by_def)
  show ?thesis
    using assms(2-4) cb [of "w\<lparr>timers := (timers w)(p \<mapsto> t\<lparr>elapsedMs := elapsedMs t + d\<rparr>)\<rparr>"]
    by (auto simp: timer_tick_def Let_def with_timer_def timer_fires_def upd split: if_splits option.splits)
qed

lemma tick_slots_view:
  assumes view: "reacts_by I view R tcbs" and quiet: "quiet_callbacks tcbs" and "safe_timers w" and "I w"
    and "n \<le> kMaxTimers" and "mfold (tmgr_tick_slot tcbs d) [0..<n] w = Some w'"
  shows "chained R (concat (map (fired_slot d w) [0..<n])) (view w) (view w') \<and> I w'"
  using assms(5,6)
proof (induction n arbitrary: w')
  case (Suc n)
  obtain w1 where w1: "mfold (tmgr_tick_slot tcbs d) [0..<n] w = Some w1" "tmgr w1 = tmgr w"
      "timers w1 = (\<lambda>p. if \<exists>i<n. timer_slots (tmgr w) ! i = Some p
                     then map_option (timer_advance d) (timers w p) else timers w p)"
    using tick_slots [OF quiet assms(3), of n d] Suc.prems by auto
  have log: "chained R (concat (map (fired_slot d w) [0..<n])) (view w) (view w1)" "I w1"
    using Suc.IH [OF _ w1(1)] Suc.prems by simp_all
  have step: "tmgr_tick_slot tcbs d n w1 = Some w'"
    using Suc.prems(2) w1(1) by (simp add: mfold_snoc)
  show ?case
  proof (cases "timer_slots (tmgr w) ! n")
    case (Some p)
    have first: "timer_slots (tmgr w) ! i \<noteq> Some p" if "i < n" for i
      using safe_slot_unique [OF assms(3), of i n p] that Suc.prems Some by auto
    obtain t where t: "timers w p = Some t"
      using registered_handle [OF assms(3), of n p] Suc.prems Some by auto
    with w1(3) first have t1: "timers w1 p = Some t" by auto
    from step Some w1(2) have "timer_tick tcbs d p w1 = Some w'" by (simp add: tick_slot_simps)
    from timer_tick_view [OF view log(2) t1 this]
    show ?thesis using log(1) Some t by (auto simp: fired_slot_simps chained_append)
  qed (use step log w1(2) in \<open>simp add: tick_slot_simps fired_slot_simps\<close>)
qed (use assms(4) in simp)

lemma tmgr_tick_view:
  assumes "reacts_by I view R tcbs" and "quiet_callbacks tcbs" and "safe_timers w" and "I w"
    and "tmgr_tick tcbs d w = Some w'"
  shows "chained R (fired d w) (view w) (view w') \<and> I w'"
  using assms(5) unfolding tmgr_tick_def fired_def by (rule tick_slots_view [OF assms(1-4) order.refl])

lemma log_tmgr_tick:
  assumes "safe_timers w" and "tmgr_tick log_call d w = Some w'"
  shows "timer_sys.more w' = timer_sys.more w @ fired d w"
proof -
  have "reacts_by (\<lambda>w. True) timer_sys.more (\<lambda>c l l'. l' = l @ [c]) log_call"
    by (simp add: reacts_by_def log_call_def)
  from tmgr_tick_view [OF this quiet_log_call assms(1) TrueI assms(2)]
  have "timer_sys.more w' = fold (\<lambda>c l. l @ [c]) (fired d w) (timer_sys.more w)" by (simp add: chained_fold)
  moreover have "fold (\<lambda>c l. l @ [c]) xs l = l @ xs" for xs l :: "ptr list" by (induction xs arbitrary: l) simp_all
  ultimately show ?thesis by simp
qed

text \<open>The system after a series of takts with the given time steps.\<close>

definition takts :: "'z timer_sys_scheme timer_callbacks \<Rightarrow> u32 list \<Rightarrow> 'z timer_sys_scheme \<Rightarrow> 'z timer_sys_scheme option" where
  "takts tcbs ds w = mfold (tmgr_tick tcbs) ds w"

text \<open>How often a single timer fires under such a series.\<close>

primrec firings :: "u32 list \<Rightarrow> timer \<Rightarrow> nat" where
  "firings [] t = 0"
| "firings (d # ds) t = (if timer_fires d t then 1 else 0) + firings ds (timer_advance d t)"

lemma count_list_single:
  assumes "i < n" and "\<And>j. j < n \<Longrightarrow> j \<noteq> i \<Longrightarrow> count_list (f j) c = 0"
  shows "count_list (concat (map f [0..<n])) c = count_list (f i) c"
  using assms
proof (induction n)
  case (Suc n)
  have none: "k \<le> n \<Longrightarrow> i = n \<Longrightarrow> count_list (concat (map f [0..<k])) c = 0" for k
    using Suc.prems(2) by (induction k) (simp_all add: count_list_append)
  show ?case
  proof (cases "i = n")
    case True
    with none [of n] show ?thesis by (simp add: count_list_append)
  next
    case False
    with Suc have "count_list (concat (map f [0..<n])) c = count_list (f i) c" by simp
    moreover have "count_list (f n) c = 0" using Suc.prems(2) [of n] False by simp
    ultimately show ?thesis by (simp add: count_list_append)
  qed
qed simp

text \<open>
  \<open>owns_callback w i p t c\<close>: slot \<open>i\<close> holds the timer \<open>p\<close> whose callback \<open>c\<close> no other
  registered timer uses.
\<close>

definition owns_callback :: "'z timer_sys_scheme \<Rightarrow> nat \<Rightarrow> ptr \<Rightarrow> timer \<Rightarrow> ptr \<Rightarrow> bool" where
  "owns_callback w i p t c \<longleftrightarrow> i < kMaxTimers \<and> timer_slots (tmgr w) ! i = Some p \<and>
     timers w p = Some t \<and> t_callback t = Some c \<and>
     (\<forall>j<kMaxTimers. j \<noteq> i \<longrightarrow> (\<forall>q u. timer_slots (tmgr w) ! j = Some q \<longrightarrow> timers w q = Some u \<longrightarrow>
        t_callback u \<noteq> Some c))"

lemma owns_callback_advance:
  assumes "owns_callback w i p t c" and "wf_tmgr (tmgr w)"
    and "timers w' = advance_all d w" and "tmgr w' = tmgr w"
  shows "owns_callback w' i p (timer_advance d t) c"
proof -
  have "registered w p" using assms(1,2) by (auto simp: owns_callback_def registered_iff)
  then show ?thesis
    using assms by (auto simp: owns_callback_def advance_all_def split: if_splits)
qed

lemma fired_slot_other:
  assumes "owns_callback w i p t c" and "j < kMaxTimers" and "j \<noteq> i"
  shows "count_list (fired_slot d w j) c = 0"
proof (cases "timer_slots (tmgr w) ! j")
  case slot: (Some q)
  show ?thesis
  proof (cases "timers w q")
    case timer: (Some u)
    then have ne: "t_callback u \<noteq> Some c"
      using assms slot by (simp add: owns_callback_def)
    show ?thesis
      unfolding fired_slot_simps(2) [OF slot timer] using ne by (cases "timer_fires d u"; cases "t_callback u") simp_all
  qed (simp add: fired_slot_def slot)
qed (simp add: fired_slot_def)

lemma fired_slot_own:
  assumes "owns_callback w i p t c"
  shows "count_list (fired_slot d w i) c = (if timer_fires d t then 1 else 0)"
proof -
  from assms have "timer_slots (tmgr w) ! i = Some p" and "timers w p = Some t"
    and c: "t_callback t = Some c" by (simp_all add: owns_callback_def)
  then show ?thesis by (cases "timer_fires d t") (simp_all add: fired_slot_def)
qed

lemma count_fired:
  assumes "owns_callback w i p t c"
  shows "count_list (fired d w) c = (if timer_fires d t then 1 else 0)"
proof -
  have "count_list (fired d w) c = count_list (fired_slot d w i) c"
    unfolding fired_def using assms by (intro count_list_single fired_slot_other) (auto simp: owns_callback_def)
  then show ?thesis using fired_slot_own [OF assms] by simp
qed

lemma takts_count:
  assumes "safe_timers w" and "owns_callback w i p t c"
  shows "\<exists>w'. takts log_call ds w = Some w' \<and>
    count_list (timer_sys.more w') c = count_list (timer_sys.more w) c + firings ds t"
  using assms
proof (induction ds arbitrary: w t)
  case (Cons d ds)
  obtain w1 where w1: "tmgr_tick log_call d w = Some w1" "tmgr w1 = tmgr w" "safe_timers w1"
      "timers w1 = advance_all d w"
    using quiet_log_call Cons.prems(1) by (rule quiet_tmgr_tick)
  have log: "timer_sys.more w1 = timer_sys.more w @ fired d w"
    using Cons.prems(1) w1(1) by (rule log_tmgr_tick)
  have "wf_tmgr (tmgr w)" using Cons.prems(1) by (simp add: safe_timers_def)
  then have own: "owns_callback w1 i p (timer_advance d t) c"
    using w1(4,2) by (rule owns_callback_advance [OF Cons.prems(2)])
  show ?case
    using count_fired [OF Cons.prems(2)] Cons.IH [OF w1(3) own] w1(1) log by (auto simp: takts_def count_list_append)
qed (simp add: takts_def)

section \<open>How often a timer fires\<close>

text \<open>The number of takts of length \<open>d\<close> after which a timer of interval \<open>interval\<close> fires.\<close>

definition period :: "u32 \<Rightarrow> u32 \<Rightarrow> nat" where
  "period interval d = max 1 ((unat interval + unat d - 1) div unat d)"

lemma period_bounds:
  assumes "0 < unat d"
  shows "unat interval \<le> period interval d * unat d"
    and "k + 1 < period interval d \<Longrightarrow> k * unat d + unat d < unat interval"
proof -
  let ?I = "unat interval" and ?d = "unat d"
  let ?q = "(?I + ?d - 1) div ?d"
  have mod: "?q * ?d + (?I + ?d - 1) mod ?d = ?I + ?d - 1" by (rule div_mult_mod_eq)
  have lt: "(?I + ?d - 1) mod ?d < ?d" using assms by simp
  have "?I \<le> ?q * ?d" using mod lt assms by linarith
  also have "\<dots> \<le> period interval d * ?d" by (intro mult_le_mono1) (simp add: period_def)
  finally show "?I \<le> period interval d * ?d" .
  assume "k + 1 < period interval d"
  then have "k + 2 \<le> ?q" by (simp add: period_def)
  then have "(k + 2) * ?d \<le> ?q * ?d" by (rule mult_le_mono1)
  also have "\<dots> \<le> ?I + ?d - 1" using mod by linarith
  finally show "k * ?d + ?d < ?I" using assms by (simp add: algebra_simps)
qed

lemma fires_at_period:
  assumes "0 < unat d" and "unat interval + unat d < 2 ^ 32" and "k < period interval d"
    and "t_active t" and "intervalMs t = interval" and "elapsedMs t = of_nat (k * unat d)"
  shows "timer_fires d t \<longleftrightarrow> k + 1 = period interval d"
    and "k + 1 \<noteq> period interval d \<Longrightarrow> elapsedMs t + d = of_nat ((k + 1) * unat d)"
proof -
  have small: "k * unat d < unat interval \<or> k = 0"
    using period_bounds(2) [OF assms(1), of "k - 1" interval] assms(3) by (cases k) auto
  then have lt: "k * unat d + unat d < 2 ^ 32" using assms(2) by auto
  have sum: "elapsedMs t + d = of_nat (k * unat d + unat d)" using assms(6) by simp
  have el: "unat (elapsedMs t + d) = k * unat d + unat d"
    unfolding sum unat_of_nat using lt by simp
  have le: "unat interval \<le> k * unat d + unat d \<longleftrightarrow> k + 1 = period interval d"
    using period_bounds(2) [OF assms(1), of k interval] period_bounds(1) [OF assms(1), of interval] assms(3)
    by (metis Suc_eq_plus1 Suc_leI add.commute le_neq_implies_less mult_Suc not_le)
  show "timer_fires d t \<longleftrightarrow> k + 1 = period interval d"
    using assms(4,5) el le by (simp add: timer_fires_def word_le_nat_alt)
  show "elapsedMs t + d = of_nat ((k + 1) * unat d)"
    unfolding sum by (simp add: algebra_simps)
qed

lemma firings_repeating:
  assumes "0 < unat d" and "unat interval + unat d < 2 ^ 32" and "k < period interval d"
    and "t_active t" and "t_repeat t" and "intervalMs t = interval" and "elapsedMs t = of_nat (k * unat d)"
  shows "firings (replicate n d) t = (k + n) div period interval d"
  using assms(3,4,5,6,7)
proof (induction n arbitrary: t k)
  case (Suc n)
  note f = fires_at_period [OF assms(1,2) Suc.prems(1,2,4,5)]
  show ?case
  proof (cases "k + 1 = period interval d")
    case True
    then have fires: "timer_fires d t" using f by simp
    have "firings (replicate n d) (timer_advance d t) = (0 + n) div period interval d"
      using fires Suc.prems True by (intro Suc.IH) (auto simp: timer_advance_def)
    moreover have "(k + Suc n) div period interval d = 1 + n div period interval d"
    proof -
      have "k + Suc n = period interval d + n" using True by simp
      then show ?thesis using Suc.prems(1) by (simp only: div_add_self1)
    qed
    ultimately show ?thesis using fires by simp
  next
    case False
    then have quiet: "\<not> timer_fires d t" using f by simp
    have "firings (replicate n d) (timer_advance d t) = (k + 1 + n) div period interval d"
      using quiet Suc.prems False f(2) by (intro Suc.IH) (auto simp: timer_advance_def)
    then show ?thesis using quiet by simp
  qed
qed simp

lemma firings_inactive [simp]: "\<not> t_active t \<Longrightarrow> firings ds t = 0"
  by (induction ds) (simp_all add: timer_fires_def timer_advance_def)

lemma firings_one_shot:
  assumes "0 < unat d" and "unat interval + unat d < 2 ^ 32" and "k < period interval d"
    and "t_active t" and "\<not> t_repeat t" and "intervalMs t = interval" and "elapsedMs t = of_nat (k * unat d)"
  shows "firings (replicate n d) t = (if period interval d \<le> k + n then 1 else 0)"
  using assms(3,4,5,6,7)
proof (induction n arbitrary: t k)
  case (Suc n)
  note f = fires_at_period [OF assms(1,2) Suc.prems(1,2,4,5)]
  show ?case
  proof (cases "k + 1 = period interval d")
    case True
    then have "timer_fires d t" using f by simp
    then show ?thesis using True Suc.prems by (simp add: timer_advance_def)
  next
    case False
    then have quiet: "\<not> timer_fires d t" using f by simp
    have "firings (replicate n d) (timer_advance d t) = (if period interval d \<le> k + 1 + n then 1 else 0)"
      using quiet Suc.prems False f(2) by (intro Suc.IH) (auto simp: timer_advance_def)
    then show ?thesis using quiet by simp
  qed
qed simp

text \<open>A counter that only takes even values never reaches an odd limit at the top of the range.\<close>

lemma firings_top_interval:
  assumes "even (unat d)" and "t_active t" and "intervalMs t = 0xFFFFFFFF" and "even (unat (elapsedMs t))"
  shows "firings (replicate n d) t = 0"
  using assms(2-4)
proof (induction n arbitrary: t)
  case (Suc n)
  have "even (unat (elapsedMs t + d))"
    using assms(1) Suc.prems(3) by (simp add: unat_word_ariths dvd_mod_iff)
  moreover from this have "unat (elapsedMs t + d) \<noteq> 0xFFFFFFFF" by (metis odd_numeral)
  then have "\<not> timer_fires d t"
    using Suc.prems(2) unsigned_less [of "elapsedMs t + d", where 'a = nat]
    by (simp add: timer_fires_def word_le_nat_alt)
  ultimately show ?case using Suc by (simp add: timer_advance_def)
qed simp


section \<open>Pointers to timers that no longer exist\<close>

lemma quiet_timer_tick_frame:
  assumes "quiet_callbacks tcbs" and "timer_tick tcbs d p w = Some w'"
  shows "tmgr w' = tmgr w \<and> (\<forall>q. timers w q = None \<longrightarrow> timers w' q = None)"
proof -
  have "timers w p \<noteq> None" using assms(2) by (auto simp: timer_tick_def split: option.splits)
  then obtain t where t: "timers w p = Some t" by blast
  with assms(1) obtain w1 where "timer_tick tcbs d p w = Some w1"
    "timers w1 = (timers w)(p \<mapsto> timer_advance d t)" "tmgr w1 = tmgr w"
    by (rule quiet_timer_tick)
  with assms(2) t show ?thesis by auto
qed

lemma quiet_slots_frame:
  assumes "quiet_callbacks tcbs" and "mfold (tmgr_tick_slot tcbs d) xs w = Some w'"
  shows "tmgr w' = tmgr w \<and> (\<forall>q. timers w q = None \<longrightarrow> timers w' q = None)"
  using assms(2)
proof (induction xs arbitrary: w)
  case (Cons i xs)
  from Cons.prems obtain w1 where w1: "tmgr_tick_slot tcbs d i w = Some w1"
    and w': "mfold (tmgr_tick_slot tcbs d) xs w1 = Some w'" by (auto split: bind_splits)
  have "tmgr w1 = tmgr w \<and> (\<forall>q. timers w q = None \<longrightarrow> timers w1 q = None)"
  proof (cases "timer_slots (tmgr w) ! i")
    case (Some p)
    with w1 have "timer_tick tcbs d p w = Some w1" by (simp add: tick_slot_simps)
    with assms(1) show ?thesis by (rule quiet_timer_tick_frame)
  qed (use w1 in \<open>simp add: tick_slot_simps\<close>)
  with Cons.IH [OF w'] show ?case by simp
qed simp

lemma dangling_slot_undefined:
  assumes "quiet_callbacks tcbs" and "i < kMaxTimers"
    and "timer_slots (tmgr w) ! i = Some p" and "timers w p = None"
  shows "tmgr_tick tcbs d w = None"
proof (rule ccontr)
  have split: "[0..<kMaxTimers] = [0..<i] @ i # [Suc i..<kMaxTimers]"
    using assms(2) by (rule upt_split_at)
  assume "tmgr_tick tcbs d w \<noteq> None"
  then obtain w1 w2 where w1: "mfold (tmgr_tick_slot tcbs d) [0..<i] w = Some w1"
    and w2: "tmgr_tick_slot tcbs d i w1 = Some w2"
    unfolding tmgr_tick_def split mfold_append by (auto split: bind_splits)
  have "tmgr w1 = tmgr w" and "timers w1 p = None"
    using quiet_slots_frame [OF assms(1) w1] assms(4) by auto
  with w2 assms(3) show False by (simp add: tick_slot_simps timer_tick_def)
qed

text \<open>What callbacks and an update of the store preserve, a tick preserves.\<close>

lemma timer_tick_inv:
  assumes cb: "\<And>c w. I w \<Longrightarrow> I (tcbs c w)" and upd: "\<And>w ts. I w \<Longrightarrow> I (w\<lparr>timers := ts\<rparr>)"
    and "timer_tick tcbs d p w = Some w'" and "I w"
  shows "I w'"
  using assms(3,4)
  by (auto simp: timer_tick_def with_timer_def Let_def intro!: upd cb split: option.splits if_splits)

lemma mfold_some_inv:
  assumes "\<And>x w w'. f x w = Some w' \<Longrightarrow> I w \<Longrightarrow> I w'" and "mfold f xs w = Some w'" and "I w"
  shows "I w'"
  using assms(2,3)
proof (induction xs arbitrary: w)
  case (Cons x xs)
  then show ?case by (auto split: bind_splits dest: assms(1))
qed simp

lemma tmgr_tick_inv:
  assumes cb: "\<And>c w. I w \<Longrightarrow> I (tcbs c w)" and upd: "\<And>w ts. I w \<Longrightarrow> I (w\<lparr>timers := ts\<rparr>)"
    and "tmgr_tick tcbs d w = Some w'" and "I w"
  shows "I w'"
proof (rule mfold_some_inv [where I = I])
  show "mfold (tmgr_tick_slot tcbs d) [0..<kMaxTimers] w = Some w'"
    using assms(3) by (simp add: tmgr_tick_def)
  show "I v'" if "tmgr_tick_slot tcbs d i v = Some v'" "I v" for i v v'
    using that timer_tick_inv [of I tcbs d _ v v'] cb upd
    by (auto simp: tmgr_tick_slot_def split: option.splits)
qed (rule assms(4))


section \<open>Properties\<close>

text \<open>A system with one registered, started, repeating timer of 25 ms in slot 0.\<close>

definition demo_slots :: "ptr option list" where
  "demo_slots = Some 100 # replicate 31 None"

definition demo_sys :: "ptr list timer_sys_scheme" where
  "demo_sys = \<lparr>bus = new_event_bus,
     timers = [100 \<mapsto> \<lparr>t_handle = 0, intervalMs = 25, elapsedMs = 0, t_active = True,
                       t_repeat = True, t_callback = Some 1\<rparr>],
     tmgr = \<lparr>timer_slots = demo_slots, activeCount = 1\<rparr>, \<dots> = []\<rparr>"

lemma demo_sys_simps [simp]:
  "tmgr demo_sys = \<lparr>timer_slots = demo_slots, activeCount = 1\<rparr>"
  "timers demo_sys p = (if p = 100 then Some \<lparr>t_handle = 0, intervalMs = 25, elapsedMs = 0,
     t_active = True, t_repeat = True, t_callback = Some 1\<rparr> else None)"
  "timer_sys.more demo_sys = []"
  by (simp_all add: demo_sys_def)

lemma demo_slot: "i < kMaxTimers \<Longrightarrow> demo_slots ! i = (if i = 0 then Some 100 else None)"
  by (cases i) (simp_all add: kMaxTimers_def demo_slots_def)

lemma demo_slot_0 [simp]: "demo_slots ! 0 = Some 100"
  by (simp add: demo_slots_def)

lemma careful_log_call: "careful_callbacks log_call"
  by (simp add: careful_callbacks_def log_call_def safe_timers_def)

lemma timer_destroy_defined: "timers w p \<noteq> None \<Longrightarrow> \<exists>w'. timer_destroy p w = Some w'"
  by (auto simp: timer_destroy_def unregisterTimer_def Let_def)

lemma wf_demo: "wf_tmgr \<lparr>timer_slots = demo_slots, activeCount = Suc 0\<rparr>"
  by (simp add: wf_tmgr_def demo_slots_def kMaxTimers_def)

lemma safe_demo: "safe_timers demo_sys"
  by (simp add: safe_timers_def wf_demo demo_slot)

lemma registered_demo: "registered demo_sys 100"
  by (simp add: registered_def demo_slots_def)

lemma destroyed_not_registered:
  assumes "safe_timers w" and "timer_destroy p w = Some w'"
  shows "\<not> registered w' p"
proof
  assume r: "registered w' p"
  have safe: "safe_timers w'" using assms by (rule safe_timer_destroy)
  with r obtain i where "i < kMaxTimers" "timer_slots (tmgr w') ! i = Some p"
    by (auto simp: registered_iff safe_timers_def)
  with safe have "timers w' p \<noteq> None" by (metis option.distinct(1) registered_handle)
  with assms(2) show False by (auto simp: timer_destroy_def)
qed

text \<open>The operations of a timer object \<open>p\<close>; those that move take the fields of the timer \<open>q\<close>.\<close>

datatype timer_op = Construct u32 bool | Destroy | SetInterval u32 | SetRepeat bool | Start | Stop | Reset
  | OnTimeout ptr | MoveConstruct ptr | MoveAssign ptr

fun run_timer_op :: "timer_op \<Rightarrow> ptr \<Rightarrow> 'z timer_sys_scheme \<Rightarrow> 'z timer_sys_scheme option" where
  "run_timer_op (Construct interval rep) p w = Some (timer_construct interval rep p w)"
| "run_timer_op Destroy p w = timer_destroy p w"
| "run_timer_op (SetInterval interval) p w = timer_setInterval interval p w"
| "run_timer_op (SetRepeat rep) p w = timer_setRepeat rep p w"
| "run_timer_op Start p w = timer_start p w"
| "run_timer_op Stop p w = timer_stop p w"
| "run_timer_op Reset p w = timer_reset p w"
| "run_timer_op (OnTimeout c) p w = timer_onTimeout c p w"
| "run_timer_op (MoveConstruct q) p w = timer_move_construct p q w"
| "run_timer_op (MoveAssign q) p w = timer_move_assign p q w"

text \<open>A constructor runs on memory without a timer, everything else on timers that live.\<close>

fun usable :: "timer_op \<Rightarrow> ptr \<Rightarrow> 'z timer_sys_scheme \<Rightarrow> bool" where
  "usable (Construct interval rep) p w \<longleftrightarrow> timers w p = None"
| "usable (MoveConstruct q) p w \<longleftrightarrow> timers w p = None \<and> timers w q \<noteq> None"
| "usable (MoveAssign q) p w \<longleftrightarrow> timers w p \<noteq> None \<and> timers w q \<noteq> None"
| "usable _ p w \<longleftrightarrow> timers w p \<noteq> None"

text \<open>What breaks the discipline: a second \<open>onTimeout\<close>, unless the pool is full, and moving from a registered timer.\<close>

fun keeps_discipline :: "timer_op \<Rightarrow> ptr \<Rightarrow> 'z timer_sys_scheme \<Rightarrow> bool" where
  "keeps_discipline (OnTimeout c) p w \<longleftrightarrow> \<not> registered w p \<or> activeCount (tmgr w) = kMaxTimers"
| "keeps_discipline (MoveConstruct q) p w \<longleftrightarrow> \<not> registered w q"
| "keeps_discipline (MoveAssign q) p w \<longleftrightarrow> q = p \<or> \<not> registered w q"
| "keeps_discipline _ p w \<longleftrightarrow> True"

lemma unsafe_slot:
  assumes "i < kMaxTimers" and "timer_slots (tmgr w) ! i = Some p" and "timers w p = Some t" and "unat (t_handle t) \<noteq> i"
  shows "\<not> safe_timers w"
  using assms by (auto simp: safe_timers_def)

lemma registered_slot:
  assumes "safe_timers w" and "registered w p"
  obtains i where "i < kMaxTimers" and "timer_slots (tmgr w) ! i = Some p"
  using assms by (auto simp: registered_iff safe_timers_def)

lemma onTimeout_discipline:
  assumes "safe_timers w" and "timers w p = Some t"
  shows "\<exists>w'. timer_onTimeout c p w = Some w' \<and> (safe_timers w' \<longleftrightarrow> \<not> registered w p \<or> activeCount (tmgr w) = kMaxTimers)"
proof -
  let ?t = "t\<lparr>t_callback := Some c\<rparr>"
  let ?w = "w\<lparr>timers := (timers w)(p \<mapsto> ?t)\<rparr>"
  have s: "safe_timers ?w" using assms by (rule safe_timer_update) simp
  have len: "length (timer_slots (tmgr w)) = kMaxTimers" and count: "activeCount (tmgr w) = length (filter (\<lambda>s. s \<noteq> None) (timer_slots (tmgr w)))"
    using assms(1) by (simp_all add: safe_timers_def wf_tmgr_def)
  have o: "timer_onTimeout c p w = map_option snd (registerTimer p ?w)" using assms(2) by (simp add: timer_onTimeout_def with_timer_def)
  have le: "activeCount (tmgr w) \<le> kMaxTimers" using length_filter_le [of "\<lambda>s. s \<noteq> None" "timer_slots (tmgr w)"] by (simp add: count len)
  show ?thesis
  proof (cases "activeCount (tmgr w) = kMaxTimers")
    case True
    then show ?thesis using s by (simp add: o registerTimer_def)
  next
    case False
    then obtain j where j: "find_index (\<lambda>s. s = None) (timer_slots (tmgr w)) = Some j"
      using count_full [of "\<lambda>s. s \<noteq> None" "timer_slots (tmgr w)"] le by (auto simp: count len)
    then have jl: "j < kMaxTimers" "timer_slots (tmgr w) ! j = None" using len by (auto simp: find_index_Some)
    let ?w' = "?w\<lparr>tmgr := \<lparr>timer_slots = (timer_slots (tmgr w))[j := Some p], activeCount = activeCount (tmgr w) + 1\<rparr>,
      timers := (timers w)(p \<mapsto> ?t\<lparr>t_handle := of_nat j\<rparr>)\<rparr>"
    have r: "registerTimer p ?w = Some (True, ?w')" using False le j by (simp add: registerTimer_def)
    have "safe_timers ?w' \<longleftrightarrow> \<not> registered w p"
    proof (cases "registered w p")
      case True
      then obtain i where "i < kMaxTimers" "timer_slots (tmgr w) ! i = Some p" using assms(1) by (rule_tac registered_slot)
      moreover from this have "i \<noteq> j" using jl(2) by auto
      ultimately have "\<not> safe_timers ?w'" using jl(1) len
        by (intro unsafe_slot [of i _ p "?t\<lparr>t_handle := of_nat j\<rparr>"]) (simp_all add: unat_slot)
      with True show ?thesis by simp
    next
      case False
      then have "timer_slots (tmgr w) ! i \<noteq> Some p" if "i < kMaxTimers" for i using that assms(1) registered_iff by (auto simp: safe_timers_def)
      moreover have "wf_tmgr (tmgr ?w')" using wf_registerTimer [OF _ r] assms(1) by (simp add: safe_timers_def)
      ultimately show ?thesis using False assms(1) jl len by (auto simp: safe_timers_def nth_list_update unat_slot)
    qed
    then show ?thesis using \<open>activeCount (tmgr w) \<noteq> kMaxTimers\<close> by (simp add: o r)
  qed
qed

lemma move_discipline:
  assumes "safe_timers w" and "timers w q = Some t" and "\<not> registered w p" and "p \<noteq> q"
  shows "\<exists>w'. timer_move_construct p q w = Some w' \<and> (safe_timers w' \<longleftrightarrow> \<not> registered w q)"
proof -
  let ?w' = "w\<lparr>timers := (timers w)(p \<mapsto> t, q \<mapsto> t\<lparr>t_handle := no_handle, t_callback := None\<rparr>)\<rparr>"
  have p: "timer_slots (tmgr w) ! i \<noteq> Some p" if "i < kMaxTimers" for i
    using that assms(1,3) registered_iff by (auto simp: safe_timers_def)
  have "safe_timers ?w' \<longleftrightarrow> \<not> registered w q"
  proof (cases "registered w q")
    case True
    then obtain i where "i < kMaxTimers" "timer_slots (tmgr w) ! i = Some q" using assms(1) by (rule_tac registered_slot)
    then have "\<not> safe_timers ?w'" using unat_no_handle by (intro unsafe_slot [of i]) auto
    with True show ?thesis by simp
  next
    case False
    then have "timer_slots (tmgr w) ! i \<noteq> Some q" if "i < kMaxTimers" for i using that assms(1) registered_iff by (auto simp: safe_timers_def)
    then show ?thesis using False assms(1) p by (auto simp: safe_timers_def)
  qed
  then show ?thesis using assms(2) by (simp add: timer_move_construct_def)
qed

lemma unregister_facts:
  assumes "safe_timers w" and "timers w p = Some t"
  shows "\<exists>w1. unregisterTimer p w = Some w1 \<and> safe_timers w1 \<and> \<not> registered w1 p \<and>
    (q \<noteq> p \<longrightarrow> timers w1 q = timers w q \<and> (registered w1 q \<longleftrightarrow> registered w q))"
proof -
  obtain w1 where w1: "unregisterTimer p w = Some w1" using assms(2) by (cases "unregisterTimer p w") (auto simp: unregisterTimer_def Let_def split: if_splits)
  have s: "safe_timers w1" using assms(1) w1 by (rule safe_unregisterTimer)
  have len: "length (timer_slots (tmgr w)) = kMaxTimers" using assms(1) by (simp add: safe_timers_def wf_tmgr_def)
  let ?h = "unat (t_handle t)"
  have at: "i = ?h" if "i < kMaxTimers" "timer_slots (tmgr w) ! i = Some p" for i
    using assms that by (auto simp: safe_timers_def)
  have slots: "timer_slots (tmgr w1) ! i = (if timer_slots (tmgr w) ! i = Some p then None else timer_slots (tmgr w) ! i)" if "i < kMaxTimers" for i
    using w1 assms(2) at [OF that] that len by (auto simp: unregisterTimer_def Let_def nth_list_update split: if_splits)
  have reg: "registered v r \<longleftrightarrow> (\<exists>i<kMaxTimers. timer_slots (tmgr v) ! i = Some r)" if "safe_timers v" for v :: "'a timer_sys_scheme" and r
    using that registered_iff by (auto simp: safe_timers_def)
  have "\<not> registered w1 p" "q \<noteq> p \<longrightarrow> (registered w1 q \<longleftrightarrow> registered w q)"
    using slots by (auto simp: reg [OF s] reg [OF assms(1)] split: if_splits)
  moreover have "q \<noteq> p \<longrightarrow> timers w1 q = timers w q"
    using w1 assms(2) by (auto simp: unregisterTimer_def Let_def split: if_splits)
  ultimately show ?thesis using w1 s by blast
qed

text \<open>
  C24: the discipline "every slot of the pool holds a live timer that knows its slot" under the operations of a timer,
  moves included: each of them is defined on live timers, and keeps the discipline except in exactly two cases. These are
  \<open>onTimeout\<close> on a timer that is registered already, while the pool has room, and a move from a registered
  timer. The destructor takes the timer out of the pool.
\<close>

theorem timer_operations_keep_registry_safe:
  assumes "safe_timers w" and "usable op p w"
  shows "\<exists>w'. run_timer_op op p w = Some w' \<and> (safe_timers w' \<longleftrightarrow> keeps_discipline op p w) \<and>
    (op = Destroy \<longrightarrow> \<not> registered w' p)"
proof -
  have field: "\<exists>w'. with_timer f p w = Some w' \<and> safe_timers w'" if live: "timers w p \<noteq> None" and same: "\<And>t. t_handle (f t) = t_handle t" for f
  proof -
    obtain w' where "with_timer f p w = Some w'" using live by (auto simp: with_timer_def)
    with safe_with_timer [OF assms(1) this same] show ?thesis by simp
  qed
  have absent: "\<not> registered w p" if "timers w p = None"
    using that registered_slot [OF assms(1), of p] assms(1) by (metis option.distinct(1) registered_handle)
  show ?thesis
  proof (cases op)
    case Destroy
    then show ?thesis
      using assms timer_destroy_defined [of w p] safe_timer_destroy [OF assms(1)] destroyed_not_registered [OF assms(1)] by auto
  next
    case (OnTimeout c)
    then show ?thesis using assms onTimeout_discipline [OF assms(1), of p _ c] by auto
  next
    case (MoveConstruct q)
    then have "p \<noteq> q" "timers w p = None" "timers w q \<noteq> None" using assms(2) by auto
    then show ?thesis using MoveConstruct move_discipline [OF assms(1), of q _ p] absent by auto
  next
    case (MoveAssign q)
    show ?thesis
    proof (cases "q = p")
      case True
      then show ?thesis using MoveAssign assms(1) by (simp add: timer_move_assign_def)
    next
      case False
      obtain t u where t: "timers w p = Some t" "timers w q = Some u" using MoveAssign assms(2) by auto
      obtain w1 where w1: "unregisterTimer p w = Some w1" "safe_timers w1" "\<not> registered w1 p" "timers w1 q = Some u"
        "registered w1 q \<longleftrightarrow> registered w q"
        using unregister_facts [OF assms(1) t(1), of q] False t(2) by auto
      then show ?thesis using move_discipline [OF w1(2,4,3)] False MoveAssign by (auto simp: timer_move_assign_def)
    qed
  qed (use assms field safe_timer_construct [OF assms(1)] in
      \<open>auto simp: timer_setInterval_def timer_setRepeat_def timer_start_def timer_stop_def timer_reset_def\<close>)
qed

theorem timer_operations_keep_registry_safe_witness:
  "(\<exists>w'. run_timer_op Destroy 100 demo_sys = Some w' \<and> safe_timers w' \<and> \<not> registered w' 100) \<and>
   (\<exists>w'. run_timer_op (MoveConstruct 100) 200 demo_sys = Some w' \<and> \<not> safe_timers w')"
  using timer_operations_keep_registry_safe [OF safe_demo, of Destroy 100]
    timer_operations_keep_registry_safe [OF safe_demo, of "MoveConstruct 100" 200] registered_demo by simp

text \<open>
  under that discipline a tick of the manager is always defined and keeps it, whatever
  the callbacks do (register, start, stop or destroy other timers, use the event bus) as long
  as they keep the discipline themselves and do not destroy the timer that is firing.
\<close>

theorem tick_of_careful_callbacks_is_defined:
  assumes "careful_callbacks tcbs" and "safe_timers w"
  shows "\<exists>w'. tmgr_tick tcbs d w = Some w' \<and> safe_timers w'"
  unfolding tmgr_tick_def using assms by (rule safe_tick_slots)

theorem tick_of_careful_callbacks_is_defined_witness:
  "\<exists>w'. tmgr_tick log_call 10 demo_sys = Some w' \<and> safe_timers w'"
  using careful_log_call safe_demo by (rule tick_of_careful_callbacks_is_defined)

text \<open>
  C25: when callbacks leave timers alone, a tick advances every registered timer exactly once
  by the time step, touches no other timer, and calls the callbacks of exactly the timers
  that reached their interval, in slot order.
\<close>

theorem tick_advances_each_timer_once:
  assumes "safe_timers w"
  shows "\<exists>w'. tmgr_tick log_call d w = Some w' \<and>
    (\<forall>p. timers w' p = (if registered w p then map_option (timer_advance d) (timers w p) else timers w p)) \<and>
    timer_sys.more w' = timer_sys.more w @ concat (map (fired_slot d w) [0..<kMaxTimers])"
  using quiet_tmgr_tick [OF quiet_log_call assms, of d] log_tmgr_tick [OF assms, of d]
  by (metis advance_all_def fired_def)

theorem tick_advances_each_timer_once_witness:
  "\<exists>w'. tmgr_tick log_call 30 demo_sys = Some w' \<and> timer_sys.more w' = [1]"
proof -
  have "concat (map (fired_slot 30 demo_sys) [0..<kMaxTimers]) = [1]"
    by (simp add: upt_rec kMaxTimers_def fired_slot_def timer_fires_def demo_slots_def nth_Cons')
  then show ?thesis using tick_advances_each_timer_once [OF safe_demo, of 30] by auto
qed

text \<open>
  C6: a started timer of interval \<open>interval\<close> in a takt of \<open>d\<close> milliseconds fires on every
  \<open>max 1 \<lceil>interval / d\<rceil>\<close>-th takt when it repeats, and exactly once, at that takt, when it is a
  one-shot, independently of all other registered timers, provided \<open>interval + d\<close> does not
  exceed the 32-bit range.
\<close>

theorem timer_fires_every_period:
  assumes "safe_timers w" and "owns_callback w i p t c" and "t_active t" and "elapsedMs t = 0"
    and "intervalMs t = interval" and "0 < unat d" and "unat interval + unat d < 2 ^ 32"
  shows "\<exists>w'. takts log_call (replicate n d) w = Some w' \<and>
    count_list (timer_sys.more w') c = count_list (timer_sys.more w) c +
      (if t_repeat t then n div period interval d else if period interval d \<le> n then 1 else 0)"
proof -
  have pos: "0 < period interval d" by (simp add: period_def)
  have "firings (replicate n d) t =
      (if t_repeat t then n div period interval d else if period interval d \<le> n then 1 else 0)"
    using firings_repeating [OF assms(6,7) pos assms(3) _ assms(5), of n]
      firings_one_shot [OF assms(6,7) pos assms(3) _ assms(5), of n] assms(4) by simp
  then show ?thesis using takts_count [OF assms(1,2), of "replicate n d"] by simp
qed

theorem timer_fires_every_period_witness:
  "\<exists>w'. takts log_call (replicate 7 10) demo_sys = Some w' \<and> count_list (timer_sys.more w') 1 = 2"
proof -
  let ?t = "\<lparr>t_handle = 0, intervalMs = 25, elapsedMs = 0, t_active = True, t_repeat = True,
     t_callback = Some 1\<rparr>"
  have "owns_callback demo_sys 0 100 ?t 1"
    by (auto simp: owns_callback_def demo_slot) (simp add: kMaxTimers_def)
  from timer_fires_every_period [OF safe_demo this, of 25 10 7] show ?thesis by (simp add: period_def) (simp add: numeral_2_eq_2)
qed

text \<open>
  near the end of the range the elapsed counter wraps past the interval: with an even
  takt a timer of interval 0xFFFFFFFF never fires, however many takts pass.
\<close>

theorem top_interval_never_fires:
  assumes "safe_timers w" and "owns_callback w i p t c" and "t_active t" and "elapsedMs t = 0"
    and "intervalMs t = 0xFFFFFFFF" and "even (unat d)"
  shows "\<exists>w'. takts log_call (replicate n d) w = Some w' \<and>
    count_list (timer_sys.more w') c = count_list (timer_sys.more w) c"
  using takts_count [OF assms(1,2), of "replicate n d"] firings_top_interval [OF assms(6,3,5)] assms(4)
  by simp

definition top_sys :: "ptr list timer_sys_scheme" where
  "top_sys = demo_sys\<lparr>timers := [100 \<mapsto> \<lparr>t_handle = 0, intervalMs = 0xFFFFFFFF, elapsedMs = 0,
     t_active = True, t_repeat = True, t_callback = Some 1\<rparr>]\<rparr>"

theorem top_interval_never_fires_witness:
  "\<exists>w'. takts log_call (replicate 1000000000 10) top_sys = Some w' \<and> count_list (timer_sys.more w') 1 = 0"
proof -
  let ?t = "\<lparr>t_handle = 0, intervalMs = 0xFFFFFFFF, elapsedMs = 0, t_active = True, t_repeat = True,
     t_callback = Some 1\<rparr>"
  have "owns_callback top_sys 0 100 ?t 1"
    by (auto simp: owns_callback_def demo_slot top_sys_def) (simp add: kMaxTimers_def)
  moreover have "safe_timers top_sys"
    by (simp add: safe_timers_def wf_demo demo_slot top_sys_def)
  ultimately show ?thesis
    using top_interval_never_fires [of top_sys 0 100 ?t 1 10 1000000000] by (simp add: top_sys_def)
qed

text \<open>
  the move constructor does not tell the manager the new address. After a registered
  timer is moved from and destroyed, the pool still holds the old pointer and the next tick
  uses a destroyed object.
\<close>

theorem moved_timer_dangles:
  assumes "quiet_callbacks tcbs" and "safe_timers w" and "registered w p" and "q \<noteq> p"
    and "timer_move_construct q p w = Some w1" and "timer_destroy p w1 = Some w2"
  shows "tmgr_tick tcbs d w2 = None"
proof -
  from assms(2,3) obtain i where i: "i < kMaxTimers" "timer_slots (tmgr w) ! i = Some p"
    by (auto simp: registered_iff safe_timers_def)
  have "timers w2 p = None" and "tmgr w2 = tmgr w"
    using assms(4-6) unat_no_handle
    by (auto simp: timer_move_construct_def timer_destroy_def unregisterTimer_def)
  with i show ?thesis by (intro dangling_slot_undefined [OF assms(1), of i w2 p]) simp_all
qed

theorem moved_timer_dangles_witness:
  "\<exists>w1 w2. timer_move_construct 200 100 demo_sys = Some w1 \<and> timer_destroy 100 w1 = Some w2 \<and>
     tmgr_tick log_call 10 w2 = None"
proof -
  let ?t = "the (timers demo_sys 100)"
  let ?w1 = "demo_sys\<lparr>timers := (timers demo_sys)(200 \<mapsto> ?t, 100 \<mapsto> ?t\<lparr>t_handle := no_handle, t_callback := None\<rparr>)\<rparr>"
  have w1: "timer_move_construct 200 100 demo_sys = Some ?w1" by (simp add: timer_move_construct_def)
  have w2: "timer_destroy 100 ?w1 = Some (?w1\<lparr>timers := (timers ?w1)(100 := None)\<rparr>)"
    using unat_no_handle by (simp add: timer_destroy_def unregisterTimer_def)
  show ?thesis
    using moved_timer_dangles [OF quiet_log_call safe_demo _ _ w1 w2, of 10] w1 w2
    by (auto simp: registered_demo)
qed

lemma onTimeout_registers:
  "timers w p = Some t \<Longrightarrow> activeCount (tmgr w) < kMaxTimers \<Longrightarrow>
   find_index (\<lambda>s. s = None) (timer_slots (tmgr w)) = Some j \<Longrightarrow>
   timer_onTimeout c p w = Some (w\<lparr>tmgr := \<lparr>timer_slots = (timer_slots (tmgr w))[j := Some p],
        activeCount = activeCount (tmgr w) + 1\<rparr>,
      timers := (timers w)(p \<mapsto> t\<lparr>t_callback := Some c, t_handle := of_nat j\<rparr>)\<rparr>)"
  by (simp add: timer_onTimeout_def with_timer_def registerTimer_def)

text \<open>
  \<open>onTimeout\<close> on a timer that is registered already takes a second slot and forgets the
  first one; once that timer is destroyed the first slot dangles and the next tick uses a
  destroyed object.
\<close>

theorem second_onTimeout_dangles:
  assumes "quiet_callbacks tcbs" and "safe_timers w" and "registered w p"
    and "activeCount (tmgr w) < kMaxTimers"
    and "timer_onTimeout c p w = Some w1" and "timer_destroy p w1 = Some w2"
  shows "tmgr_tick tcbs d w2 = None"
proof -
  from assms(2,3) obtain i where i: "i < kMaxTimers" "timer_slots (tmgr w) ! i = Some p"
    by (auto simp: registered_iff safe_timers_def)
  have len: "length (timer_slots (tmgr w)) = kMaxTimers"
    using assms(2) by (simp add: safe_timers_def wf_tmgr_def)
  then obtain j where j: "find_index (\<lambda>s. s = None) (timer_slots (tmgr w)) = Some j"
    using count_full [of "\<lambda>s. s \<noteq> None" "timer_slots (tmgr w)"] assms(2,4)
    by (auto simp: safe_timers_def wf_tmgr_def)
  then have "j < kMaxTimers" and ij: "j \<noteq> i" and "unat (of_nat j :: u16) = j"
    using i len by (auto simp: find_index_Some unat_slot)
  obtain t where "timers w p = Some t" using assms(2) i by (rule registered_handle)
  from onTimeout_registers [OF this assms(4) j, of c] assms(5)
  have w1: "w1 = w\<lparr>tmgr := \<lparr>timer_slots = (timer_slots (tmgr w))[j := Some p],
        activeCount = activeCount (tmgr w) + 1\<rparr>,
      timers := (timers w)(p \<mapsto> t\<lparr>t_callback := Some c, t_handle := of_nat j\<rparr>)\<rparr>" by simp
  have "timers w2 p = None" and "timer_slots (tmgr w2) ! i = Some p"
    using assms(6) i ij len \<open>j < kMaxTimers\<close> \<open>unat (of_nat j :: u16) = j\<close>
    unfolding w1 by (auto simp: timer_destroy_def unregisterTimer_def)
  with i(1) show ?thesis by (intro dangling_slot_undefined [OF assms(1), of i w2 p])
qed

theorem second_onTimeout_dangles_witness:
  "\<exists>w1 w2. timer_onTimeout 2 100 demo_sys = Some w1 \<and> timer_destroy 100 w1 = Some w2 \<and>
     tmgr_tick log_call 10 w2 = None"
proof -
  have "find_index (\<lambda>s. s = None) (timer_slots (tmgr demo_sys)) = Some 1"
    by (simp add: demo_slots_def numeral_eq_Suc)
  from onTimeout_registers [OF _ _ this, of 100 _ 2]
  obtain w1 where w1: "timer_onTimeout 2 100 demo_sys = Some w1" and "timers w1 100 \<noteq> None"
    by (auto simp: kMaxTimers_def)
  then obtain w2 where w2: "timer_destroy 100 w1 = Some w2"
    using timer_destroy_defined by blast
  show ?thesis
    using second_onTimeout_dangles [OF quiet_log_call safe_demo _ _ w1 w2, of 10] w1 w2
    by (auto simp: registered_demo kMaxTimers_def)
qed

end
