(* ===== verification/Scheduler.thy ===== *)
theory Scheduler
  imports Timers
begin

text \<open>
  The takt scheduler: \<open>kernel/include/takt/types.hpp\<close>, \<open>kernel/include/takt/imodule.hpp\<close>,
  \<open>kernel/include/takt/scheduler.hpp\<close> and \<open>kernel/src/scheduler.cpp\<close>.

  Modules are objects of the application behind the virtual interface \<open>IModule\<close>; the record
  \<open>imodule\<close> has one field per virtual function, each a function of the whole system. What
  is behind a pointer, the clock, the watchdog and the delay of the RTOS are the fields of
  the record \<open>env\<close>, a parameter of every operation that needs it. Log output is left out.
\<close>


section \<open>State\<close>

datatype module_type = Static | Dynamic | Background

datatype module_state =
  Unregistered | Registered | Initializing | Ready | Running | Suspended | Error | Shutdown

record module_stats =
  ms_tickCount :: u64
  ms_totalUs :: u64
  ms_maxUs :: u64
  ms_lastUs :: u64
  ms_overrunCount :: u32
  ms_skipCount :: u32
  ms_state :: module_state

record module_entry =
  me_module :: "ptr option"
  me_stats :: module_stats
  me_active :: bool

record scheduler_stats =
  ss_totalTakts :: u64
  ss_totalTaktUs :: u64
  ss_maxTaktUs :: u64
  ss_lastTaktUs :: u64
  ss_overrunCount :: u32
  ss_registeredModules :: u32

record scheduler =
  modules :: "module_entry list"
  moduleCount :: nat
  sched_stats :: scheduler_stats
  taktBudgetUs :: u32
  taktPeriodMs :: u32

record sched_sys = timer_sys +
  sched :: scheduler

definition kMaxModules :: nat where
  "kMaxModules = 48"

definition kInvalidModuleId :: u16 where
  "kInvalidModuleId = 0xFFFF"

definition new_module_stats :: module_stats where
  "new_module_stats = \<lparr>ms_tickCount = 0, ms_totalUs = 0, ms_maxUs = 0, ms_lastUs = 0,
     ms_overrunCount = 0, ms_skipCount = 0, ms_state = Unregistered\<rparr>"

definition new_module_entry :: module_entry where
  "new_module_entry = \<lparr>me_module = None, me_stats = new_module_stats, me_active = False\<rparr>"

definition new_scheduler :: scheduler where
  "new_scheduler = \<lparr>modules = replicate kMaxModules new_module_entry, moduleCount = 0,
     sched_stats = \<lparr>ss_totalTakts = 0, ss_totalTaktUs = 0, ss_maxTaktUs = 0, ss_lastTaktUs = 0,
       ss_overrunCount = 0, ss_registeredModules = 0\<rparr>,
     taktBudgetUs = 0, taktPeriodMs = 1\<rparr>"

record 'w imodule =
  m_init :: "'w \<Rightarrow> bool \<times> 'w"
  m_tick :: "'w \<Rightarrow> 'w"
  m_shutdown :: "'w \<Rightarrow> 'w"
  m_type :: "'w \<Rightarrow> module_type"
  m_budgetUs :: "'w \<Rightarrow> u32"
  m_hasWork :: "'w \<Rightarrow> bool"

record 'w env =
  e_handlers :: "'w handlers"
  e_timerCallbacks :: "'w timer_callbacks"
  e_module :: "ptr \<Rightarrow> 'w imodule"
  e_nowUs :: "'w \<Rightarrow> u64 \<times> 'w"
  e_wdtReset :: "'w \<Rightarrow> 'w"
  e_delay :: "u32 \<Rightarrow> 'w \<Rightarrow> 'w"


section \<open>Registration\<close>

definition update_entry :: "nat \<Rightarrow> (module_entry \<Rightarrow> module_entry) \<Rightarrow> scheduler \<Rightarrow> scheduler" where
  "update_entry i f s = s\<lparr>modules := (modules s)[i := f (modules s ! i)]\<rparr>"

definition set_state :: "module_state \<Rightarrow> module_entry \<Rightarrow> module_entry" where
  "set_state st e = e\<lparr>me_stats := (me_stats e)\<lparr>ms_state := st\<rparr>\<rparr>"

definition on_entry ::
  "nat \<Rightarrow> (module_entry \<Rightarrow> module_entry) \<Rightarrow> 'z sched_sys_scheme \<Rightarrow> 'z sched_sys_scheme" where
  "on_entry i f w = w\<lparr>sched := update_entry i f (sched w)\<rparr>"

definition registerModule :: "ptr option \<Rightarrow> scheduler \<Rightarrow> u16 \<times> scheduler" where
  "registerModule m s =
     (case m of None \<Rightarrow> (kInvalidModuleId, s)
      | Some p \<Rightarrow>
        if kMaxModules \<le> moduleCount s then (kInvalidModuleId, s)
        else (of_nat (moduleCount s),
              (update_entry (moduleCount s)
                 (\<lambda>e. set_state Registered (e\<lparr>me_module := Some p, me_active := True\<rparr>)) s)
                \<lparr>moduleCount := moduleCount s + 1\<rparr>))"

definition unregisterModule ::
  "'z sched_sys_scheme env \<Rightarrow> u16 \<Rightarrow> 'z sched_sys_scheme \<Rightarrow> 'z sched_sys_scheme" where
  "unregisterModule env mid w =
     (let i = unat mid in
      if moduleCount (sched w) \<le> i then w
      else let w1 = (case me_module (modules (sched w) ! i) of
                       Some p \<Rightarrow> m_shutdown (e_module env p) w | None \<Rightarrow> w)
           in on_entry i (\<lambda>e. set_state Shutdown (e\<lparr>me_active := False\<rparr>)) w1)"


definition setTaktPeriodMs :: "u32 \<Rightarrow> scheduler \<Rightarrow> scheduler" where
  "setTaktPeriodMs periodMs s = s\<lparr>taktPeriodMs := periodMs\<rparr>"

definition setTaktBudgetUs :: "u32 \<Rightarrow> scheduler \<Rightarrow> scheduler" where
  "setTaktBudgetUs budget s = s\<lparr>taktBudgetUs := budget\<rparr>"


section \<open>Loops over the registered modules\<close>

text \<open>
  \<open>for (size_t i = 0; i < moduleCount_; ++i)\<close> with a body that may change the system:
  \<open>moduleCount_\<close> is read before every iteration. Beyond the table of 48 entries the C++
  code would be undefined; \<open>moduleCount_\<close> never exceeds it (\<open>wf_sched\<close>).
\<close>

function for_modules :: "(nat \<Rightarrow> 'a \<Rightarrow> 'a) \<Rightarrow> ('a \<Rightarrow> nat) \<Rightarrow> nat \<Rightarrow> 'a \<Rightarrow> 'a" where
  "for_modules body bound i a =
     (if i < bound a \<and> i < kMaxModules then for_modules body bound (Suc i) (body i a) else a)"
  by pat_completeness auto
termination by (relation "measure (\<lambda>(_, _, i, _). kMaxModules - i)") auto

declare for_modules.simps [simp del]

definition init_entry ::
  "'z sched_sys_scheme env \<Rightarrow> nat \<Rightarrow> bool \<times> 'z sched_sys_scheme \<Rightarrow> bool \<times> 'z sched_sys_scheme" where
  "init_entry env i = (\<lambda>(ok, w).
     let e = modules (sched w) ! i in
     if \<not> me_active e then (ok, w)
     else case me_module e of None \<Rightarrow> (ok, w)
     | Some p \<Rightarrow>
         let (r, w1) = m_init (e_module env p) (on_entry i (set_state Initializing) w) in
         if \<not> r then (False, on_entry i (set_state Error) w1)
         else (ok, on_entry i (set_state Ready) w1))"

definition initAll :: "'z sched_sys_scheme env \<Rightarrow> 'z sched_sys_scheme \<Rightarrow> bool \<times> 'z sched_sys_scheme" where
  "initAll env w = for_modules (init_entry env) (\<lambda>(ok, w). moduleCount (sched w)) 0 (True, w)"

definition shutdown_entry ::
  "'z sched_sys_scheme env \<Rightarrow> nat \<Rightarrow> 'z sched_sys_scheme \<Rightarrow> 'z sched_sys_scheme" where
  "shutdown_entry env i w =
     (let e = modules (sched w) ! i in
      if me_active e
      then case me_module e of None \<Rightarrow> w
           | Some p \<Rightarrow> on_entry i (set_state Shutdown) (m_shutdown (e_module env p) w)
      else w)"

definition shutdownAll :: "'z sched_sys_scheme env \<Rightarrow> 'z sched_sys_scheme \<Rightarrow> 'z sched_sys_scheme" where
  "shutdownAll env w = for_modules (shutdown_entry env) (\<lambda>w. moduleCount (sched w)) 0 w"


section \<open>The takt\<close>

definition shouldRunModule :: "'z sched_sys_scheme env \<Rightarrow> module_entry \<Rightarrow> 'z sched_sys_scheme \<Rightarrow> bool" where
  "shouldRunModule env e w =
     (if \<not> me_active e then False
      else case me_module e of None \<Rightarrow> False
      | Some p \<Rightarrow>
        if ms_state (me_stats e) \<noteq> Ready \<and> ms_state (me_stats e) \<noteq> Running then False
        else if m_type (e_module env p) w = Background then m_hasWork (e_module env p) w
        else True)"

definition account :: "u64 \<Rightarrow> module_stats \<Rightarrow> module_stats" where
  "account elapsed st = st\<lparr>ms_tickCount := ms_tickCount st + 1, ms_lastUs := elapsed,
     ms_totalUs := ms_totalUs st + elapsed,
     ms_maxUs := if ms_maxUs st < elapsed then elapsed else ms_maxUs st\<rparr>"

definition over_budget :: "u32 \<Rightarrow> u64 \<Rightarrow> bool" where
  "over_budget budget elapsed \<longleftrightarrow> 0 < budget \<and> ucast budget < elapsed"

text \<open>
  One iteration: the clock is read around \<open>tick\<close>, the statistics and the budget are looked
  up afterwards. The module pointer of an entry is never changed once it is set.
\<close>

definition run_entry ::
  "'z sched_sys_scheme env \<Rightarrow> nat \<Rightarrow> 'z sched_sys_scheme \<Rightarrow> 'z sched_sys_scheme" where
  "run_entry env i w =
     (let e = modules (sched w) ! i in
      case me_module e of None \<Rightarrow> w
      | Some p \<Rightarrow>
        if \<not> shouldRunModule env e w
        then if m_type (e_module env p) w = Background
             then on_entry i (\<lambda>e. e\<lparr>me_stats := (me_stats e)\<lparr>ms_skipCount := ms_skipCount (me_stats e) + 1\<rparr>\<rparr>) w
             else w
        else let (modStart, w1) = e_nowUs env w;
                 w2 = on_entry i (set_state Running) w1;
                 w3 = m_tick (e_module env p) w2;
                 (modEnd, w4) = e_nowUs env w3;
                 modElapsed = modEnd - modStart;
                 w5 = on_entry i (\<lambda>e. e\<lparr>me_stats := account modElapsed (me_stats e)\<rparr>) w4;
                 budget = m_budgetUs (e_module env p) w5;
                 w6 = (if over_budget budget modElapsed
                       then on_entry i (\<lambda>e. e\<lparr>me_stats := (me_stats e)\<lparr>ms_overrunCount :=
                              ms_overrunCount (me_stats e) + 1\<rparr>\<rparr>) w5
                       else w5)
             in on_entry i (set_state Ready) w6)"

definition run_modules :: "'z sched_sys_scheme env \<Rightarrow> 'z sched_sys_scheme \<Rightarrow> 'z sched_sys_scheme" where
  "run_modules env w = for_modules (run_entry env) (\<lambda>w. moduleCount (sched w)) 0 w"

definition account_takt :: "u64 \<Rightarrow> scheduler \<Rightarrow> scheduler" where
  "account_takt elapsed s = s\<lparr>sched_stats := (let st = sched_stats s in
     st\<lparr>ss_totalTakts := ss_totalTakts st + 1, ss_lastTaktUs := elapsed,
        ss_totalTaktUs := ss_totalTaktUs st + elapsed,
        ss_maxTaktUs := if ss_maxTaktUs st < elapsed then elapsed else ss_maxTaktUs st,
        ss_registeredModules := of_nat (moduleCount s)\<rparr>)\<rparr>"

definition finish_takt ::
  "'z sched_sys_scheme env \<Rightarrow> u64 \<Rightarrow> 'z sched_sys_scheme \<Rightarrow> 'z sched_sys_scheme" where
  "finish_takt env taktStart w =
     (let (taktEnd, w1) = e_nowUs env w;
          taktElapsed = taktEnd - taktStart;
          w2 = w1\<lparr>sched := account_takt taktElapsed (sched w1)\<rparr>
      in if over_budget (taktBudgetUs (sched w2)) taktElapsed
         then publish (e_handlers env) (event_code TaktOverrun) (ucast taktElapsed) (taktBudgetUs (sched w2))
                (w2\<lparr>sched := (sched w2)\<lparr>sched_stats := (sched_stats (sched w2))
                      \<lparr>ss_overrunCount := ss_overrunCount (sched_stats (sched w2)) + 1\<rparr>\<rparr>\<rparr>)
         else w2)"

definition runTakt :: "'z sched_sys_scheme env \<Rightarrow> 'z sched_sys_scheme \<Rightarrow> 'z sched_sys_scheme option" where
  "runTakt env w =
     (let (taktStart, w1) = e_nowUs env w in
      do { w2 \<leftarrow> tmgr_tick (e_timerCallbacks env) (taktPeriodMs (sched w1)) w1;
           w3 \<leftarrow> dispatchQueued (e_handlers env) w2;
           Some (finish_takt env taktStart (run_modules env (e_wdtReset env w3))) })"

partial_function (option) run_scheduler ::
  "'z sched_sys_scheme env \<Rightarrow> 'z sched_sys_scheme \<Rightarrow> 'z sched_sys_scheme option" where
  "run_scheduler env w =
     do { w1 \<leftarrow> runTakt env w; run_scheduler env (e_delay env (taktPeriodMs (sched w1)) w1) }"

definition moduleStats :: "u16 \<Rightarrow> scheduler \<Rightarrow> module_stats" where
  "moduleStats mid s =
     (if moduleCount s \<le> unat mid then new_module_stats else me_stats (modules s ! unat mid))"

lemmas entry_defs = update_entry_def on_entry_def set_state_def

declare registerModule_def [takt_ops] unregisterModule_def [takt_ops] entry_defs [takt_ops]


section \<open>Loops and frames\<close>

lemma for_modules_inv:
  assumes "\<And>i a. I a \<Longrightarrow> i < bound a \<Longrightarrow> i < kMaxModules \<Longrightarrow> I (body i a)" and "I a"
  shows "I (for_modules body bound i a)"
  using assms(2,1)
proof (induction body bound i a rule: for_modules.induct)
  case (1 body bound i a)
  show ?case
  proof (cases "i < bound a \<and> i < kMaxModules")
    case True
    with "1.prems" have "I (body i a)" by (intro "1.prems"(2)) auto
    with True 1 show ?thesis by (subst for_modules.simps) simp
  qed (use 1 in \<open>subst for_modules.simps, simp\<close>)
qed

text \<open>When the body keeps the bound, the loop visits a fixed range of indices.\<close>

lemma for_modules_fold:
  assumes body: "\<And>i a. I a \<Longrightarrow> i < bound a \<Longrightarrow> I (body i a) \<and> bound (body i a) = bound a"
    and le: "\<And>a. I a \<Longrightarrow> bound a \<le> kMaxModules" and "I a"
  shows "for_modules body bound 0 a = fold body [0..<bound a] a"
proof -
  have "for_modules body bound i v = fold body [i..<bound v] v" if "I v" for i v
    using that
  proof (induction "bound v - i" arbitrary: i v)
    case 0
    then show ?case by (subst for_modules.simps) simp
  next
    case (Suc k)
    then have lt: "i < bound v" by simp
    note b = body [OF Suc.prems lt]
    then have "k = bound (body i v) - Suc i" using Suc.hyps(2) by simp
    then show ?case
      using Suc.hyps(1) [of "body i v" "Suc i"] b lt le [OF Suc.prems]
      by (subst for_modules.simps) (simp add: upt_conv_Cons)
  qed
  then show ?thesis using \<open>I a\<close> by simp
qed

definition wf_sched :: "scheduler \<Rightarrow> bool" where
  "wf_sched s \<longleftrightarrow> length (modules s) = kMaxModules \<and> moduleCount s \<le> kMaxModules \<and>
     (\<forall>i<moduleCount s. me_module (modules s ! i) \<noteq> None) \<and>
     (\<forall>i<kMaxModules. moduleCount s \<le> i \<longrightarrow> modules s ! i = new_module_entry)"

lemma wf_sched_le: "wf_sched s \<Longrightarrow> moduleCount s \<le> kMaxModules"
  by (simp add: wf_sched_def)

lemma wf_new_scheduler [takt_inv]: "wf_sched new_scheduler"
  by (simp add: wf_sched_def new_scheduler_def)

lemma update_entry_simps [simp]:
  "moduleCount (update_entry i f s) = moduleCount s"
  "length (modules (update_entry i f s)) = length (modules s)"
  "sched_stats (update_entry i f s) = sched_stats s"
  "taktBudgetUs (update_entry i f s) = taktBudgetUs s"
  "taktPeriodMs (update_entry i f s) = taktPeriodMs s"
  by (simp_all add: update_entry_def)

lemma nth_update_entry:
  "i < length (modules s) \<Longrightarrow>
   modules (update_entry i f s) ! j = (if i = j then f (modules s ! j) else modules s ! j)"
  by (simp add: update_entry_def nth_list_update)

lemma nth_update_entry_other [simp]: "i \<noteq> j \<Longrightarrow> modules (update_entry i f s) ! j = modules s ! j"
  by (simp add: update_entry_def)

lemma sched_on_entry [simp]: "sched (on_entry i f w) = update_entry i f (sched w)"
  by (simp add: on_entry_def)

lemma on_entry_frame [simp]:
  "bus (on_entry i f w) = bus w" "timers (on_entry i f w) = timers w" "tmgr (on_entry i f w) = tmgr w"
  "sched_sys.more (on_entry i f w) = sched_sys.more w"
  by (simp_all add: on_entry_def)

lemma set_state_simps [simp]:
  "me_module (set_state st e) = me_module e" "me_active (set_state st e) = me_active e"
  "ms_state (me_stats (set_state st e)) = st"
  "ms_tickCount (me_stats (set_state st e)) = ms_tickCount (me_stats e)"
  "ms_totalUs (me_stats (set_state st e)) = ms_totalUs (me_stats e)"
  "ms_maxUs (me_stats (set_state st e)) = ms_maxUs (me_stats e)"
  "ms_lastUs (me_stats (set_state st e)) = ms_lastUs (me_stats e)"
  "ms_overrunCount (me_stats (set_state st e)) = ms_overrunCount (me_stats e)"
  "ms_skipCount (me_stats (set_state st e)) = ms_skipCount (me_stats e)"
  by (simp_all add: set_state_def)

lemma wf_update_entry:
  assumes "wf_sched s" and "i < moduleCount s" and "\<And>e. me_module (f e) = me_module e"
  shows "wf_sched (update_entry i f s)"
  using assms by (auto simp: wf_sched_def nth_update_entry)

lemma wf_registerModule [takt_inv]: "wf_sched s \<Longrightarrow> wf_sched (snd (registerModule m s))"
  by (auto simp: wf_sched_def registerModule_def nth_update_entry less_Suc_eq split: option.split)

text \<open>
  \<open>sched_quiet env\<close>: the application code behind the scheduler's pointers does not call the
  scheduler itself. (It may use timers, the bus and everything else.)
\<close>

definition sched_quiet :: "'z sched_sys_scheme env \<Rightarrow> bool" where
  "sched_quiet env \<longleftrightarrow>
     (\<forall>w. sched (snd (e_nowUs env w)) = sched w) \<and> (\<forall>w. sched (e_wdtReset env w) = sched w) \<and>
     (\<forall>n w. sched (e_delay env n w) = sched w) \<and>
     (\<forall>p w. sched (snd (m_init (e_module env p) w)) = sched w \<and> sched (m_tick (e_module env p) w) = sched w \<and>
        sched (m_shutdown (e_module env p) w) = sched w) \<and>
     (\<forall>c w. sched (e_timerCallbacks env c w) = sched w) \<and>
     (\<forall>c d u w. sched (e_handlers env c d u w) = sched w)"

lemma sched_quiet_simps:
  assumes "sched_quiet env"
  shows "e_nowUs env w = (t, w') \<Longrightarrow> sched w' = sched w"
    and "m_init (e_module env p) w = (r, w') \<Longrightarrow> sched w' = sched w"
    and "sched (snd (e_nowUs env w)) = sched w"
    and "sched (e_wdtReset env w) = sched w" and "sched (e_delay env n w) = sched w"
    and "sched (m_tick (e_module env p) w) = sched w" and "sched (m_shutdown (e_module env p) w) = sched w"
  using assms unfolding sched_quiet_def by (metis snd_conv)+

lemma sched_tmgr_tick:
  assumes "sched_quiet env" and "tmgr_tick (e_timerCallbacks env) d w = Some w'"
  shows "sched w' = sched w"
  by (rule tmgr_tick_inv [where I = "\<lambda>v. sched v = sched w", OF _ _ assms(2)])
    (use assms(1) in \<open>simp_all add: sched_quiet_def\<close>)

lemma sched_dispatchQueued:
  assumes "sched_quiet env" and "dispatchQueued (e_handlers env) w = Some w'"
  shows "sched w' = sched w"
  by (rule dispatchQueued_inv [where I = "\<lambda>v. sched v = sched w", OF _ _ assms(2)])
    (use assms(1) in \<open>simp_all add: sched_quiet_def\<close>)

lemma sched_publish:
  assumes "sched_quiet env"
  shows "sched (publish (e_handlers env) e p1 p2 w) = sched w"
  unfolding publish_def
  by (rule dispatch_inv [where I = "\<lambda>v. sched v = sched w"]) (use assms in \<open>simp_all add: sched_quiet_def\<close>)


section \<open>What one iteration does to the table\<close>

text \<open>
  \<open>ran_entry\<close>: the entry after a tick that took \<open>elapsed\<close> microseconds. \<open>skipped_entry\<close>: a
  background module that had nothing to do.
\<close>

definition ran_entry :: "u32 \<Rightarrow> u64 \<Rightarrow> module_entry \<Rightarrow> module_entry" where
  "ran_entry budget elapsed e = (let st = account elapsed (me_stats e) in
     e\<lparr>me_stats := st\<lparr>ms_overrunCount := ms_overrunCount st + (if over_budget budget elapsed then 1 else 0),
       ms_state := Ready\<rparr>\<rparr>)"

definition skipped_entry :: "module_entry \<Rightarrow> module_entry" where
  "skipped_entry e = e\<lparr>me_stats := (me_stats e)\<lparr>ms_skipCount := ms_skipCount (me_stats e) + 1\<rparr>\<rparr>"

lemma run_entry_sched:
  assumes "sched_quiet env" and "i < length (modules (sched w))"
    and "me_module (modules (sched w) ! i) = Some p"
  shows "\<exists>budget elapsed. sched (run_entry env i w) = update_entry i
     (if shouldRunModule env (modules (sched w) ! i) w then ran_entry budget elapsed
      else if m_type (e_module env p) w = Background then skipped_entry else id) (sched w)"
proof (cases "shouldRunModule env (modules (sched w) ! i) w")
  case True
  obtain t1 w1 where w1: "e_nowUs env w = (t1, w1)" by (cases "e_nowUs env w")
  let ?w3 = "m_tick (e_module env p) (on_entry i (set_state Running) w1)"
  obtain t2 w4 where w4: "e_nowUs env ?w3 = (t2, w4)" by (cases "e_nowUs env ?w3")
  have s4: "sched w4 = update_entry i (set_state Running) (sched w)"
    using sched_quiet_simps(1) [OF assms(1) w1] sched_quiet_simps(1) [OF assms(1) w4]
    by (simp add: sched_quiet_simps(6) [OF assms(1)])
  let ?w5 = "on_entry i (\<lambda>e. e\<lparr>me_stats := account (t2 - t1) (me_stats e)\<rparr>) w4"
  have "sched (run_entry env i w) = update_entry i
      (ran_entry (m_budgetUs (e_module env p) ?w5) (t2 - t1)) (sched w)"
    using assms(2,3) True w1 w4 s4
    by (simp add: run_entry_def Let_def update_entry_def set_state_def ran_entry_def account_def)
  with True show ?thesis by auto
next
  case False
  with assms(2,3) show ?thesis
    by (simp add: run_entry_def Let_def skipped_entry_def update_entry_def)
qed

lemma run_entry_module [simp]:
  "me_module (ran_entry b t e) = me_module e" "me_module (skipped_entry e) = me_module e"
  "me_active (ran_entry b t e) = me_active e" "me_active (skipped_entry e) = me_active e"
  "ms_state (me_stats (ran_entry b t e)) = Ready"
  "ms_state (me_stats (skipped_entry e)) = ms_state (me_stats e)"
  "ms_tickCount (me_stats (ran_entry b t e)) = ms_tickCount (me_stats e) + 1"
  "ms_tickCount (me_stats (skipped_entry e)) = ms_tickCount (me_stats e)"
  "ms_skipCount (me_stats (ran_entry b t e)) = ms_skipCount (me_stats e)"
  "ms_skipCount (me_stats (skipped_entry e)) = ms_skipCount (me_stats e) + 1"
  by (simp_all add: ran_entry_def skipped_entry_def account_def Let_def)


section \<open>What a whole takt does to the table\<close>

definition visited ::
  "'z sched_sys_scheme env \<Rightarrow> ptr \<Rightarrow> 'z sched_sys_scheme \<Rightarrow> u32 \<Rightarrow> u64 \<Rightarrow> module_entry \<Rightarrow> module_entry" where
  "visited env p v b t e =
     (if shouldRunModule env e v then ran_entry b t e
      else if m_type (e_module env p) v = Background then skipped_entry e else e)"

lemma visited_simps [simp]:
  "me_module (visited env p v b t e) = me_module e" "me_active (visited env p v b t e) = me_active e"
  by (simp_all add: visited_def)

lemma run_entry_visited:
  assumes "sched_quiet env" and "wf_sched (sched w)" and "i < moduleCount (sched w)"
  obtains p v b t where "me_module (modules (sched w) ! i) = Some p"
    and "sched (run_entry env i w) = update_entry i (visited env p v b t) (sched w)"
proof -
  from assms(2,3) obtain p where p: "me_module (modules (sched w) ! i) = Some p"
    by (auto simp: wf_sched_def)
  moreover have len: "i < length (modules (sched w))" using assms(2,3) by (simp add: wf_sched_def)
  ultimately obtain b t where "sched (run_entry env i w) = update_entry i
     (if shouldRunModule env (modules (sched w) ! i) w then ran_entry b t
      else if m_type (e_module env p) w = Background then skipped_entry else id) (sched w)"
    using run_entry_sched [OF assms(1)] by blast
  then have "sched (run_entry env i w) = update_entry i (visited env p w b t) (sched w)"
    by (simp add: update_entry_def visited_def)
  with p that show thesis by blast
qed

lemma wf_run_entry:
  assumes "sched_quiet env" and "wf_sched (sched w)" and "i < moduleCount (sched w)"
  shows "wf_sched (sched (run_entry env i w)) \<and> moduleCount (sched (run_entry env i w)) = moduleCount (sched w)"
proof -
  obtain p v b t where "sched (run_entry env i w) = update_entry i (visited env p v b t) (sched w)"
    using assms by (rule run_entry_visited)
  with assms(2,3) show ?thesis by (simp add: wf_update_entry)
qed

lemma run_entries:
  assumes "sched_quiet env" and "wf_sched (sched w)" and "n \<le> moduleCount (sched w)"
  shows "wf_sched (sched (fold (run_entry env) [0..<n] w)) \<and>
    moduleCount (sched (fold (run_entry env) [0..<n] w)) = moduleCount (sched w) \<and>
    (\<forall>j. n \<le> j \<longrightarrow> modules (sched (fold (run_entry env) [0..<n] w)) ! j = modules (sched w) ! j) \<and>
    (\<forall>i<n. \<exists>p v b t. me_module (modules (sched w) ! i) = Some p \<and>
       modules (sched (fold (run_entry env) [0..<n] w)) ! i = visited env p v b t (modules (sched w) ! i))"
  using assms(3)
proof (induction n)
  case (Suc n)
  let ?w = "fold (run_entry env) [0..<n] w"
  have IH: "wf_sched (sched ?w)" "moduleCount (sched ?w) = moduleCount (sched w)"
    "\<forall>j. n \<le> j \<longrightarrow> modules (sched ?w) ! j = modules (sched w) ! j"
    "\<forall>i<n. \<exists>p v b t. me_module (modules (sched w) ! i) = Some p \<and>
       modules (sched ?w) ! i = visited env p v b t (modules (sched w) ! i)"
    using Suc by auto
  have lt: "n < moduleCount (sched ?w)" and len: "n < length (modules (sched ?w))"
    using IH(1,2) Suc.prems by (auto simp: wf_sched_def)
  obtain p v b t where p: "me_module (modules (sched ?w) ! n) = Some p"
    and s: "sched (run_entry env n ?w) = update_entry n (visited env p v b t) (sched ?w)"
    using assms(1) IH(1) lt by (rule run_entry_visited)
  have "modules (sched (run_entry env n ?w)) ! n = visited env p v b t (modules (sched w) ! n)"
    using IH(3) len by (simp add: s nth_update_entry)
  moreover have "modules (sched (run_entry env n ?w)) ! j = modules (sched ?w) ! j" if "j \<noteq> n" for j
    using that by (simp add: s)
  ultimately show ?case
    using IH wf_run_entry [OF assms(1) IH(1) lt] p
    by (simp add: less_Suc_eq) (metis (no_types) IH(3) order.refl)
qed (use assms in simp)

lemma run_modules_fold:
  assumes "sched_quiet env" and "wf_sched (sched w)"
  shows "run_modules env w = fold (run_entry env) [0..<moduleCount (sched w)] w"
  unfolding run_modules_def
  by (rule for_modules_fold [where I = "\<lambda>w. wf_sched (sched w)"])
    (use assms wf_run_entry in \<open>auto simp: wf_sched_le\<close>)

lemma finish_takt_modules:
  assumes "sched_quiet env"
  shows "modules (sched (finish_takt env t w)) = modules (sched w) \<and>
    moduleCount (sched (finish_takt env t w)) = moduleCount (sched w)"
proof (cases "e_nowUs env w")
  case (Pair t1 w1)
  with sched_quiet_simps(1) [OF assms this] show ?thesis
    by (simp add: finish_takt_def sched_publish [OF assms] account_takt_def Let_def)
qed

lemma runTakt_modules:
  assumes "sched_quiet env" and "wf_sched (sched w)" and "runTakt env w = Some w'"
  shows "wf_sched (sched w') \<and> moduleCount (sched w') = moduleCount (sched w) \<and>
    (\<forall>i<moduleCount (sched w). \<exists>p v b t. me_module (modules (sched w) ! i) = Some p \<and>
       modules (sched w') ! i = visited env p v b t (modules (sched w) ! i))"
proof -
  obtain t w1 where w1: "e_nowUs env w = (t, w1)" by (cases "e_nowUs env w")
  with assms(3) obtain w2 w3 where w2: "tmgr_tick (e_timerCallbacks env) (taktPeriodMs (sched w1)) w1 = Some w2"
    and w3: "dispatchQueued (e_handlers env) w2 = Some w3"
    and w': "w' = finish_takt env t (run_modules env (e_wdtReset env w3))"
    by (auto simp: runTakt_def split: bind_splits)
  have s: "sched (e_wdtReset env w3) = sched w"
    using sched_quiet_simps(1) [OF assms(1) w1] sched_tmgr_tick [OF assms(1) w2]
      sched_dispatchQueued [OF assms(1) w3] by (simp add: sched_quiet_simps(4) [OF assms(1)])
  have wf: "wf_sched (sched (e_wdtReset env w3))" using s assms(2) by simp
  have "wf_sched (sched w') = wf_sched (sched (run_modules env (e_wdtReset env w3)))"
    unfolding w' wf_sched_def by (simp add: finish_takt_modules [OF assms(1)])
  then show ?thesis
    using run_entries [OF assms(1) wf, of "moduleCount (sched w)"] s
    by (simp add: w' finish_takt_modules [OF assms(1)] run_modules_fold [OF assms(1) wf])
qed

text \<open>\<open>n\<close> iterations of the loop of \<open>run\<close>.\<close>

primrec run_takts :: "'z sched_sys_scheme env \<Rightarrow> nat \<Rightarrow> 'z sched_sys_scheme \<Rightarrow> 'z sched_sys_scheme option" where
  "run_takts env 0 w = Some w"
| "run_takts env (Suc n) w =
     do { w1 \<leftarrow> runTakt env w; run_takts env n (e_delay env (taktPeriodMs (sched w1)) w1) }"


section \<open>Takts that return\<close>

text \<open>
  \<open>env_keeps env I\<close>: clock, watchdog, delay, modules and handlers preserve \<open>I\<close>. \<open>tame\<close>: all
  application code keeps the tables of bus and timers in order, event cascades are ranked
  and timer callbacks are careful.
\<close>

definition env_keeps :: "'z sched_sys_scheme env \<Rightarrow> ('z sched_sys_scheme \<Rightarrow> bool) \<Rightarrow> bool" where
  "env_keeps env I \<longleftrightarrow>
     (\<forall>w. I w \<longrightarrow> I (snd (e_nowUs env w)) \<and> I (e_wdtReset env w)) \<and>
     (\<forall>n w. I w \<longrightarrow> I (e_delay env n w)) \<and> (\<forall>p w. I w \<longrightarrow> I (m_tick (e_module env p) w)) \<and>
     (\<forall>c d u w. I w \<longrightarrow> I (e_handlers env c d u w))"

definition tame :: "(event_data \<Rightarrow> nat) \<Rightarrow> 'z sched_sys_scheme env \<Rightarrow> bool" where
  "tame rank env \<longleftrightarrow> ranked_handlers rank (e_handlers env) \<and> careful_callbacks (e_timerCallbacks env) \<and>
     (\<forall>c w. wf_bus (bus w) \<longrightarrow> wf_bus (bus (e_timerCallbacks env c w))) \<and>
     env_keeps env (\<lambda>w. wf_bus (bus w)) \<and> env_keeps env safe_timers"

definition sys_ok :: "'z sched_sys_scheme \<Rightarrow> bool" where
  "sys_ok w \<longleftrightarrow> wf_bus (bus w) \<and> safe_timers w"

lemma safe_timers_frame [simp]:
  "safe_timers (w\<lparr>bus := b\<rparr>) = safe_timers w" "safe_timers (v\<lparr>sched := s\<rparr>) = safe_timers v"
  by (simp_all add: safe_timers_def)

lemma keeps_run_entry:
  assumes k: "env_keeps env I" and s: "\<And>w s. I w \<Longrightarrow> I (w\<lparr>sched := s\<rparr>)" and "I w"
  shows "I (run_entry env i w)"
proof -
  have now: "I w \<Longrightarrow> e_nowUs env w = (t, w') \<Longrightarrow> I w'" for w t w'
    using k unfolding env_keeps_def by (metis snd_conv)
  have tick: "I w \<Longrightarrow> I (m_tick (e_module env p) w)" for p w
    using k unfolding env_keeps_def by blast
  have on: "I w \<Longrightarrow> I (on_entry i f w)" for w f unfolding on_entry_def by (rule s)
  show ?thesis
  proof (cases "me_module (modules (sched w) ! i)")
    case (Some p)
    obtain t1 w1 where w1: "e_nowUs env w = (t1, w1)" by (cases "e_nowUs env w")
    let ?w3 = "m_tick (e_module env p) (on_entry i (set_state Running) w1)"
    obtain t2 w4 where w4: "e_nowUs env ?w3 = (t2, w4)" by (cases "e_nowUs env ?w3")
    have "I w4" using now [OF tick [OF on [OF now [OF \<open>I w\<close> w1]]] w4] .
    then show ?thesis
      using Some \<open>I w\<close> w1 w4 by (simp add: run_entry_def Let_def on)
  qed (use \<open>I w\<close> in \<open>simp add: run_entry_def\<close>)
qed

lemma keeps_run_modules:
  assumes "env_keeps env I" and "\<And>w s. I w \<Longrightarrow> I (w\<lparr>sched := s\<rparr>)" and "I w"
  shows "I (run_modules env w)"
  unfolding run_modules_def
  by (rule for_modules_inv) (use assms keeps_run_entry in blast)+

lemma keeps_finish_takt:
  assumes k: "env_keeps env I" and s: "\<And>w s. I w \<Longrightarrow> I (w\<lparr>sched := s\<rparr>)" and "I w"
  shows "I (finish_takt env t w)"
proof (cases "e_nowUs env w")
  case (Pair t1 w1)
  have "I w1" using k \<open>I w\<close> Pair unfolding env_keeps_def by (metis snd_conv)
  moreover have "I (publish (e_handlers env) e p1 p2 v)" if "I v" for e p1 p2 v
    unfolding publish_def by (rule dispatch_inv [of I]) (use k that in \<open>auto simp: env_keeps_def\<close>)
  ultimately show ?thesis
    using s by (simp add: finish_takt_def Pair Let_def)
qed

lemma runTakt_defined:
  assumes "tame rank env" and "sys_ok w"
  shows "\<exists>w'. runTakt env w = Some w' \<and> sys_ok w'"
proof -
  have kb: "env_keeps env (\<lambda>w. wf_bus (bus w))" and kt: "env_keeps env safe_timers"
    and cc: "careful_callbacks (e_timerCallbacks env)" and rh: "ranked_handlers rank (e_handlers env)"
    and cb: "\<And>c w. wf_bus (bus w) \<Longrightarrow> wf_bus (bus (e_timerCallbacks env c w))"
    using assms(1) by (simp_all add: tame_def)
  obtain t w1 where w1: "e_nowUs env w = (t, w1)" by (cases "e_nowUs env w")
  have ok1: "wf_bus (bus w1)" "safe_timers w1"
    using assms(2) kb kt w1 unfolding sys_ok_def env_keeps_def by (metis snd_conv)+
  obtain w2 where w2: "tmgr_tick (e_timerCallbacks env) (taktPeriodMs (sched w1)) w1 = Some w2" "safe_timers w2"
    using safe_tick_slots [OF cc ok1(2)] by (auto simp: tmgr_tick_def)
  have b2: "wf_bus (bus w2)"
    by (rule tmgr_tick_inv [where I = "\<lambda>w. wf_bus (bus w)", OF _ _ w2(1) ok1(1)]) (simp_all add: cb)
  obtain w3 where w3: "dispatchQueued (e_handlers env) w2 = Some w3" "wf_bus (bus w3)"
    using drain_terminates [OF rh b2] by blast
  have t3: "safe_timers w3"
    by (rule dispatchQueued_inv [where I = safe_timers, OF _ _ w3(1) w2(2)])
      (use kt in \<open>auto simp: env_keeps_def\<close>)
  have "wf_bus (bus (e_wdtReset env w3))" "safe_timers (e_wdtReset env w3)"
    using kb kt w3(2) t3 by (auto simp: env_keeps_def)
  then have "sys_ok (finish_takt env t (run_modules env (e_wdtReset env w3)))"
    unfolding sys_ok_def
    by (intro conjI keeps_finish_takt [OF kb] keeps_finish_takt [OF kt]
        keeps_run_modules [OF kb] keeps_run_modules [OF kt]) simp_all
  then show ?thesis using w1 w2(1) w3(1) by (simp add: runTakt_def)
qed

section \<open>Initialization of the modules\<close>

definition initialized :: "bool \<Rightarrow> module_entry \<Rightarrow> module_entry" where
  "initialized r e = (if me_active e then set_state (if r then Ready else Error) e else e)"

lemma initialized_simps [simp]:
  "me_module (initialized r e) = me_module e" "me_active (initialized r e) = me_active e"
  by (simp_all add: initialized_def)

lemma init_entry_step:
  assumes "sched_quiet env" and "wf_sched (sched w)" and "i < moduleCount (sched w)"
  obtains r w' where "init_entry env i (ok, w) = (ok \<and> (me_active (modules (sched w) ! i) \<longrightarrow> r), w')"
    and "sched w' = update_entry i (initialized r) (sched w)"
proof -
  from assms(2,3) obtain p where p: "me_module (modules (sched w) ! i) = Some p"
    and len: "i < length (modules (sched w))"
    by (auto simp: wf_sched_def)
  obtain r w1 where w1: "m_init (e_module env p) (on_entry i (set_state Initializing) w) = (r, w1)"
    by (cases "m_init (e_module env p) (on_entry i (set_state Initializing) w)")
  have s1: "sched w1 = update_entry i (set_state Initializing) (sched w)"
    using sched_quiet_simps(2) [OF assms(1) w1] by simp
  show thesis
  proof (cases "me_active (modules (sched w) ! i)")
    case True
    let ?w' = "on_entry i (set_state (if r then Ready else Error)) w1"
    have "init_entry env i (ok, w) = (ok \<and> r, ?w')"
      using True p w1 by (simp add: init_entry_def Let_def)
    moreover have "sched ?w' = update_entry i (initialized r) (sched w)"
      using True len s1 by (simp add: update_entry_def initialized_def set_state_def)
    ultimately show thesis using True that [of r ?w'] by simp
  next
    case False
    then show thesis
      using that [of r w] by (simp add: init_entry_def update_entry_def initialized_def)
  qed
qed

lemma wf_init_entry:
  assumes "sched_quiet env" and "wf_sched (sched w)" and "i < moduleCount (sched w)"
  shows "wf_sched (sched (snd (init_entry env i (ok, w)))) \<and>
    moduleCount (sched (snd (init_entry env i (ok, w)))) = moduleCount (sched w)"
proof -
  obtain r w' where "init_entry env i (ok, w) = (ok \<and> (me_active (modules (sched w) ! i) \<longrightarrow> r), w')"
    and "sched w' = update_entry i (initialized r) (sched w)"
    using assms by (rule init_entry_step [of env w i ok])
  with assms(2,3) show ?thesis by (simp add: wf_update_entry)
qed

lemma init_entries:
  assumes "sched_quiet env" and "wf_sched (sched w)" and "n \<le> moduleCount (sched w)"
    and "fold (init_entry env) [0..<n] (True, w) = (ok, w')"
  shows "wf_sched (sched w') \<and> moduleCount (sched w') = moduleCount (sched w) \<and>
    (\<forall>j. n \<le> j \<longrightarrow> modules (sched w') ! j = modules (sched w) ! j) \<and>
    (\<exists>r. (\<forall>i<n. modules (sched w') ! i = initialized (r i) (modules (sched w) ! i)) \<and>
         (ok \<longleftrightarrow> (\<forall>i<n. me_active (modules (sched w) ! i) \<longrightarrow> r i)))"
  using assms(3,4)
proof (induction n arbitrary: ok w')
  case (Suc n)
  obtain ok1 w1 where w1: "fold (init_entry env) [0..<n] (True, w) = (ok1, w1)"
    by (cases "fold (init_entry env) [0..<n] (True, w)")
  obtain r where IH: "wf_sched (sched w1)" "moduleCount (sched w1) = moduleCount (sched w)"
    "\<forall>j. n \<le> j \<longrightarrow> modules (sched w1) ! j = modules (sched w) ! j"
    "\<forall>i<n. modules (sched w1) ! i = initialized (r i) (modules (sched w) ! i)"
    "ok1 \<longleftrightarrow> (\<forall>i<n. me_active (modules (sched w) ! i) \<longrightarrow> r i)"
    using Suc.IH [OF _ w1] Suc.prems(1) by auto
  have lt: "n < moduleCount (sched w1)" and len: "n < length (modules (sched w1))"
    using IH(1,2) Suc.prems by (auto simp: wf_sched_def)
  obtain q w2 where q: "init_entry env n (ok1, w1) = (ok1 \<and> (me_active (modules (sched w1) ! n) \<longrightarrow> q), w2)"
    and s: "sched w2 = update_entry n (initialized q) (sched w1)"
    using assms(1) IH(1) lt by (rule init_entry_step)
  have ok: "ok = (ok1 \<and> (me_active (modules (sched w) ! n) \<longrightarrow> q))" and w': "w' = w2"
    using Suc.prems(2) w1 q IH(3) by auto
  have n: "modules (sched w') ! n = initialized q (modules (sched w) ! n)"
    using IH(3) len by (simp add: w' s nth_update_entry)
  have other: "modules (sched w') ! j = modules (sched w1) ! j" if "j \<noteq> n" for j
    using that by (simp add: w' s)
  have "wf_sched (sched w')" using wf_update_entry [OF IH(1) lt] by (simp add: w' s)
  moreover have "\<forall>i<Suc n. modules (sched w') ! i = initialized ((r(n := q)) i) (modules (sched w) ! i)"
    using IH(4) n other by (simp add: less_Suc_eq)
  moreover have "ok \<longleftrightarrow> (\<forall>i<Suc n. me_active (modules (sched w) ! i) \<longrightarrow> (r(n := q)) i)"
    using IH(5) by (auto simp: ok less_Suc_eq)
  moreover have "\<forall>j. Suc n \<le> j \<longrightarrow> modules (sched w') ! j = modules (sched w) ! j"
    using IH(3) other by simp
  moreover have "moduleCount (sched w') = moduleCount (sched w)" using IH(2) by (simp add: w' s)
  ultimately show ?case by blast
qed (use assms(2) in auto)

lemma initAll_fold:
  assumes "sched_quiet env" and "wf_sched (sched w)"
  shows "initAll env w = fold (init_entry env) [0..<moduleCount (sched w)] (True, w)"
proof -
  have "for_modules (init_entry env) (\<lambda>a. moduleCount (sched (snd a))) 0 (True, w) =
      fold (init_entry env) [0..<moduleCount (sched (snd (True, w)))] (True, w)"
    by (rule for_modules_fold [where I = "\<lambda>a. wf_sched (sched (snd a))"])
      (use assms wf_init_entry [OF assms(1)] in \<open>auto simp: wf_sched_le\<close>)
  then show ?thesis by (simp add: initAll_def case_prod_unfold)
qed


section \<open>What an observer sees\<close>

text \<open>
  \<open>observes env view g\<close>: \<open>view\<close> is a part of the application's state that only module ticks change, and a tick of
  the module \<open>p\<close> changes it by \<open>g p\<close>. The number of calls of \<open>tick\<close> is not a field of the scheduler; it is told
  by what such a part looks like afterwards.
\<close>

definition observes :: "'z sched_sys_scheme env \<Rightarrow> ('z sched_sys_scheme \<Rightarrow> 'v) \<Rightarrow> (ptr \<Rightarrow> 'v \<Rightarrow> 'v) \<Rightarrow> bool" where
  "observes env view g \<longleftrightarrow>
     (\<forall>w b. view (w\<lparr>bus := b\<rparr>) = view w) \<and> (\<forall>w ts. view (w\<lparr>timers := ts\<rparr>) = view w) \<and>
     (\<forall>w s. view (w\<lparr>sched := s\<rparr>) = view w) \<and>
     (\<forall>w. view (snd (e_nowUs env w)) = view w) \<and> (\<forall>w. view (e_wdtReset env w) = view w) \<and>
     (\<forall>n w. view (e_delay env n w) = view w) \<and> (\<forall>c w. view (e_timerCallbacks env c w) = view w) \<and>
     (\<forall>c d u w. view (e_handlers env c d u w) = view w) \<and> (\<forall>p w. view (m_tick (e_module env p) w) = g p (view w))"

lemma observes_simps:
  assumes "observes env view g"
  shows "view (snd (e_nowUs env w)) = view w" and "e_nowUs env w = (t, w') \<Longrightarrow> view w' = view w"
    and "view (e_wdtReset env w) = view w" and "view (e_delay env n w) = view w"
    and "view (m_tick (e_module env p) w) = g p (view w)" and "view (on_entry i f w) = view w"
    and "view (w\<lparr>sched := s\<rparr>) = view w"
  using assms unfolding observes_def on_entry_def by (metis snd_conv)+

lemma observe_run_entry:
  assumes "observes env view g"
  shows "view (run_entry env i w) =
    (if shouldRunModule env (modules (sched w) ! i) w then g (the (me_module (modules (sched w) ! i))) (view w) else view w)"
proof (cases "me_module (modules (sched w) ! i)")
  case None
  then show ?thesis by (simp add: run_entry_def shouldRunModule_def)
next
  case (Some p)
  obtain t1 w1 where w1: "e_nowUs env w = (t1, w1)" by (cases "e_nowUs env w")
  let ?w3 = "m_tick (e_module env p) (on_entry i (set_state Running) w1)"
  obtain t2 w4 where w4: "e_nowUs env ?w3 = (t2, w4)" by (cases "e_nowUs env ?w3")
  have "view w4 = g p (view w)"
    using observes_simps(2) [OF assms w1] observes_simps(2) [OF assms w4]
    by (simp add: observes_simps(5,6) [OF assms])
  then show ?thesis
    using Some w1 w4 by (simp add: run_entry_def Let_def observes_simps(6) [OF assms])
qed

lemma observe_run_modules:
  assumes "observes env view g" and "sched_quiet env" and "wf_sched (sched w)"
  shows "view (run_modules env w) = fold (\<lambda>i. if shouldRunModule env (modules (sched w) ! i) (fold (run_entry env) [0..<i] w)
     then g (the (me_module (modules (sched w) ! i))) else id) [0..<moduleCount (sched w)] (view w)"
proof -
  have "view (fold (run_entry env) [0..<n] w) = fold (\<lambda>i. if shouldRunModule env (modules (sched w) ! i) (fold (run_entry env) [0..<i] w)
     then g (the (me_module (modules (sched w) ! i))) else id) [0..<n] (view w)" if "n \<le> moduleCount (sched w)" for n
    using that
  proof (induction n)
    case (Suc n)
    let ?v = "fold (run_entry env) [0..<n] w"
    have "modules (sched ?v) ! n = modules (sched w) ! n"
      using run_entries [OF assms(2,3), of n] Suc.prems by simp
    with Suc show ?case by (simp add: observe_run_entry [OF assms(1)])
  qed simp
  then show ?thesis by (simp add: run_modules_fold [OF assms(2,3)])
qed

lemma observe_finish_takt:
  assumes "observes env view g"
  shows "view (finish_takt env t w) = view w"
proof (cases "e_nowUs env w")
  case (Pair t1 w1)
  have "view (publish (e_handlers env) e p1 p2 v) = view v" for e p1 p2 v
    unfolding publish_def
    by (rule dispatch_inv [where I = "\<lambda>u. view u = view v"]) (use assms in \<open>auto simp: observes_def\<close>)
  with Pair observes_simps(2) [OF assms Pair] show ?thesis
    by (simp add: finish_takt_def Let_def observes_simps(7) [OF assms])
qed

text \<open>Before its modules run, a takt changes nothing that an observer sees, and not the table either.\<close>

lemma observe_takt:
  assumes "observes env view g" and "sched_quiet env" and "wf_sched (sched w)" and "runTakt env w = Some w'"
  obtains u where "view w' = view (run_modules env u)" and "sched u = sched w" and "view u = view w"
proof -
  obtain t w1 where w1: "e_nowUs env w = (t, w1)" by (cases "e_nowUs env w")
  with assms(4) obtain w2 w3 where w2: "tmgr_tick (e_timerCallbacks env) (taktPeriodMs (sched w1)) w1 = Some w2"
    and w3: "dispatchQueued (e_handlers env) w2 = Some w3"
    and w': "w' = finish_takt env t (run_modules env (e_wdtReset env w3))"
    by (auto simp: runTakt_def split: bind_splits)
  have "sched (e_wdtReset env w3) = sched w"
    using sched_quiet_simps(1) [OF assms(2) w1] sched_tmgr_tick [OF assms(2) w2]
      sched_dispatchQueued [OF assms(2) w3] by (simp add: sched_quiet_simps(4) [OF assms(2)])
  moreover have "view w2 = view w"
    by (rule tmgr_tick_inv [where I = "\<lambda>v. view v = view w", OF _ _ w2])
      (use assms(1) observes_simps(2) [OF assms(1) w1] in \<open>simp_all add: observes_def\<close>)
  then have "view w3 = view w"
    by (rule dispatchQueued_inv [where I = "\<lambda>v. view v = view w", OF _ _ w3, rotated 2])
      (use assms(1) in \<open>simp_all add: observes_def\<close>)
  then have "view (e_wdtReset env w3) = view w" by (simp add: observes_simps(3) [OF assms(1)])
  ultimately show thesis using that [of "e_wdtReset env w3"] by (simp add: w' observe_finish_takt [OF assms(1)])
qed

lemma fold_one:
  assumes "i < n" and "h i = f" and "\<And>j. j < n \<Longrightarrow> j \<noteq> i \<Longrightarrow> h j = id"
  shows "fold h [0..<n] x = f x"
proof -
  have "fold h [0..<m] x = (if i < m then f x else x)" if "m \<le> n" for m
    using that
  proof (induction m)
    case (Suc m)
    then show ?case using assms(2,3) by (cases "m = i") (auto simp: less_Suc_eq)
  qed simp
  then show ?thesis using assms(1) by simp
qed


section \<open>An application that logs which modules ran\<close>

definition logging ::
  "(ptr \<Rightarrow> bool) \<Rightarrow> (ptr \<Rightarrow> module_type) \<Rightarrow> (ptr \<Rightarrow> bool) \<Rightarrow> ptr list sched_sys_scheme env" where
  "logging ok ty work =
     \<lparr>e_handlers = (\<lambda>c d u w. w), e_timerCallbacks = (\<lambda>c w. w),
      e_module = (\<lambda>p. \<lparr>m_init = (\<lambda>w. (ok p, w)), m_tick = (\<lambda>w. w\<lparr>sched_sys.more := sched_sys.more w @ [p]\<rparr>),
        m_shutdown = (\<lambda>w. w), m_type = (\<lambda>w. ty p), m_budgetUs = (\<lambda>w. 0), m_hasWork = (\<lambda>w. work p)\<rparr>),
      e_nowUs = (\<lambda>w. (0, w)), e_wdtReset = (\<lambda>w. w), e_delay = (\<lambda>n w. w)\<rparr>"

lemma quiet_logging [simp]: "sched_quiet (logging ok ty work)"
  by (simp add: sched_quiet_def logging_def)

lemma safe_timers_more [simp]: "safe_timers (w\<lparr>sched_sys.more := x\<rparr>) = safe_timers w"
  by (simp add: safe_timers_def)

lemma tame_logging [simp]: "tame (\<lambda>d. 0) (logging ok ty work)"
  by (auto simp: tame_def logging_def env_keeps_def careful_callbacks_def ranked_handlers_def appends_lower_def)

definition demo_sched :: scheduler where
  "demo_sched = new_scheduler\<lparr>modules :=
     \<lparr>me_module = Some 500, me_stats = new_module_stats\<lparr>ms_state := Ready\<rparr>, me_active = True\<rparr> #
     \<lparr>me_module = Some 600, me_stats = new_module_stats\<lparr>ms_state := Error\<rparr>, me_active = True\<rparr> #
     replicate 46 new_module_entry, moduleCount := 2\<rparr>"

definition demo_app :: "ptr list sched_sys_scheme" where
  "demo_app = \<lparr>bus = new_event_bus, timers = Map.empty, tmgr = new_timer_manager, sched = demo_sched, \<dots> = []\<rparr>"

lemma demo_app_simps [simp]:
  "sched demo_app = demo_sched" "sched_sys.more demo_app = []" "moduleCount demo_sched = 2"
  "modules demo_sched ! 0 = \<lparr>me_module = Some 500, me_stats = new_module_stats\<lparr>ms_state := Ready\<rparr>, me_active = True\<rparr>"
  "modules demo_sched ! 1 = \<lparr>me_module = Some 600, me_stats = new_module_stats\<lparr>ms_state := Error\<rparr>, me_active = True\<rparr>"
  "modules demo_sched ! Suc 0 = \<lparr>me_module = Some 600, me_stats = new_module_stats\<lparr>ms_state := Error\<rparr>, me_active = True\<rparr>"
  by (simp_all add: demo_app_def demo_sched_def)

lemma wf_demo_sched: "wf_sched demo_sched"
  by (auto simp: wf_sched_def demo_sched_def new_scheduler_def kMaxModules_def nth_Cons less_Suc_eq split: nat.split)

lemma sys_ok_demo: "sys_ok demo_app"
  by (simp add: sys_ok_def demo_app_def takt_inv safe_timers_def) (simp add: new_timer_manager_def)


section \<open>Properties\<close>

lemma of_nat_module_id: "n < kMaxModules \<Longrightarrow> unat (of_nat n :: u16) = n"
  by (simp add: kMaxModules_def unat_of_nat)

text \<open>
  \<open>registerModule\<close> fails with the invalid id exactly for a null pointer or a full table;
  otherwise ids are dense and unique: the id is the old module count, its entry becomes the
  active, registered module, no other entry changes, and the table stays well-formed.
\<close>

theorem registerModule_functional:
  assumes "wf_sched s" and "registerModule m s = (r, s')"
  shows "wf_sched s' \<and> (r = kInvalidModuleId \<longleftrightarrow> m = None \<or> moduleCount s = kMaxModules) \<and>
    (r = kInvalidModuleId \<longrightarrow> s' = s) \<and>
    (r \<noteq> kInvalidModuleId \<longrightarrow> unat r = moduleCount s \<and> moduleCount s' = moduleCount s + 1 \<and>
       me_module (modules s' ! unat r) = m \<and> me_active (modules s' ! unat r) \<and>
       ms_state (moduleStats r s') = Registered \<and>
       (\<forall>j. j \<noteq> unat r \<longrightarrow> modules s' ! j = modules s ! j))"
proof -
  note small = of_nat_module_id
  have ne: "of_nat (moduleCount s) \<noteq> kInvalidModuleId" if "moduleCount s < kMaxModules"
    using small [OF that] that by (auto simp: kInvalidModuleId_def kMaxModules_def)
  have wf: "wf_sched s'" using wf_registerModule [OF assms(1), of m] assms(2) by simp
  have len: "length (modules s) = kMaxModules" "moduleCount s \<le> kMaxModules"
    using assms(1) by (simp_all add: wf_sched_def)
  show ?thesis
  proof (cases "m = None \<or> kMaxModules \<le> moduleCount s")
    case True
    then show ?thesis using assms(2) wf len by (auto simp: registerModule_def split: option.splits)
  next
    case False
    then show ?thesis
      using assms(2) wf len small ne
      by (auto simp: registerModule_def moduleStats_def nth_update_entry)
  qed
qed

theorem registerModule_functional_witness:
  "wf_sched (snd (registerModule (Some 7) demo_sched)) \<and>
   unat (fst (registerModule (Some 7) demo_sched)) = 2"
proof -
  have "registerModule (Some 7) demo_sched =
      (fst (registerModule (Some 7) demo_sched), snd (registerModule (Some 7) demo_sched))" by simp
  from registerModule_functional [OF wf_demo_sched this] show ?thesis
    by (simp add: kMaxModules_def)
qed

text \<open>
  Entries are never given back. Whatever is registered and unregistered, the module count
  only grows, by one per successful registration; after 48 of them every registration
  fails, although all modules may have been unregistered again.
\<close>

datatype table_op = Register "ptr option" | Unregister u16

primrec apply_table_op :: "'z sched_sys_scheme env \<Rightarrow> table_op \<Rightarrow> nat \<times> 'z sched_sys_scheme \<Rightarrow> nat \<times> 'z sched_sys_scheme" where
  "apply_table_op env (Register m) = (\<lambda>(n, w).
     (if fst (registerModule m (sched w)) = kInvalidModuleId then n else n + 1,
      w\<lparr>sched := snd (registerModule m (sched w))\<rparr>))"
| "apply_table_op env (Unregister mid) = (\<lambda>(n, w). (n, unregisterModule env mid w))"

lemma sched_unregisterModule:
  assumes "sched_quiet env"
  shows "sched (unregisterModule env mid w) = (if moduleCount (sched w) \<le> unat mid then sched w
    else update_entry (unat mid) (\<lambda>e. set_state Shutdown (e\<lparr>me_active := False\<rparr>)) (sched w))"
  using sched_quiet_simps(7) [OF assms]
  by (auto simp: unregisterModule_def Let_def split: option.split)

lemma moduleCount_registerModule:
  assumes "wf_sched s"
  shows "moduleCount (snd (registerModule m s)) =
    moduleCount s + (if fst (registerModule m s) = kInvalidModuleId then 0 else 1)"
proof -
  have "of_nat (moduleCount s) \<noteq> kInvalidModuleId" if "moduleCount s < kMaxModules"
    using that of_nat_module_id [OF that] by (auto simp: kInvalidModuleId_def kMaxModules_def)
  then show ?thesis by (auto simp: registerModule_def split: option.split)
qed

lemma table_ops_count:
  assumes "sched_quiet env" and "wf_sched (sched w)" and "fold (apply_table_op env) ops (0, w) = (n, w')"
  shows "wf_sched (sched w') \<and> moduleCount (sched w') = moduleCount (sched w) + n"
proof -
  have "wf_sched (sched (snd (fold (apply_table_op env) ops (k, v)))) \<and>
      moduleCount (sched (snd (fold (apply_table_op env) ops (k, v)))) + k =
      moduleCount (sched v) + fst (fold (apply_table_op env) ops (k, v))"
    if "wf_sched (sched v)" for k v
    using that
  proof (induction ops arbitrary: k v)
    case (Cons a ops)
    show ?case
    proof (cases a)
      case (Register m)
      let ?s = "snd (registerModule m (sched v))" and ?r = "fst (registerModule m (sched v))"
      have "wf_sched ?s" using Cons.prems by (rule wf_registerModule)
      moreover have "moduleCount ?s = moduleCount (sched v) + (if ?r = kInvalidModuleId then 0 else 1)"
        using Cons.prems by (rule moduleCount_registerModule)
      ultimately show ?thesis
        using Cons.IH [of "v\<lparr>sched := ?s\<rparr>" "if ?r = kInvalidModuleId then k else k + 1"] Register
        by (auto split: if_splits)
    next
      case (Unregister mid)
      have "wf_sched (sched (unregisterModule env mid v)) \<and>
          moduleCount (sched (unregisterModule env mid v)) = moduleCount (sched v)"
        using Cons.prems by (simp add: sched_unregisterModule [OF assms(1)] wf_update_entry)
      then show ?thesis using Cons.IH Unregister by simp
    qed
  qed simp
  from this [of w 0] show ?thesis using assms(2,3) by simp
qed

theorem unregister_never_frees:
  assumes "sched_quiet env" and "fold (apply_table_op env) ops (0, w) = (n, w')" and "sched w = new_scheduler"
  shows "moduleCount (sched w') = n \<and> n \<le> kMaxModules \<and>
    (n = kMaxModules \<longrightarrow> registerModule m (sched w') = (kInvalidModuleId, sched w'))"
proof -
  have "wf_sched (sched w)" by (simp add: assms(3) wf_new_scheduler)
  from table_ops_count [OF assms(1) this assms(2)] show ?thesis
    using assms(3) by (auto simp: new_scheduler_def wf_sched_def registerModule_def split: option.split)
qed

theorem unregister_never_frees_witness:
  "moduleCount (sched (snd (fold (apply_table_op (logging (\<lambda>p. True) (\<lambda>p. Static) (\<lambda>p. True)))
     [Register (Some 1), Unregister 0, Register (Some 1)] (0, demo_app\<lparr>sched := new_scheduler\<rparr>)))) = 2"
proof -
  let ?f = "fold (apply_table_op (logging (\<lambda>p. True) (\<lambda>p. Static) (\<lambda>p. True)))
     [Register (Some 1), Unregister 0, Register (Some 1)] (0, demo_app\<lparr>sched := new_scheduler\<rparr>)"
  have "fst ?f = 2"
    by (simp add: registerModule_def new_scheduler_def kInvalidModuleId_def kMaxModules_def
        sched_unregisterModule)
  moreover have "moduleCount (sched (snd ?f)) = fst ?f"
    by (rule conjunct1 [OF unregister_never_frees [OF quiet_logging prod.collapse [symmetric]]]) simp
  ultimately show ?thesis by (simp only:)
qed

text \<open>
  \<open>initAll\<close> runs \<open>init\<close> of every active module and returns true exactly when all of them
  succeeded; a module that succeeded is Ready, one that failed stays in the table, active,
  in state Error; inactive entries are left alone.
\<close>

theorem initAll_functional:
  assumes "sched_quiet env" and "wf_sched (sched w)" and "initAll env w = (ok, w')"
  shows "wf_sched (sched w') \<and> moduleCount (sched w') = moduleCount (sched w) \<and>
    (\<forall>i<moduleCount (sched w). let e = modules (sched w) ! i; e' = modules (sched w') ! i in
       me_module e' = me_module e \<and> me_active e' = me_active e \<and>
       (me_active e \<longrightarrow> ms_state (me_stats e') \<in> {Ready, Error}) \<and> (\<not> me_active e \<longrightarrow> e' = e)) \<and>
    (ok \<longleftrightarrow> (\<forall>i<moduleCount (sched w). me_active (modules (sched w) ! i) \<longrightarrow>
       ms_state (me_stats (modules (sched w') ! i)) = Ready))"
proof -
  have "fold (init_entry env) [0..<moduleCount (sched w)] (True, w) = (ok, w')"
    using assms(3) by (simp add: initAll_fold [OF assms(1,2)])
  from init_entries [OF assms(1,2) order.refl this] obtain r where
    r: "\<forall>i<moduleCount (sched w). modules (sched w') ! i = initialized (r i) (modules (sched w) ! i)"
      "ok \<longleftrightarrow> (\<forall>i<moduleCount (sched w). me_active (modules (sched w) ! i) \<longrightarrow> r i)"
    and wf: "wf_sched (sched w')" "moduleCount (sched w') = moduleCount (sched w)"
    by blast
  have "me_active (modules (sched w) ! i) \<Longrightarrow>
      ms_state (me_stats (initialized (r i) (modules (sched w) ! i))) = (if r i then Ready else Error)" for i
    by (simp add: initialized_def)
  then show ?thesis
    using r wf by (auto simp: Let_def initialized_def)
qed

theorem initAll_functional_witness:
  "\<not> fst (initAll (logging (\<lambda>p. p = 500) (\<lambda>p. Static) (\<lambda>p. True)) demo_app) \<longleftrightarrow>
   (\<exists>i<2. ms_state (me_stats (modules (sched (snd (initAll
      (logging (\<lambda>p. p = 500) (\<lambda>p. Static) (\<lambda>p. True)) demo_app))) ! i)) \<noteq> Ready)"
proof -
  let ?env = "logging (\<lambda>p. p = 500) (\<lambda>p. Static) (\<lambda>p. True)"
  have e: "initAll ?env demo_app = (fst (initAll ?env demo_app), snd (initAll ?env demo_app))" by simp
  show ?thesis
    using initAll_functional [OF quiet_logging _ e] wf_demo_sched
    by (simp add: less_2_cases_iff) blast
qed

text \<open>
  C1: no starvation. With tame application code every takt returns, and the \<open>tick\<close> of a module that is Ready and not of
  the background type is called exactly once in each of them, however long the system runs: a part of the state that
  only the ticks of this module change has undergone \<open>n\<close> of them after \<open>n\<close> takts. The tick counter says the same,
  and the module is Ready again afterwards.
\<close>

theorem ready_module_ticks_every_takt:
  assumes "tame rank env" and "sched_quiet env" and "sys_ok w" and "wf_sched (sched w)"
    and "i < moduleCount (sched w)" and "me_active (modules (sched w) ! i)"
    and "ms_state (me_stats (modules (sched w) ! i)) = Ready"
    and "me_module (modules (sched w) ! i) = Some p" and "\<forall>v. m_type (e_module env p) v \<noteq> Background"
    and "\<forall>j<moduleCount (sched w). me_module (modules (sched w) ! j) = Some p \<longrightarrow> j = i"
    and "observes env view (\<lambda>q. if q = p then tick else id)"
  shows "\<exists>w'. run_takts env n w = Some w' \<and> sys_ok w' \<and> view w' = (tick ^^ n) (view w) \<and>
    ms_tickCount (me_stats (modules (sched w') ! i)) = ms_tickCount (me_stats (modules (sched w) ! i)) + of_nat n \<and>
    ms_state (me_stats (modules (sched w') ! i)) = Ready"
  using assms(3-8,10)
proof (induction n arbitrary: w)
  case (Suc n)
  obtain w1 where w1: "runTakt env w = Some w1" and ok1: "sys_ok w1"
    using runTakt_defined [OF assms(1) Suc.prems(1)] by blast
  let ?w = "e_delay env (taktPeriodMs (sched w1)) w1"
  have s: "sched ?w = sched w1" by (rule sched_quiet_simps(5) [OF assms(2)])
  have ok: "sys_ok ?w" using ok1 assms(1) by (simp add: sys_ok_def tame_def env_keeps_def)
  have wf: "wf_sched (sched w1)" "moduleCount (sched w1) = moduleCount (sched w)"
    and e: "\<forall>j<moduleCount (sched w). \<exists>p v b t. me_module (modules (sched w) ! j) = Some p \<and>
      modules (sched w1) ! j = visited env p v b t (modules (sched w) ! j)"
    using runTakt_modules [OF assms(2) Suc.prems(2) w1] by blast+
  have run: "shouldRunModule env (modules (sched w) ! i) v" for v
    using Suc.prems(4-6) assms(9) by (simp add: shouldRunModule_def)
  obtain v b t where i: "modules (sched w1) ! i = ran_entry b t (modules (sched w) ! i)"
    using e Suc.prems(3,6) run by (fastforce simp: visited_def)
  have others: "\<forall>j<moduleCount (sched w). me_module (modules (sched w1) ! j) = me_module (modules (sched w) ! j)"
    using e by fastforce
  obtain u where u: "view w1 = view (run_modules env u)" "sched u = sched w" "view u = view w"
    using assms(11,2) Suc.prems(2) w1 by (rule observe_takt)
  have wu: "wf_sched (sched u)" using u(2) Suc.prems(2) by simp
  have "view (run_modules env u) = tick (view u)"
    unfolding observe_run_modules [OF assms(11,2) wu]
  proof (rule fold_one [of i])
    show "(if shouldRunModule env (modules (sched u) ! j) (fold (run_entry env) [0..<j] u)
        then if the (me_module (modules (sched u) ! j)) = p then tick else id else id) = id"
      if "j < moduleCount (sched u)" "j \<noteq> i" for j
      using that Suc.prems(7) u(2) by (auto simp: shouldRunModule_def split: option.splits)
  qed (use Suc.prems(3,6) u(2) run in simp_all)
  then have "view ?w = tick (view w)" using u(1,3) by (simp add: observes_simps(4) [OF assms(11)])
  moreover have "\<exists>w'. run_takts env n ?w = Some w' \<and> sys_ok w' \<and> view w' = (tick ^^ n) (view ?w) \<and>
    ms_tickCount (me_stats (modules (sched w') ! i)) = ms_tickCount (me_stats (modules (sched ?w) ! i)) + of_nat n \<and>
    ms_state (me_stats (modules (sched w') ! i)) = Ready"
  proof (rule Suc.IH)
    show "\<forall>j<moduleCount (sched ?w). me_module (modules (sched ?w) ! j) = Some p \<longrightarrow> j = i"
      using Suc.prems(7) others wf(2) by (metis s)
    show "i < moduleCount (sched ?w)" using Suc.prems(3) wf(2) by (simp add: s)
    show "me_active (modules (sched ?w) ! i)" "ms_state (me_stats (modules (sched ?w) ! i)) = Ready"
      "me_module (modules (sched ?w) ! i) = Some p"
      using Suc.prems(4,6) by (simp_all add: s i)
    show "wf_sched (sched ?w)" using wf(1) by (simp add: s)
  qed (rule ok)
  moreover have "ms_tickCount (me_stats (modules (sched ?w) ! i)) = ms_tickCount (me_stats (modules (sched w) ! i)) + 1"
    by (simp add: s i)
  ultimately show ?case
    using w1 by (simp add: funpow_swap1 algebra_simps)
next
  case 0
  show ?case using "0.prems"(1,5) by simp
qed

theorem ready_module_ticks_every_takt_witness:
  "\<exists>w'. run_takts (logging (\<lambda>p. True) (\<lambda>p. Static) (\<lambda>p. True)) 1000000 demo_app = Some w' \<and>
     ms_tickCount (me_stats (modules (sched w') ! 0)) = 1000000 \<and> count_list (sched_sys.more w') 500 = 1000000"
proof -
  let ?env = "logging (\<lambda>p. True) (\<lambda>p. Static) (\<lambda>p. True)"
  have "observes ?env (\<lambda>w. count_list (sched_sys.more w) 500) (\<lambda>q. if q = 500 then Suc else id)"
    by (simp add: observes_def logging_def)
  moreover have "\<forall>j<moduleCount (sched demo_app). me_module (modules (sched demo_app) ! j) = Some 500 \<longrightarrow> j = 0"
    by (auto simp: less_2_cases_iff)
  ultimately show ?thesis
    using ready_module_ticks_every_takt [OF tame_logging quiet_logging sys_ok_demo, of 0 500 _ _ _ _ Suc 1000000]
      wf_demo_sched by (fastforce simp: new_module_stats_def logging_def)
qed

lemma run_takts_defined:
  assumes "tame rank env" and "sched_quiet env" and "sys_ok w"
  shows "\<exists>w'. run_takts env n w = Some w' \<and> sys_ok w'"
  using assms(3)
proof (induction n arbitrary: w)
  case (Suc n)
  obtain w1 where w1: "runTakt env w = Some w1" and ok1: "sys_ok w1"
    using runTakt_defined [OF assms(1) Suc.prems] by blast
  have "sys_ok (e_delay env (taktPeriodMs (sched w1)) w1)"
    using ok1 assms(1) by (simp add: sys_ok_def tame_def env_keeps_def)
  with Suc.IH w1 show ?case by simp
qed simp

lemma stopped_entry_skips:
  assumes "sched_quiet env" and "wf_sched (sched w)" and "i < moduleCount (sched w)"
    and "\<not> me_active (modules (sched w) ! i) \<or> ms_state (me_stats (modules (sched w) ! i)) \<notin> {Ready, Running}"
    and "run_takts env n w = Some w'"
  shows "\<exists>k. modules (sched w') ! i = (skipped_entry ^^ k) (modules (sched w) ! i) \<and> k \<le> n"
  using assms(2-5)
proof (induction n arbitrary: w)
  case (Suc n)
  obtain w1 where w1: "runTakt env w = Some w1"
    and w': "run_takts env n (e_delay env (taktPeriodMs (sched w1)) w1) = Some w'"
    using Suc.prems(4) by (auto split: bind_splits)
  let ?w = "e_delay env (taktPeriodMs (sched w1)) w1"
  have s: "sched ?w = sched w1" by (rule sched_quiet_simps(5) [OF assms(1)])
  obtain p v b t where wf: "wf_sched (sched w1)" "moduleCount (sched w1) = moduleCount (sched w)"
    and e: "modules (sched w1) ! i = visited env p v b t (modules (sched w) ! i)"
    using runTakt_modules [OF assms(1) Suc.prems(1) w1] Suc.prems(2) by blast
  have "\<not> shouldRunModule env (modules (sched w) ! i) v"
    using Suc.prems(3) by (auto simp: shouldRunModule_def split: option.splits)
  then obtain j where j: "j \<le> 1" "modules (sched w1) ! i = (skipped_entry ^^ j) (modules (sched w) ! i)"
    using e by (cases "m_type (e_module env p) v = Background") (force simp: visited_def)+
  have stopped: "\<not> me_active (modules (sched ?w) ! i) \<or>
      ms_state (me_stats (modules (sched ?w) ! i)) \<notin> {Ready, Running}"
    using Suc.prems(3) j by (cases j) (auto simp: s)
  obtain k where "modules (sched w') ! i = (skipped_entry ^^ k) (modules (sched ?w) ! i)" "k \<le> n"
    using Suc.IH [OF _ _ stopped w'] wf Suc.prems(2) by (auto simp: s)
  with j show ?case
    by (intro exI [of _ "k + j"]) (simp add: s funpow_add)
qed (auto intro: exI [of _ 0])

text \<open>
  A module whose \<open>init\<close> failed, that is suspended, shut down or was unregistered is never
  ticked again: its entry only ever changes its skip counter.
\<close>

theorem stopped_module_never_ticks:
  assumes "sched_quiet env" and "wf_sched (sched w)" and "i < moduleCount (sched w)"
    and "\<not> me_active (modules (sched w) ! i) \<or> ms_state (me_stats (modules (sched w) ! i)) \<notin> {Ready, Running}"
    and "run_takts env n w = Some w'"
  shows "\<exists>k. modules (sched w') ! i = (skipped_entry ^^ k) (modules (sched w) ! i) \<and> k \<le> n"
  using assms by (rule stopped_entry_skips)

theorem stopped_module_never_ticks_witness:
  "\<exists>w'. run_takts (logging (\<lambda>p. True) (\<lambda>p. Static) (\<lambda>p. True)) 3 demo_app = Some w' \<and>
     ms_tickCount (me_stats (modules (sched w') ! 1)) = 0"
proof -
  let ?env = "logging (\<lambda>p. True) (\<lambda>p. Static) (\<lambda>p. True)"
  obtain w' where w': "run_takts ?env 3 demo_app = Some w'"
    using run_takts_defined [OF tame_logging quiet_logging sys_ok_demo] by blast
  have "ms_tickCount (me_stats ((skipped_entry ^^ k) e)) = ms_tickCount (me_stats e)" for k e
    by (induction k) simp_all
  with stopped_module_never_ticks [OF quiet_logging _ _ _ w', of 1] wf_demo_sched w'
  show ?thesis by (fastforce simp: new_module_stats_def)
qed

text \<open>
  C26: within one takt the modules are ticked in registration order. Whatever the modules do with the bus, the timers and
  the application's state, a log of the ticks grows by exactly the active modules in the state Ready or Running, each
  once, in the order of the table, a background module only when it says, at its turn, that it has work; inactive
  modules and those in Error, Suspended or Shutdown are left out.
\<close>

theorem modules_tick_in_registration_order:
  assumes "observes env L (\<lambda>p l. l @ [p])" and "sched_quiet env" and "wf_sched (sched w)"
  shows "L (run_modules env w) = L w @ concat (map (\<lambda>i.
    let e = modules (sched w) ! i; p = the (me_module e); u = fold (run_entry env) [0..<i] w
    in if me_active e \<and> ms_state (me_stats e) \<in> {Ready, Running} \<and>
          (m_type (e_module env p) u = Background \<longrightarrow> m_hasWork (e_module env p) u) then [p] else [])
    [0..<moduleCount (sched w)])"
proof -
  let ?h = "\<lambda>i. if shouldRunModule env (modules (sched w) ! i) (fold (run_entry env) [0..<i] w)
    then [the (me_module (modules (sched w) ! i))] else []"
  have "fold (\<lambda>i. if shouldRunModule env (modules (sched w) ! i) (fold (run_entry env) [0..<i] w)
      then (\<lambda>l. l @ [the (me_module (modules (sched w) ! i))]) else id) [0..<n] l = l @ concat (map ?h [0..<n])" for n l
    by (induction n) auto
  then have "L (run_modules env w) = L w @ concat (map ?h [0..<moduleCount (sched w)])"
    by (simp add: observe_run_modules [OF assms])
  also have "map ?h [0..<moduleCount (sched w)] = map (\<lambda>i.
    let e = modules (sched w) ! i; p = the (me_module e); u = fold (run_entry env) [0..<i] w
    in if me_active e \<and> ms_state (me_stats e) \<in> {Ready, Running} \<and>
          (m_type (e_module env p) u = Background \<longrightarrow> m_hasWork (e_module env p) u) then [p] else [])
    [0..<moduleCount (sched w)]"
    using assms(3) by (auto simp: wf_sched_def shouldRunModule_def Let_def split: option.split)
  finally show ?thesis .
qed

theorem modules_tick_in_registration_order_witness:
  "sched_sys.more (run_modules (logging (\<lambda>p. True) (\<lambda>p. Static) (\<lambda>p. True)) demo_app) = [500]"
proof -
  have "[0..<2] = [0, 1 :: nat]" by (simp add: upt_rec)
  moreover have o: "observes (logging (\<lambda>p. True) (\<lambda>p. Static) (\<lambda>p. True)) sched_sys.more (\<lambda>p l. l @ [p])"
    by (simp add: observes_def logging_def)
  have wf: "wf_sched (sched demo_app)" using wf_demo_sched by simp
  ultimately show ?thesis
    by (simp add: modules_tick_in_registration_order [OF o quiet_logging wf]) (simp add: logging_def Let_def)
qed

lemma run_modules_stats:
  fixes w :: "'z sched_sys_scheme"
  assumes "sched_quiet env" and "wf_sched (sched w)"
  shows "sched_stats (sched (run_modules env w)) = sched_stats (sched w) \<and>
    taktBudgetUs (sched (run_modules env w)) = taktBudgetUs (sched w) \<and>
    moduleCount (sched (run_modules env w)) = moduleCount (sched w)"
proof -
  let ?I = "\<lambda>v. wf_sched (sched v) \<and> sched_stats (sched v) = sched_stats (sched w) \<and>
    taktBudgetUs (sched v) = taktBudgetUs (sched w) \<and> moduleCount (sched v) = moduleCount (sched w)"
  have "?I (run_modules env w)"
    unfolding run_modules_def
  proof (rule for_modules_inv [where I = ?I])
    fix i and v :: "'z sched_sys_scheme"
    assume I: "?I v" and i: "i < moduleCount (sched v)"
    obtain p u b t where "sched (run_entry env i v) = update_entry i (visited env p u b t) (sched v)"
      using assms(1) conjunct1 [OF I] i by (rule run_entry_visited)
    with I i show "?I (run_entry env i v)" by (simp add: wf_update_entry)
  qed (simp add: assms(2))
  then show ?thesis by simp
qed

text \<open>
  A takt that returns counts one more takt, its maximum never goes down and
  bounds the last measurement, and the overrun counter goes up exactly when a budget is set
  and was exceeded.
\<close>

theorem takt_statistics:
  assumes "sched_quiet env" and "wf_sched (sched w)" and "runTakt env w = Some w'"
  shows "let st = sched_stats (sched w); st' = sched_stats (sched w') in
    ss_totalTakts st' = ss_totalTakts st + 1 \<and>
    ss_totalTaktUs st' = ss_totalTaktUs st + ss_lastTaktUs st' \<and>
    ss_maxTaktUs st' = max (ss_maxTaktUs st) (ss_lastTaktUs st') \<and>
    ss_registeredModules st' = of_nat (moduleCount (sched w)) \<and>
    ss_overrunCount st' = ss_overrunCount st +
      (if taktBudgetUs (sched w) \<noteq> 0 \<and> ucast (taktBudgetUs (sched w)) < ss_lastTaktUs st' then 1 else 0)"
proof -
  obtain t w1 where w1: "e_nowUs env w = (t, w1)" by (cases "e_nowUs env w")
  with assms(3) obtain w2 w3 where w2: "tmgr_tick (e_timerCallbacks env) (taktPeriodMs (sched w1)) w1 = Some w2"
    and w3: "dispatchQueued (e_handlers env) w2 = Some w3"
    and w': "w' = finish_takt env t (run_modules env (e_wdtReset env w3))"
    by (auto simp: runTakt_def split: bind_splits)
  have s: "sched (e_wdtReset env w3) = sched w"
    using sched_quiet_simps(1) [OF assms(1) w1] sched_tmgr_tick [OF assms(1) w2]
      sched_dispatchQueued [OF assms(1) w3] by (simp add: sched_quiet_simps(4) [OF assms(1)])
  let ?v = "run_modules env (e_wdtReset env w3)"
  have v: "sched_stats (sched ?v) = sched_stats (sched w)" "taktBudgetUs (sched ?v) = taktBudgetUs (sched w)"
    "moduleCount (sched ?v) = moduleCount (sched w)"
    using run_modules_stats [OF assms(1), of "e_wdtReset env w3"] s assms(2) by simp_all
  obtain t1 v1 where v1: "e_nowUs env ?v = (t1, v1)" by (cases "e_nowUs env ?v")
  have s1: "sched v1 = sched ?v" using assms(1) v1 by (rule sched_quiet_simps(1))
  show ?thesis
    by (auto simp: w' finish_takt_def v1 Let_def sched_publish [OF assms(1)] account_takt_def s1 v
        over_budget_def max_def word_neq_0_conv)
qed

theorem takt_statistics_witness:
  "\<exists>w'. runTakt (logging (\<lambda>p. True) (\<lambda>p. Static) (\<lambda>p. True)) demo_app = Some w' \<and>
     ss_totalTakts (sched_stats (sched w')) = 1"
proof -
  obtain w' where w': "runTakt (logging (\<lambda>p. True) (\<lambda>p. Static) (\<lambda>p. True)) demo_app = Some w'"
    using runTakt_defined [OF tame_logging sys_ok_demo] by blast
  have "ss_totalTakts (sched_stats demo_sched) = 0" by (simp add: demo_sched_def new_scheduler_def)
  with takt_statistics [OF quiet_logging _ w'] wf_demo_sched w' show ?thesis by (simp add: Let_def)
qed

text \<open>
  the takt loop has no exit: \<open>run\<close> never returns, not even after a shutdown request
  from inside a module or a handler.
\<close>

theorem run_scheduler_never_returns:
  fixes w :: "'z sched_sys_scheme"
  shows "run_scheduler env w = None"
proof (rule ccontr)
  assume "run_scheduler env w \<noteq> None"
  then obtain r where r: "run_scheduler env w = Some r" by blast
  show False
    by (rule run_scheduler.raw_induct [where P = "\<lambda>_ (_ :: 'z sched_sys_scheme) (_ :: 'z sched_sys_scheme). False", OF _ r])
      (auto split: bind_splits)
qed

end
