(* ===== verification/Storage.thy ===== *)
theory Storage
  imports Takt_Prelude
begin

text \<open>
  Flash access: \<open>kernel/include/takt/storage_manager.hpp\<close>,
  \<open>kernel/src/storage_manager.cpp\<close>, the partition backend of
  \<open>drivers/src/flash_backend.cpp\<close> and the memory backend of
  \<open>tests/test_firmware_cache.cpp\<close>.

  A backend is a record of functions on a device state \<open>'f\<close>; an empty \<open>std::function\<close> is
  \<open>None\<close>. Sizes and offsets are 32-bit words, so that \<open>offset + len\<close> wraps as on the
  target. The interface the clients rely on is the locale \<open>flash_device\<close>.
\<close>


section \<open>State\<close>

record 'f flash_backend =
  fb_read :: "(u32 \<Rightarrow> u32 \<Rightarrow> 'f \<Rightarrow> int \<times> bytes) option"
  fb_write :: "(u32 \<Rightarrow> bytes \<Rightarrow> 'f \<Rightarrow> int \<times> 'f) option"
  fb_erase :: "(u32 \<Rightarrow> u32 \<Rightarrow> 'f \<Rightarrow> int \<times> 'f) option"
  fb_totalSize :: u32
  fb_sectorSize :: u32

record flash_region =
  fr_offset :: u32
  fr_size :: u32
  fr_label :: string

record named_region =
  nr_name :: string
  nr_region :: flash_region
  nr_active :: bool

record 'f storage_sys =
  backend :: "'f flash_backend"
  regions :: "named_region list"
  regionCount :: nat
  device :: 'f

definition kMaxRegions :: nat where
  "kMaxRegions = 16"

definition no_backend :: "'f flash_backend" where
  "no_backend = \<lparr>fb_read = None, fb_write = None, fb_erase = None, fb_totalSize = 0, fb_sectorSize = 4096\<rparr>"

definition new_region :: named_region where
  "new_region = \<lparr>nr_name = [], nr_region = \<lparr>fr_offset = 0, fr_size = 0, fr_label = []\<rparr>, nr_active = False\<rparr>"

definition new_storage :: "'f \<Rightarrow> 'f storage_sys" where
  "new_storage d = \<lparr>backend = no_backend, regions = replicate kMaxRegions new_region, regionCount = 0,
     device = d\<rparr>"


section \<open>Operations\<close>

definition storage_init :: "'f flash_backend \<Rightarrow> ('f, 'z) storage_sys_scheme \<Rightarrow> bool \<times> ('f, 'z) storage_sys_scheme" where
  "storage_init b s =
     (if fb_read b = None \<or> fb_write b = None \<or> fb_erase b = None then (False, s)
      else (True, s\<lparr>backend := b\<rparr>))"

definition storage_read :: "u32 \<Rightarrow> u32 \<Rightarrow> ('f, 'z) storage_sys_scheme \<Rightarrow> int \<times> bytes" where
  "storage_read offset len s =
     (case fb_read (backend s) of None \<Rightarrow> (-1, [])
      | Some rd \<Rightarrow> if fb_totalSize (backend s) < offset + len then (-1, [])
                   else rd offset len (device s))"

text \<open>
  The loop over the sectors \<open>startSector .. endSector\<close>. (The 32-bit counter could only run
  past the last sector for a sector cap of one byte.)
\<close>

primrec erase_sectors :: "(u32 \<Rightarrow> u32 \<Rightarrow> 'f \<Rightarrow> int \<times> 'f) \<Rightarrow> u32 \<Rightarrow> nat list \<Rightarrow> 'f \<Rightarrow> bool \<times> 'f" where
  "erase_sectors er sector [] d = (True, d)"
| "erase_sectors er sector (n # ns) d =
     (case er (of_nat n * sector) sector d of (rc, d1) \<Rightarrow>
        if rc \<noteq> 0 then (False, d1) else erase_sectors er sector ns d1)"

text \<open>
  The last case of \<open>storage_write\<close> is the test of an empty \<open>write\<close>. An empty \<open>erase\<close> beside a write function, on which
  the code would throw, does not arise: see \<open>whole_backend\<close>.
\<close>

definition storage_write ::
  "u32 \<Rightarrow> bytes \<Rightarrow> ('f, 'z) storage_sys_scheme \<Rightarrow> int \<times> ('f, 'z) storage_sys_scheme" where
  "storage_write offset buf s =
     (case (fb_write (backend s), fb_erase (backend s)) of
        (Some wr, Some er) \<Rightarrow>
          let len = of_nat (length buf); sector = fb_sectorSize (backend s) in
          if fb_totalSize (backend s) < offset + len then (-1, s)
          else let startSector = offset div sector; endSector = (offset + len - 1) div sector in
            (case erase_sectors er sector [unat startSector..<Suc (unat endSector)] (device s) of
               (ok, d1) \<Rightarrow>
                 if \<not> ok then (-1, s\<lparr>device := d1\<rparr>)
                 else (case wr offset buf d1 of (rc, d2) \<Rightarrow> (rc, s\<lparr>device := d2\<rparr>)))
      | _ \<Rightarrow> (-1, s))"

definition eraseSector :: "u32 \<Rightarrow> ('f, 'z) storage_sys_scheme \<Rightarrow> int \<times> ('f, 'z) storage_sys_scheme" where
  "eraseSector offset s =
     (case fb_erase (backend s) of None \<Rightarrow> (-1, s)
      | Some er \<Rightarrow> (case er offset (fb_sectorSize (backend s)) (device s) of (rc, d) \<Rightarrow> (rc, s\<lparr>device := d\<rparr>)))"

text \<open>Region names are copied into 32 bytes, with room for 31 characters.\<close>

definition registerRegion ::
  "string \<Rightarrow> u32 \<Rightarrow> u32 \<Rightarrow> ('f, 'z) storage_sys_scheme \<Rightarrow> bool \<times> ('f, 'z) storage_sys_scheme" where
  "registerRegion name offset cap s =
     (if kMaxRegions \<le> regionCount s then (False, s)
      else (True, s\<lparr>regions := (regions s)[regionCount s :=
                 \<lparr>nr_name = take 31 name,
                  nr_region = \<lparr>fr_offset = offset, fr_size = cap, fr_label = take 31 name\<rparr>,
                  nr_active = True\<rparr>],
               regionCount := regionCount s + 1\<rparr>))"

definition getRegion :: "string \<Rightarrow> ('f, 'z) storage_sys_scheme \<Rightarrow> flash_region option" where
  "getRegion name s =
     map_option (\<lambda>i. nr_region (regions s ! i))
       (find_index (\<lambda>r. nr_active r \<and> nr_name r = name) (take (regionCount s) (regions s)))"


text \<open>\<open>init\<close> takes over a backend only when none of its functions is empty; otherwise the old one stays.\<close>

definition whole_backend :: "'f flash_backend \<Rightarrow> bool" where
  "whole_backend b \<longleftrightarrow> (fb_read b = None \<longleftrightarrow> fb_erase b = None) \<and> (fb_write b = None \<longleftrightarrow> fb_erase b = None)"

lemma whole_new_storage: "whole_backend (backend (new_storage d))"
  by (simp add: whole_backend_def new_storage_def no_backend_def)

lemma whole_storage_init: "whole_backend (backend s) \<Longrightarrow> whole_backend (backend (snd (storage_init b s)))"
  by (auto simp: whole_backend_def storage_init_def)

lemma backend_operations:
  "backend (snd (storage_write offset buf s)) = backend s" "backend (snd (eraseSector offset s)) = backend s"
  "backend (snd (registerRegion name offset cap s)) = backend s"
  by (auto simp: storage_write_def eraseSector_def registerRegion_def Let_def split: option.split prod.split)


section \<open>Backends\<close>

text \<open>
  The backend of \<open>createPartitionBackend\<close>. A partition of the vendor SDK is the parameter: its
  cap and its read, write and erase functions, which fail or succeed (\<open>ESP_OK\<close>);
  \<open>lookup\<close> is \<open>esp_partition_find_first\<close>, which finds nothing on the host.
\<close>

record 'f esp_partition =
  ep_size :: u32
  ep_read :: "u32 \<Rightarrow> u32 \<Rightarrow> 'f \<Rightarrow> bytes option"
  ep_write :: "u32 \<Rightarrow> bytes \<Rightarrow> 'f \<Rightarrow> bool \<times> 'f"
  ep_erase :: "u32 \<Rightarrow> u32 \<Rightarrow> 'f \<Rightarrow> bool \<times> 'f"

definition partitionRead :: "'f esp_partition \<Rightarrow> u32 \<Rightarrow> u32 \<Rightarrow> 'f \<Rightarrow> int \<times> bytes" where
  "partitionRead part offset len d =
     (if ep_size part < offset + len then (-1, [])
      else case ep_read part offset len d of Some buf \<Rightarrow> (sint len, buf) | None \<Rightarrow> (-1, []))"

definition partitionWrite :: "'f esp_partition \<Rightarrow> u32 \<Rightarrow> bytes \<Rightarrow> 'f \<Rightarrow> int \<times> 'f" where
  "partitionWrite part offset buf d =
     (let len = of_nat (length buf) in
      if ep_size part < offset + len then (-1, d)
      else case ep_write part offset buf d of (ok, d') \<Rightarrow> (if ok then sint (len :: u32) else -1, d'))"

definition partitionErase :: "'f esp_partition \<Rightarrow> u32 \<Rightarrow> u32 \<Rightarrow> 'f \<Rightarrow> int \<times> 'f" where
  "partitionErase part offset len d =
     (case ep_erase part offset len d of (ok, d') \<Rightarrow> (if ok then 0 else -1, d'))"

definition createPartitionBackend ::
  "(string \<Rightarrow> 'f esp_partition option) \<Rightarrow> string \<Rightarrow> 'f flash_backend \<Rightarrow> bool \<times> 'f flash_backend" where
  "createPartitionBackend lookup label b =
     (case lookup label of None \<Rightarrow> (False, b)
      | Some part \<Rightarrow> (True, b\<lparr>fb_read := Some (partitionRead part), fb_write := Some (partitionWrite part),
          fb_erase := Some (partitionErase part), fb_totalSize := ep_size part, fb_sectorSize := 4096\<rparr>))"

definition createStorageBackend ::
  "(string \<Rightarrow> 'f esp_partition option) \<Rightarrow> 'f flash_backend \<Rightarrow> bool \<times> 'f flash_backend" where
  "createStorageBackend lookup b = createPartitionBackend lookup ''storage'' b"

definition initStorageFromPartition ::
  "(string \<Rightarrow> 'f esp_partition option) \<Rightarrow> string \<Rightarrow> ('f, 'z) storage_sys_scheme \<Rightarrow> bool \<times> ('f, 'z) storage_sys_scheme" where
  "initStorageFromPartition lookup label s =
     (case createPartitionBackend lookup label no_backend of (ok, b) \<Rightarrow>
        if \<not> ok then (False, s) else storage_init b s)"

text \<open>
  The memory backend of the tests, for any array size: the bounds check is made with the
  64-bit \<open>size_t\<close> of the host and does not wrap.
\<close>

definition mem_read :: "nat \<Rightarrow> u32 \<Rightarrow> u32 \<Rightarrow> memory \<Rightarrow> int \<times> bytes" where
  "mem_read cap off len m =
     (if cap < unat off + unat len then (-1, []) else (sint len, mem_get m (unat off) (unat len)))"

definition mem_write :: "nat \<Rightarrow> u32 \<Rightarrow> bytes \<Rightarrow> memory \<Rightarrow> int \<times> memory" where
  "mem_write cap off buf m =
     (if cap < unat off + length buf then (-1, m) else (int (length buf), mem_put m (unat off) buf))"

definition mem_erase :: "nat \<Rightarrow> u32 \<Rightarrow> u32 \<Rightarrow> memory \<Rightarrow> int \<times> memory" where
  "mem_erase cap off len m =
     (if cap < unat off + unat len then (-1, m) else (0, mem_fill m (unat off) (unat len) 0xFF))"

definition mem_backend :: "nat \<Rightarrow> nat \<Rightarrow> memory flash_backend" where
  "mem_backend cap sector = \<lparr>fb_read = Some (mem_read cap), fb_write = Some (mem_write cap),
     fb_erase = Some (mem_erase cap), fb_totalSize = of_nat cap, fb_sectorSize = of_nat sector\<rparr>"


section \<open>The contract of a flash device\<close>

text \<open>
  What the kernel relies on: reads return the cells; a write to erased cells stores the
  bytes; erasing whole sectors sets them to 0xFF. Nothing is promised about writes to cells
  that are not erased, as on NOR flash. \<open>cells\<close> is the content of the device.
\<close>

locale flash_device =
  fixes b :: "'f flash_backend"
    and rd :: "u32 \<Rightarrow> u32 \<Rightarrow> 'f \<Rightarrow> int \<times> bytes"
    and wr :: "u32 \<Rightarrow> bytes \<Rightarrow> 'f \<Rightarrow> int \<times> 'f"
    and er :: "u32 \<Rightarrow> u32 \<Rightarrow> 'f \<Rightarrow> int \<times> 'f"
    and cells :: "'f \<Rightarrow> memory"
    and cap sector :: nat
  assumes backend_fields: "fb_read b = Some rd" "fb_write b = Some wr" "fb_erase b = Some er"
      "fb_totalSize b = of_nat cap" "fb_sectorSize b = of_nat sector"
    and geometry: "0 < sector" "sector dvd cap" "cap < 2 ^ 31"
    and rd_law: "unat off + unat len \<le> cap \<Longrightarrow>
        rd off len d = (int (unat len), mem_get (cells d) (unat off) (unat len))"
    and wr_law: "unat off + length buf \<le> cap \<Longrightarrow>
        \<forall>x. unat off \<le> x \<and> x < unat off + length buf \<longrightarrow> cells d x = 0xFF \<Longrightarrow>
        \<exists>d'. wr off buf d = (int (length buf), d') \<and> cells d' = mem_put (cells d) (unat off) buf"
    and er_law: "sector dvd unat off \<Longrightarrow> unat off + sector \<le> cap \<Longrightarrow>
        \<exists>d'. er off (of_nat sector) d = (0, d') \<and> cells d' = mem_fill (cells d) (unat off) sector 0xFF"

text \<open>First sector boundary at or below an address, and first one above the last byte.\<close>

definition sector_lo :: "nat \<Rightarrow> nat \<Rightarrow> nat" where
  "sector_lo sector a = a div sector * sector"

definition sector_hi :: "nat \<Rightarrow> nat \<Rightarrow> nat \<Rightarrow> nat" where
  "sector_hi sector a n = Suc ((a + n - 1) div sector) * sector"

text \<open>The content after \<open>StorageManager::write\<close>: the touched sectors are erased first.\<close>

definition flash_store :: "nat \<Rightarrow> nat \<Rightarrow> bytes \<Rightarrow> memory \<Rightarrow> memory" where
  "flash_store sector a buf m =
     mem_put (mem_fill m (sector_lo sector a) (sector_hi sector a (length buf) - sector_lo sector a) 0xFF) a buf"

lemma sector_bounds:
  assumes "0 < sector" and "0 < n"
  shows "sector_lo sector a \<le> a" and "a + n \<le> sector_hi sector a n"
    and "sector dvd cap \<Longrightarrow> a + n \<le> cap \<Longrightarrow> sector_hi sector a n \<le> cap"
proof -
  show "sector_lo sector a \<le> a" by (simp add: sector_lo_def)
  have "a + n - 1 < Suc ((a + n - 1) div sector) * sector"
    using assms(1) by (metis dividend_less_div_times mult_Suc add.commute)
  then show "a + n \<le> sector_hi sector a n" using assms(2) by (simp add: sector_hi_def)
  assume "sector dvd cap" and "a + n \<le> cap"
  then obtain k where k: "cap = k * sector" by (metis dvd_def mult.commute)
  have "(a + n - 1) div sector < k"
    using assms \<open>a + n \<le> cap\<close> k by (simp add: div_less_iff_less_mult)
  then show "sector_hi sector a n \<le> cap" unfolding sector_hi_def k by (intro mult_le_mono1) simp
qed

context flash_device
begin

lemma unat_size: "unat (of_nat cap :: u32) = cap" "n \<le> cap \<Longrightarrow> unat (of_nat n :: u32) = n"
  using geometry(3) by (simp_all add: unat_of_nat)

lemma sector_le: "0 < cap \<Longrightarrow> sector \<le> cap"
  using geometry(2) by (simp add: dvd_imp_le)

lemma read_ok:
  assumes "backend s = b" and "unat off + unat len \<le> cap"
  shows "storage_read off len s = (int (unat len), mem_get (cells (device s)) (unat off) (unat len))"
proof -
  have "unat (off + len) = unat off + unat len"
    using assms(2) geometry(3) by (simp add: unat_word_ariths)
  then have "\<not> fb_totalSize b < off + len"
    using assms(2) unat_size(1) by (simp add: backend_fields word_less_nat_alt)
  then show ?thesis
    using assms by (simp add: storage_read_def backend_fields rd_law)
qed

lemma erase_range:
  assumes "i \<le> j" and "j * sector \<le> cap"
  shows "\<exists>d'. erase_sectors er (of_nat sector) [i..<j] d = (True, d') \<and>
    cells d' = mem_fill (cells d) (i * sector) (j * sector - i * sector) 0xFF"
  using assms
proof (induction "j - i" arbitrary: i d)
  case 0
  then show ?case by simp
next
  case (Suc k)
  then have lt: "i < j" by simp
  have le: "Suc i * sector \<le> cap" using lt Suc.prems(2) by (meson Suc_leI le_trans mult_le_mono1)
  then have u: "unat (of_nat i * of_nat sector :: u32) = i * sector"
    by (metis (no_types) add_leD2 mult_Suc of_nat_mult unat_size(2))
  obtain d1 where d1: "er (of_nat i * of_nat sector) (of_nat sector) d = (0, d1)"
    "cells d1 = mem_fill (cells d) (i * sector) sector 0xFF"
    using er_law [of "of_nat i * of_nat sector" d] u le by auto
  have "k = j - Suc i" using Suc.hyps(2) by simp
  from Suc.hyps(1) [OF this, of d1] lt Suc.prems(2) obtain d2 where
    d2: "erase_sectors er (of_nat sector) [Suc i..<j] d1 = (True, d2)"
    "cells d2 = mem_fill (cells d1) (Suc i * sector) (j * sector - Suc i * sector) 0xFF"
    by auto
  have "Suc i * sector \<le> j * sector" using lt by (intro mult_le_mono1) simp
  then have "cells d2 = mem_fill (cells d) (i * sector) (j * sector - i * sector) 0xFF"
    using mem_fill_fill [of "cells d" "i * sector" sector "0xFF" "j * sector - Suc i * sector"]
    by (simp add: d1(2) d2(2) add.commute)
  then show ?case using lt d1(1) d2(1) by (simp add: upt_conv_Cons)
qed

lemma write_ok:
  assumes "backend s = b" and "buf \<noteq> []" and "unat off + length buf \<le> cap"
  shows "\<exists>d'. storage_write off buf s = (int (length buf), s\<lparr>device := d'\<rparr>) \<and>
    cells d' = flash_store sector (unat off) buf (cells (device s))"
proof -
  let ?n = "length buf" and ?a = "unat off"
  have n: "0 < ?n" using assms(2) by simp
  have len: "unat (of_nat ?n :: u32) = ?n" using assms(3) unat_size(2) by simp
  have sum: "unat (off + of_nat ?n) = ?a + ?n"
    using assms(3) geometry(3) len by (simp add: unat_word_ariths)
  then have inb: "\<not> fb_totalSize b < off + of_nat ?n"
    using assms(3) unat_size(1) by (simp add: backend_fields word_less_nat_alt)
  have last: "unat (off + of_nat ?n - 1) = ?a + ?n - 1"
  proof -
    have "off + of_nat ?n - 1 = off + of_nat (?n - 1)" using n by (cases ?n) simp_all
    moreover have "unat (off + of_nat (?n - 1)) = ?a + (?n - 1)"
      using assms(3) geometry(3) by (subst unat_u32_add) (simp_all add: unat_u32_of_nat)
    ultimately have "unat (off + of_nat ?n - 1) = ?a + (?n - 1)" by (simp only:)
    then show ?thesis using n by simp
  qed
  have sec: "unat (of_nat sector :: u32) = sector"
    using sector_le n assms(3) by (simp add: unat_size(2))
  let ?i = "?a div sector" and ?j = "Suc ((?a + ?n - 1) div sector)"
  have bnds: "sector_lo sector ?a \<le> ?a" "?a + ?n \<le> sector_hi sector ?a ?n" "sector_hi sector ?a ?n \<le> cap"
    using sector_bounds [OF geometry(1) n] geometry(2) assms(3) by auto
  have ij: "?i \<le> ?j" using div_le_mono [of ?a "?a + ?n - 1" sector] n by linarith
  obtain d1 where d1: "erase_sectors er (of_nat sector) [?i..<?j] (device s) = (True, d1)"
    "cells d1 = mem_fill (cells (device s)) (sector_lo sector ?a) (sector_hi sector ?a ?n - sector_lo sector ?a) 0xFF"
    using erase_range [OF ij] bnds(3) unfolding sector_lo_def sector_hi_def by blast
  have "\<forall>x. ?a \<le> x \<and> x < ?a + ?n \<longrightarrow> cells d1 x = 0xFF"
    using bnds by (simp add: d1(2) mem_fill_def)
  then obtain d2 where d2: "wr off buf d1 = (int ?n, d2)" "cells d2 = mem_put (cells d1) ?a buf"
    using wr_law assms(3) by blast
  have "storage_write off buf s = (int ?n, s\<lparr>device := d2\<rparr>)"
    using assms(1) inb d1(1) d2(1)
    by (simp add: storage_write_def backend_fields Let_def unat_div sec last del: upt_Suc)
  then show ?thesis using d1(2) d2(2) by (auto simp: flash_store_def)
qed

end

lemma mem_backend_flash:
  assumes "0 < sector" and "sector dvd cap" and "cap < 2 ^ 31"
  shows "flash_device (mem_backend cap sector) (mem_read cap) (mem_write cap) (mem_erase cap) id cap sector"
proof
  fix off len :: u32 and d :: memory
  assume "unat off + unat len \<le> cap"
  moreover from this have "sint (len :: u32) = int (unat len)"
    using assms(3) by (simp add: sint_u32)
  ultimately show "mem_read cap off len d = (int (unat len), mem_get (id d) (unat off) (unat len))"
    by (simp add: mem_read_def)
next
  fix off :: u32 and d :: memory
  assume "sector dvd unat off" and le: "unat off + sector \<le> cap"
  then have "unat (of_nat sector :: u32) = sector" using assms(3) by (simp add: unat_of_nat)
  with le show "\<exists>d'. mem_erase cap off (of_nat sector) d = (0, d') \<and> id d' = mem_fill (id d) (unat off) sector 0xFF"
    by (simp add: mem_erase_def)
qed (use assms in \<open>simp_all add: mem_backend_def mem_write_def\<close>)

text \<open>The backend of the tests: 64 KiB in sectors of 4 KiB.\<close>

interpretation testflash: flash_device "mem_backend 65536 4096" "mem_read 65536" "mem_write 65536"
  "mem_erase 65536" id 65536 4096
  by (rule mem_backend_flash) simp_all


section \<open>Properties\<close>

lemma flash_store_get [simp]: "mem_get (flash_store sector a buf m) a (length buf) = buf"
  by (simp add: flash_store_def)

lemma flash_store_outside:
  "0 < sector \<Longrightarrow> buf \<noteq> [] \<Longrightarrow> x < sector_lo sector a \<or> sector_hi sector a (length buf) \<le> x \<Longrightarrow>
   flash_store sector a buf m x = m x"
  using sector_bounds [of sector "length buf" a] by (auto simp: flash_store_def mem_put_def mem_fill_def)

lemma flash_store_erased:
  "sector_lo sector a \<le> x \<Longrightarrow> x < sector_hi sector a (length buf) \<Longrightarrow> x < a \<or> a + length buf \<le> x \<Longrightarrow>
   flash_store sector a buf m x = 0xFF"
  by (auto simp: flash_store_def mem_put_def mem_fill_def)

text \<open>
  C27: on every device that honours the flash contract, a write inside the device returns the
  length, the bytes read back are the ones written, every other byte of the sectors that it
  touches becomes 0xFF and no byte of another sector changes.
\<close>

theorem storage_write_functional:
  assumes "flash_device b rd wr er cells cap sector" and "backend s = b"
    and "buf \<noteq> []" and "unat off + length buf \<le> cap"
  shows "\<exists>s'. storage_write off buf s = (int (length buf), s') \<and>
    storage_read off (of_nat (length buf)) s' = (int (length buf), buf) \<and>
    (\<forall>x. x < sector_lo sector (unat off) \<or> sector_hi sector (unat off) (length buf) \<le> x \<longrightarrow>
       cells (device s') x = cells (device s) x) \<and>
    (\<forall>x. sector_lo sector (unat off) \<le> x \<and> x < sector_hi sector (unat off) (length buf) \<and>
       (x < unat off \<or> unat off + length buf \<le> x) \<longrightarrow> cells (device s') x = 0xFF)"
proof -
  obtain d' where w: "storage_write off buf s = (int (length buf), s\<lparr>device := d'\<rparr>)"
    and d': "cells d' = flash_store sector (unat off) buf (cells (device s))"
    using flash_device.write_ok [OF assms] by blast
  have u: "unat (of_nat (length buf) :: u32) = length buf"
    using flash_device.unat_size(2) [OF assms(1)] assms(4) by simp
  have r: "storage_read off (of_nat (length buf)) (s\<lparr>device := d'\<rparr>) = (int (length buf), buf)"
    using flash_device.read_ok [OF assms(1), of "s\<lparr>device := d'\<rparr>" off "of_nat (length buf)"] assms(2,4) u
    by (simp add: d')
  have "0 < sector" using assms(1) by (simp add: flash_device_def)
  with w r assms(3) show ?thesis
    by (auto simp: d' flash_store_outside flash_store_erased)
qed

text \<open>A storage manager on the test backend with zeroed memory.\<close>

definition test_storage :: "memory storage_sys" where
  "test_storage = snd (storage_init (mem_backend 65536 4096) (new_storage (\<lambda>_. 0)))"

lemma test_storage_simps [simp]:
  "backend test_storage = mem_backend 65536 4096" "device test_storage = (\<lambda>_. 0)"
  by (simp_all add: test_storage_def storage_init_def new_storage_def mem_backend_def)

theorem storage_write_functional_witness:
  "storage_read 100 3 (snd (storage_write 100 [1, 2, 3] test_storage)) = (3, [1, 2, 3])"
  using storage_write_functional [OF testflash.flash_device_axioms test_storage_simps(1), of "[1, 2, 3]" 100]
  by auto

text \<open>
  the bounds check is done in 32 bits. A range whose end wraps past zero passes it and is
  handed to the backend although it ends beyond the device.
\<close>

theorem storage_bounds_check_wraps:
  assumes "fb_read (backend s) = Some rd"
    and "2 ^ 32 \<le> unat off + unat len" and "unat off + unat len - 2 ^ 32 \<le> unat (fb_totalSize (backend s))"
  shows "storage_read off len s = rd off len (device s) \<and>
    unat (fb_totalSize (backend s)) < unat off + unat len"
proof -
  note bnd = u32_less [of off] u32_less [of len] u32_less [of "fb_totalSize (backend s)"]
  have "unat (off + len) = unat off + unat len - 4294967296"
    using assms(2) by (simp add: unat_u32_add_wrap)
  then have "\<not> fb_totalSize (backend s) < off + len"
    using assms(3) by (simp add: word_less_nat_alt)
  with assms bnd show ?thesis by (simp add: storage_read_def)
qed

theorem storage_bounds_check_wraps_witness:
  "storage_read 0xFFFFFFF0 0x20 test_storage = mem_read 65536 0xFFFFFFF0 0x20 (device test_storage)"
  using storage_bounds_check_wraps [of test_storage "mem_read 65536" "0xFFFFFFF0" "0x20"]
  by (simp add: mem_backend_def)

lemma erase_sectors_stop:
  assumes "i < n" and "erase_sectors er sector [0..<i] d = (True, d1)"
    and "er (of_nat i * sector) sector d1 = (rc, d2)" and "rc \<noteq> 0"
  shows "erase_sectors er sector [0..<n] d = (False, d2)"
proof -
  have app: "erase_sectors er sector (xs @ ys) m = (case erase_sectors er sector xs m of (ok, m1) \<Rightarrow>
      if ok then erase_sectors er sector ys m1 else (False, m1))" for xs ys m
    by (induction xs arbitrary: m) (auto split: prod.split)
  show ?thesis using assms(2-4) by (simp add: upt_split_at [OF assms(1)] app)
qed

text \<open>
  a write of no bytes at offset 0 is not a no-op: \<open>offset + len - 1\<close> wraps, the erase
  loop runs over the whole device and only stops, with an error, when it leaves it.
\<close>

theorem empty_write_erases_device:
  fixes s :: "(memory, 'z) storage_sys_scheme"
  assumes "backend s = mem_backend 65536 4096"
  shows "storage_write 0 [] s = (-1, s\<lparr>device := mem_fill (device s) 0 65536 0xFF\<rparr>)"
proof -
  obtain d where d: "erase_sectors (mem_erase 65536) 4096 [0..<16] (device s) = (True, d)"
    "d = mem_fill (device s) 0 65536 0xFF"
    using testflash.erase_range [of 0 16 "device s"] by auto
  have "erase_sectors (mem_erase 65536) 4096 [0..<1048576] (device s) = (False, d)"
    by (rule erase_sectors_stop [OF _ d(1), where rc = "-1"]) (simp_all add: mem_erase_def)
  then show ?thesis
    using assms by (simp add: storage_write_def mem_backend_def Let_def d(2) del: upt_rec_numeral upt_Suc)
qed

theorem empty_write_erases_device_witness:
  "fst (storage_write 0 [] test_storage) = -1 \<and>
   device (snd (storage_write 0 [] test_storage)) 40000 = 0xFF"
  using empty_write_erases_device [OF test_storage_simps(1)] by (simp add: mem_fill_def)

text \<open>
  Regions: looking up a registered name of at most 31 characters gives its region, and does
  not disturb other names. Longer names are truncated and not found.
\<close>

definition wf_regions :: "('f, 'z) storage_sys_scheme \<Rightarrow> bool" where
  "wf_regions s \<longleftrightarrow> length (regions s) = kMaxRegions \<and> regionCount s \<le> kMaxRegions"

lemma getRegion_registerRegion:
  assumes "wf_regions s" and "regionCount s < kMaxRegions"
  shows "getRegion n (snd (registerRegion name off len s)) =
    (case getRegion n s of Some r \<Rightarrow> Some r
     | None \<Rightarrow> if n = take 31 name then Some \<lparr>fr_offset = off, fr_size = len, fr_label = take 31 name\<rparr> else None)"
proof -
  let ?r = "\<lparr>nr_name = take 31 name, nr_region = \<lparr>fr_offset = off, fr_size = len, fr_label = take 31 name\<rparr>,
     nr_active = True\<rparr>"
  let ?P = "\<lambda>r. nr_active r \<and> nr_name r = n"
  have lt: "regionCount s < length (regions s)" using assms by (simp add: wf_regions_def)
  have tk: "take (Suc (regionCount s)) ((regions s)[regionCount s := ?r]) = take (regionCount s) (regions s) @ [?r]"
    using lt by (simp add: take_Suc_conv_app_nth)
  show ?thesis
  proof (cases "find_index ?P (take (regionCount s) (regions s))")
    case None
    then show ?thesis
      using assms(2) lt
      by (cases "n = take 31 name")
        (simp_all add: getRegion_def registerRegion_def tk find_index_append del: find_index_None)
  next
    case (Some i)
    then have "i < regionCount s" using lt find_index_less by fastforce
    with Some show ?thesis
      using assms(2) by (simp add: getRegion_def registerRegion_def tk find_index_append)
  qed
qed

text \<open>The backend of a partition, and that it honours the flash contract if the partition does.\<close>

definition partition_backend :: "'f esp_partition \<Rightarrow> 'f flash_backend" where
  "partition_backend part = no_backend\<lparr>fb_read := Some (partitionRead part), fb_write := Some (partitionWrite part),
     fb_erase := Some (partitionErase part), fb_totalSize := ep_size part, fb_sectorSize := 4096\<rparr>"

lemma partition_flash:
  assumes "ep_size part = of_nat cap" and "4096 dvd cap" and "cap < 2 ^ 31"
    and "\<And>off len d. unat off + unat len \<le> cap \<Longrightarrow>
       ep_read part off len d = Some (mem_get (cells d) (unat off) (unat len))"
    and "\<And>off buf d. unat off + length buf \<le> cap \<Longrightarrow>
       \<forall>x. unat off \<le> x \<and> x < unat off + length buf \<longrightarrow> cells d x = 0xFF \<Longrightarrow>
       \<exists>d'. ep_write part off buf d = (True, d') \<and> cells d' = mem_put (cells d) (unat off) buf"
    and "\<And>off d. 4096 dvd unat off \<Longrightarrow> unat off + 4096 \<le> cap \<Longrightarrow>
       \<exists>d'. ep_erase part off 4096 d = (True, d') \<and> cells d' = mem_fill (cells d) (unat off) 4096 0xFF"
  shows "flash_device (partition_backend part) (partitionRead part) (partitionWrite part) (partitionErase part) cells cap 4096"
proof -
  have inb: "\<not> ep_size part < off + len" if "unat off + unat len \<le> cap" for off len :: u32
    using that assms(1,3) by (simp add: word_less_nat_alt unat_word_ariths unat_of_nat)
  have sgn: "sint (len :: u32) = int (unat len)" if "unat len \<le> cap" for len
    using that assms(3) by (simp add: sint_u32)
  show "flash_device (partition_backend part) (partitionRead part) (partitionWrite part) (partitionErase part) cells cap 4096"
  proof
    show "partitionRead part off len d = (int (unat len), mem_get (cells d) (unat off) (unat len))"
      if "unat off + unat len \<le> cap" for off len d
      using that inb [OF that] assms(4) [OF that] sgn [of len] by (simp add: partitionRead_def)
    show "\<exists>d'. partitionWrite part off buf d = (int (length buf), d') \<and> cells d' = mem_put (cells d) (unat off) buf"
      if le: "unat off + length buf \<le> cap"
        and erased: "\<forall>x. unat off \<le> x \<and> x < unat off + length buf \<longrightarrow> cells d x = 0xFF" for off buf d
    proof -
      have u: "unat (of_nat (length buf) :: u32) = length buf" using le assms(3) by (simp add: unat_of_nat)
      from assms(5) [OF le erased] obtain d' where
        "ep_write part off buf d = (True, d')" "cells d' = mem_put (cells d) (unat off) buf" by blast
      then show ?thesis
        using inb [of off "of_nat (length buf)"] sgn [of "of_nat (length buf)"] le u
        by (simp add: partitionWrite_def Let_def)
    qed
    show "\<exists>d'. partitionErase part off (of_nat 4096) d = (0, d') \<and> cells d' = mem_fill (cells d) (unat off) 4096 0xFF"
      if "4096 dvd unat off" "unat off + 4096 \<le> cap" for off d
      using assms(6) [OF that, of d] by (auto simp: partitionErase_def)
  qed (use assms(1-3) in \<open>simp_all add: partition_backend_def\<close>)
qed

text \<open>
  C28: the partition backend honours the flash contract whenever the vendor's partition does:
  reads return the cells, writes to erased cells and erasures of whole sectors succeed.
\<close>

theorem partition_backend_is_flash_device:
  assumes "ep_size part = of_nat cap" and "4096 dvd cap" and "cap < 2 ^ 31"
    and "\<And>off len d. unat off + unat len \<le> cap \<Longrightarrow>
       ep_read part off len d = Some (mem_get (cells d) (unat off) (unat len))"
    and "\<And>off buf d. unat off + length buf \<le> cap \<Longrightarrow>
       \<forall>x. unat off \<le> x \<and> x < unat off + length buf \<longrightarrow> cells d x = 0xFF \<Longrightarrow>
       \<exists>d'. ep_write part off buf d = (True, d') \<and> cells d' = mem_put (cells d) (unat off) buf"
    and "\<And>off d. 4096 dvd unat off \<Longrightarrow> unat off + 4096 \<le> cap \<Longrightarrow>
       \<exists>d'. ep_erase part off 4096 d = (True, d') \<and> cells d' = mem_fill (cells d) (unat off) 4096 0xFF"
  shows "\<exists>b. createPartitionBackend (\<lambda>_. Some part) label no_backend = (True, b) \<and>
    flash_device b (partitionRead part) (partitionWrite part) (partitionErase part) cells cap 4096"
proof (intro exI conjI)
  show "createPartitionBackend (\<lambda>_. Some part) label no_backend = (True, partition_backend part)"
    by (simp add: createPartitionBackend_def partition_backend_def)
qed (rule partition_flash [OF assms])


definition mem_partition :: "memory esp_partition" where
  "mem_partition = \<lparr>ep_size = 8192,
     ep_read = (\<lambda>off len d. Some (mem_get d (unat off) (unat len))),
     ep_write = (\<lambda>off buf d. (True, mem_put d (unat off) buf)),
     ep_erase = (\<lambda>off len d. (True, mem_fill d (unat off) (unat len) 0xFF))\<rparr>"

theorem partition_backend_is_flash_device_witness:
  "\<exists>b. createPartitionBackend (\<lambda>_. Some mem_partition) [] no_backend = (True, b) \<and>
    flash_device b (partitionRead mem_partition) (partitionWrite mem_partition) (partitionErase mem_partition)
      (\<lambda>d. d) 8192 4096"
  by (rule partition_backend_is_flash_device [of mem_partition 8192 "\<lambda>d. d"]) (simp_all add: mem_partition_def)

end
