(* ===== verification/Checksums.thy ===== *)
theory Checksums
  imports Takt_Prelude
begin

text \<open>
  The three checksums of the program: the table-driven CRC-32 of the kernel
  (\<open>kernel/src/crc32.cpp\<close>, used for firmware images and NVS entries), the bit-by-bit
  CRC-32 of the boot configuration (\<open>takt_boot/src/bootloader.cpp\<close>) and the CRC-16 of
  Modbus frames (\<open>middleware/src/modbus_module.cpp\<close>).

  The locale \<open>byte_checksum\<close> is what the users of a checksum rely on: one byte is
  absorbed at a time, absorbing is injective in the state, and a window of \<open>k\<close> bytes is
  absorbed injectively. It is interpreted for all three.
\<close>


section \<open>The interface: absorbing bytes one at a time\<close>

locale byte_checksum =
  fixes upd :: "'s \<Rightarrow> u8 \<Rightarrow> 's"
    and k :: nat
  assumes state_inj: "upd s b = upd s' b \<Longrightarrow> s = s'"
    and window_inj: "length xs = k \<Longrightarrow> length ys = k \<Longrightarrow> foldl upd s xs = foldl upd s ys \<Longrightarrow> xs = ys"
begin

lemma absorb_inj: "foldl upd s xs = foldl upd s' xs \<longleftrightarrow> s = s'"
  by (induction xs arbitrary: s s') (auto dest: state_inj)

lemma short_inj:
  assumes "length xs = length ys" and "length xs \<le> k"
    and "foldl upd s xs = foldl upd s ys"
  shows "xs = ys"
proof -
  let ?pad = "replicate (k - length xs) (0::u8)"
  have "foldl upd s (xs @ ?pad) = foldl upd s (ys @ ?pad)"
    using assms(3) by simp
  then have "xs @ ?pad = ys @ ?pad"
    using assms(1,2) by (intro window_inj) auto
  then show ?thesis by simp
qed

lemma burst_detected:
  assumes "length xs = length ys" and "length xs \<le> k" and "xs \<noteq> ys"
  shows "foldl upd s (p @ xs @ q) \<noteq> foldl upd s (p @ ys @ q)"
  using assms short_inj absorb_inj by auto

end


section \<open>The shift register\<close>

text \<open>One step of a reflected CRC register with polynomial \<open>p\<close>.\<close>

definition lfsr :: "'a::len word \<Rightarrow> 'a word \<Rightarrow> 'a word" where
  "lfsr p x = (if x AND 1 \<noteq> 0 then drop_bit 1 x XOR p else drop_bit 1 x)"

lemma lfsr_alt: "lfsr p x = drop_bit 1 x XOR (if bit x 0 then p else 0)"
  by (simp add: lfsr_def and_one_eq bit_0 odd_iff_mod_2_eq_one)

lemma lfsr_even: "\<not> bit x 0 \<Longrightarrow> lfsr p x = drop_bit 1 x"
  by (simp add: lfsr_alt)

lemma lfsr_xor: "lfsr p (x XOR y) = lfsr p x XOR lfsr p y"
  by (rule bit_word_eqI) (auto simp: lfsr_alt bit_simps)

lemma lfsr_pow_xor: "(lfsr p ^^ n) (x XOR y) = (lfsr p ^^ n) x XOR (lfsr p ^^ n) y"
  by (induction n) (simp_all add: lfsr_xor)

lemma lfsr_inj:
  fixes p :: "'a::len word"
  assumes top: "bit p (LENGTH('a) - 1)" and eq: "lfsr p x = lfsr p y"
  shows "x = y"
proof -
  have z: "bit x 0 = bit y 0"
  proof -
    have "bit (lfsr p w) (LENGTH('a) - 1) = bit w 0" for w
      using top bit_imp_le_length [of w "LENGTH('a)"] by (auto simp: lfsr_alt bit_simps)
    with eq show ?thesis by metis
  qed
  show ?thesis
  proof (rule bit_word_eqI)
    fix n assume "n < LENGTH('a)"
    have "bit (lfsr p x) (n - 1) = bit (lfsr p y) (n - 1)" using eq by simp
    with z show "bit x n = bit y n"
      by (cases n) (auto simp: lfsr_alt bit_simps split: if_splits)
  qed
qed

lemma lfsr_pow_inj:
  fixes p :: "'a::len word"
  assumes "bit p (LENGTH('a) - 1)"
  shows "(lfsr p ^^ n) x = (lfsr p ^^ n) y \<longleftrightarrow> x = y"
  using lfsr_inj [OF assms] by (induction n) auto

lemma lfsr_pow_shift:
  fixes p :: "'a::len word"
  assumes "\<And>i. i < n \<Longrightarrow> \<not> bit x i"
  shows "(lfsr p ^^ n) x = drop_bit n x"
  using assms
proof (induction n)
  case (Suc n)
  then have "(lfsr p ^^ n) x = drop_bit n x" by simp
  moreover have "\<not> bit (drop_bit n x) 0" using Suc.prems [of n] by (simp add: bit_simps)
  ultimately show ?case by (simp add: lfsr_even)
qed simp

text \<open>
  A register that absorbs bytes by \<open>XOR\<close> into its low end and eight steps each absorbs a
  window of as many bytes as it is wide at once.
\<close>

definition absorb :: "'a::len word \<Rightarrow> 'a word \<Rightarrow> u8 \<Rightarrow> 'a word" where
  "absorb p s b = (lfsr p ^^ 8) (s XOR ucast b)"

lemma absorb_state_inj:
  fixes p :: "'a::len word"
  assumes "bit p (LENGTH('a) - 1)" and "absorb p s b = absorb p s' b"
  shows "s = s'"
proof -
  from assms have "s XOR ucast b = s' XOR ucast b"
    by (simp add: absorb_def lfsr_pow_inj)
  then show ?thesis by (simp add: bit_eq_iff bit_simps) blast
qed

lemma absorb_shifted:
  fixes s :: "'a::len word"
  assumes "n + 8 \<le> LENGTH('a)"
  shows "absorb p ((lfsr p ^^ n) s) b = (lfsr p ^^ (8 + n)) (s XOR push_bit n (ucast b))"
proof -
  have "(ucast b :: 'a word) = drop_bit n (push_bit n (ucast b))"
    using assms by (intro bit_word_eqI) (auto simp: bit_simps dest: bit_imp_le_length)
  also have "\<dots> = (lfsr p ^^ n) (push_bit n (ucast b))"
    by (rule lfsr_pow_shift [symmetric]) (simp add: bit_simps)
  finally show ?thesis
    by (metis absorb_def funpow_add lfsr_pow_xor o_apply)
qed


section \<open>CRC-32 of the kernel, table driven\<close>

text \<open>
  \<open>initTable\<close> fills the table once; the flag \<open>tableInit\<close> only avoids the second filling, so
  the table is a constant list. \<open>crc32_update\<close> is the loop of \<open>Crc32::update\<close> with the
  state \<open>crc\<close>.
\<close>

definition crc32_poly :: u32 where
  "crc32_poly = 0xEDB88320"

definition crc32_table :: "u32 list" where
  "crc32_table = map (\<lambda>i. (lfsr crc32_poly ^^ 8) (of_nat i)) [0..<256]"

definition crc32_step :: "u32 \<Rightarrow> u8 \<Rightarrow> u32" where
  "crc32_step crc b = crc32_table ! unat ((crc XOR ucast b) AND 0xFF) XOR drop_bit 8 crc"

definition crc32_update :: "u32 \<Rightarrow> bytes \<Rightarrow> u32" where
  "crc32_update crc data = foldl crc32_step crc data"

definition crc32_initial :: u32 where
  "crc32_initial = 0xFFFFFFFF"

definition crc32_finalize :: "u32 \<Rightarrow> u32" where
  "crc32_finalize crc = crc XOR 0xFFFFFFFF"

definition crc32_compute :: "bytes \<Rightarrow> u32" where
  "crc32_compute data = crc32_finalize (crc32_update crc32_initial data)"

lemma bit_255: "bit (0xFF :: u32) n \<longleftrightarrow> n < 8"
proof -
  have m: "mask 8 = (0xFF :: u32)" by (simp add: mask_eq_exp_minus_1)
  have "bit (mask 8 :: u32) n \<longleftrightarrow> n < 8" by (auto simp only: bit_mask_iff) simp
  then show ?thesis by (simp only: m)
qed

lemma crc32_step_absorb: "crc32_step s b = absorb crc32_poly s b"
proof -
  let ?x = "s XOR ucast b :: u32"
  have lo: "unat (?x AND 0xFF) < 256"
    using word_and_le1 [of ?x "0xFF"] by (simp add: word_le_nat_alt)
  have split: "?x = (?x AND 0xFF) XOR push_bit 8 (drop_bit 8 s)"
  proof (rule bit_word_eqI)
    fix n assume "n < LENGTH(32)"
    then show "bit ?x n = bit ((?x AND 0xFF) XOR push_bit 8 (drop_bit 8 s)) n"
      using bit_255 [of n] by (auto simp: bit_simps dest: bit_imp_le_length)
  qed
  have "absorb crc32_poly s b = (lfsr crc32_poly ^^ 8) (?x AND 0xFF) XOR
      (lfsr crc32_poly ^^ 8) (push_bit 8 (drop_bit 8 s))"
    unfolding absorb_def by (subst split) (rule lfsr_pow_xor)
  also have "(lfsr crc32_poly ^^ 8) (push_bit 8 (drop_bit 8 s)) = drop_bit 8 s"
  proof -
    have "drop_bit 8 (push_bit 8 (drop_bit 8 s)) = drop_bit 8 s"
      by (rule bit_word_eqI) (auto simp: bit_simps dest: bit_imp_le_length)
    then show ?thesis by (subst lfsr_pow_shift) (auto simp: bit_simps)
  qed
  also have "(lfsr crc32_poly ^^ 8) (?x AND 0xFF) = crc32_table ! unat (?x AND 0xFF)"
    using lo by (simp add: crc32_table_def)
  finally show ?thesis by (simp add: crc32_step_def)
qed

lemma crc32_update_Nil [simp]: "crc32_update crc [] = crc"
  by (simp add: crc32_update_def)

lemma crc32_update_append: "crc32_update crc (xs @ ys) = crc32_update (crc32_update crc xs) ys"
  by (simp add: crc32_update_def)

lemma xor_right_inject: "a XOR c = b XOR c \<longleftrightarrow> a = (b :: 'a::len word)"
  by (auto simp: bit_eq_iff bit_simps)

lemma crc32_finalize_inject [simp]: "crc32_finalize a = crc32_finalize b \<longleftrightarrow> a = b"
  by (simp only: crc32_finalize_def xor_right_inject)


section \<open>CRC-32 of the boot configuration, bit by bit\<close>

definition boot_crc_step :: "u32 \<Rightarrow> u32" where
  "boot_crc_step crc = drop_bit 1 crc XOR (if crc AND 1 \<noteq> 0 then 0xEDB88320 else 0)"

definition boot_crc_byte :: "u32 \<Rightarrow> u8 \<Rightarrow> u32" where
  "boot_crc_byte crc b = (boot_crc_step ^^ 8) (crc XOR ucast b)"

definition crc32Config :: "bytes \<Rightarrow> u32" where
  "crc32Config data = foldl boot_crc_byte 0xFFFFFFFF data XOR 0xFFFFFFFF"

lemma boot_crc_step_lfsr: "boot_crc_step = lfsr crc32_poly"
  by (rule ext) (simp add: boot_crc_step_def lfsr_def crc32_poly_def)

lemma boot_crc_byte_absorb: "boot_crc_byte s b = absorb crc32_poly s b"
  by (simp add: boot_crc_byte_def absorb_def boot_crc_step_lfsr)


section \<open>CRC-16 of Modbus frames\<close>

definition crc16_step :: "u16 \<Rightarrow> u16" where
  "crc16_step crc = (if crc AND 1 \<noteq> 0 then drop_bit 1 crc XOR 0xA001 else drop_bit 1 crc)"

definition crc16_byte :: "u16 \<Rightarrow> u8 \<Rightarrow> u16" where
  "crc16_byte crc b = (crc16_step ^^ 8) (crc XOR ucast b)"

definition crc16 :: "bytes \<Rightarrow> u16" where
  "crc16 data = foldl crc16_byte 0xFFFF data"

lemma crc16_byte_absorb: "crc16_byte s b = absorb 0xA001 s b"
proof -
  have "crc16_step = lfsr 0xA001"
    by (rule ext) (simp add: crc16_step_def lfsr_def)
  then show ?thesis by (simp add: crc16_byte_def absorb_def)
qed


section \<open>The three checksums as interpretations of the interface\<close>

lemma crc32_top_bit: "bit crc32_poly (LENGTH(32) - 1)"
  by (simp add: crc32_poly_def)

lemma crc16_top_bit: "bit (0xA001 :: u16) (LENGTH(16) - 1)"
  by simp

lemma absorb_4:
  fixes s :: u32
  shows "foldl (absorb p) s [a, b, c, d] =
    (lfsr p ^^ 32) ((((s XOR ucast a) XOR push_bit 8 (ucast b)) XOR push_bit 16 (ucast c))
                      XOR push_bit 24 (ucast d))"
proof -
  have "absorb p s a = (lfsr p ^^ 8) (s XOR ucast a)" by (simp add: absorb_def)
  then show ?thesis
    using absorb_shifted [of 8 p "s XOR ucast a" b]
      absorb_shifted [of 16 p "(s XOR ucast a) XOR push_bit 8 (ucast b)" c]
      absorb_shifted [of 24 p "((s XOR ucast a) XOR push_bit 8 (ucast b)) XOR push_bit 16 (ucast c)" d]
    by simp
qed

lemma absorb_2:
  fixes s :: u16
  shows "foldl (absorb p) s [a, b] = (lfsr p ^^ 16) ((s XOR ucast a) XOR push_bit 8 (ucast b))"
proof -
  have "absorb p s a = (lfsr p ^^ 8) (s XOR ucast a)" by (simp add: absorb_def)
  then show ?thesis using absorb_shifted [of 8 p "s XOR ucast a" b] by simp
qed

lemma spread_4_inj:
  fixes s :: u32
  assumes "(((s XOR ucast a) XOR push_bit 8 (ucast b)) XOR push_bit 16 (ucast c)) XOR push_bit 24 (ucast d)
    = (((s XOR ucast a') XOR push_bit 8 (ucast b')) XOR push_bit 16 (ucast c')) XOR push_bit 24 (ucast d')"
  shows "[a, b, c, d] = [a', b', c', d' :: u8]"
proof -
  note bits = assms [unfolded bit_eq_iff, rule_format]
  have "bit a n = bit a' n" if "n < 8" for n using bits [of n] that by (auto simp: bit_simps)
  moreover have "bit b n = bit b' n" if "n < 8" for n
    using bits [of "n + 8"] that by (auto simp: bit_simps dest: bit_imp_le_length)
  moreover have "bit c n = bit c' n" if "n < 8" for n
    using bits [of "n + 16"] that by (auto simp: bit_simps dest: bit_imp_le_length)
  moreover have "bit d n = bit d' n" if "n < 8" for n
    using bits [of "n + 24"] that by (auto simp: bit_simps dest: bit_imp_le_length)
  ultimately show ?thesis by (auto intro!: bit_word_eqI)
qed

lemma spread_2_inj:
  fixes s :: u16
  assumes "(s XOR ucast a) XOR push_bit 8 (ucast b) = (s XOR ucast a') XOR push_bit 8 (ucast b')"
  shows "[a, b] = [a', b' :: u8]"
proof -
  note bits = assms [unfolded bit_eq_iff, rule_format]
  have "bit a n = bit a' n" if "n < 8" for n using bits [of n] that by (auto simp: bit_simps)
  moreover have "bit b n = bit b' n" if "n < 8" for n
    using bits [of "n + 8"] that by (auto simp: bit_simps dest: bit_imp_le_length)
  ultimately show ?thesis by (auto intro!: bit_word_eqI)
qed

lemma length_4: "length xs = 4 \<longleftrightarrow> (\<exists>a b c d. xs = [a, b, c, d])"
  by (auto simp: numeral_eq_Suc length_Suc_conv)

lemma length_2: "length xs = 2 \<longleftrightarrow> (\<exists>a b. xs = [a, b])"
  by (auto simp: numeral_eq_Suc length_Suc_conv)

lemma crc32_absorb: "byte_checksum (absorb crc32_poly) 4"
proof
  fix s s' :: u32 and b
  show "absorb crc32_poly s b = absorb crc32_poly s' b \<Longrightarrow> s = s'"
    by (rule absorb_state_inj [OF crc32_top_bit])
next
  fix xs ys :: bytes and s :: u32
  assume "length xs = 4" and "length ys = 4"
    and eq: "foldl (absorb crc32_poly) s xs = foldl (absorb crc32_poly) s ys"
  then obtain a b c d a' b' c' d' where "xs = [a, b, c, d]" and "ys = [a', b', c', d']"
    by (auto simp: length_4)
  then show "xs = ys"
    using eq spread_4_inj [of s a b c d a' b' c' d']
    by (simp only: absorb_4 lfsr_pow_inj [OF crc32_top_bit])
qed

lemma crc16_absorb: "byte_checksum (absorb (0xA001 :: u16)) 2"
proof
  fix s s' :: u16 and b
  show "absorb 0xA001 s b = absorb 0xA001 s' b \<Longrightarrow> s = s'"
    by (rule absorb_state_inj [OF crc16_top_bit])
next
  fix xs ys :: bytes and s :: u16
  assume "length xs = 2" and "length ys = 2"
    and eq: "foldl (absorb 0xA001) s xs = foldl (absorb 0xA001) s ys"
  then obtain a b a' b' where "xs = [a, b]" and "ys = [a', b']"
    by (auto simp: length_2)
  then show "xs = ys"
    using eq spread_2_inj [of s a b a' b']
    by (simp only: absorb_2 lfsr_pow_inj [OF crc16_top_bit])
qed

interpretation crc: byte_checksum crc32_step 4
proof -
  have "crc32_step = absorb crc32_poly" by (intro ext crc32_step_absorb)
  then show "byte_checksum crc32_step 4" using crc32_absorb by simp
qed

interpretation bootcrc: byte_checksum boot_crc_byte 4
proof -
  have "boot_crc_byte = absorb crc32_poly" by (intro ext boot_crc_byte_absorb)
  then show "byte_checksum boot_crc_byte 4" using crc32_absorb by simp
qed

interpretation modbuscrc: byte_checksum crc16_byte 2
proof -
  have "crc16_byte = absorb 0xA001" by (intro ext crc16_byte_absorb)
  then show "byte_checksum crc16_byte 2" using crc16_absorb by simp
qed


section \<open>Properties\<close>

text \<open>
  C30: the table-driven CRC-32 of the kernel and the bit-by-bit CRC-32 of the boot code,
  written independently, compute the same function of the bytes.
\<close>

theorem crc32_table_eq_bitwise: "crc32_compute data = crc32Config data"
proof -
  have "crc32_step = boot_crc_byte"
    by (intro ext) (simp add: crc32_step_absorb boot_crc_byte_absorb)
  then show ?thesis
    by (simp add: crc32_compute_def crc32Config_def crc32_finalize_def crc32_update_def
        crc32_initial_def)
qed

text \<open>
  a change confined to at most four consecutive bytes of a message, in particular any
  single corrupted byte, always changes its CRC-32.
\<close>

theorem crc32_detects_burst:
  assumes "length xs = length ys" and "length xs \<le> 4" and "xs \<noteq> ys"
  shows "crc32_compute (p @ xs @ q) \<noteq> crc32_compute (p @ ys @ q)"
  using crc.burst_detected [OF assms]
  by (simp add: crc32_compute_def crc32_update_def del: foldl_append)

theorem crc32_detects_burst_witness:
  "crc32_compute ([1, 2] @ [3] @ [4]) \<noteq> crc32_compute ([1, 2] @ [7] @ [4])"
  by (rule crc32_detects_burst) simp_all

lemma crc32Config_detects_burst:
  assumes "length xs = length ys" and "length xs \<le> 4" and "xs \<noteq> ys"
  shows "crc32Config (p @ xs @ q) \<noteq> crc32Config (p @ ys @ q)"
  using bootcrc.burst_detected [OF assms]
  by (simp add: crc32Config_def xor_right_inject del: foldl_append)

lemma crc16_detects_burst:
  assumes "length xs = length ys" and "length xs \<le> 2" and "xs \<noteq> ys"
  shows "crc16 (p @ xs @ q) \<noteq> crc16 (p @ ys @ q)"
  using modbuscrc.burst_detected [OF assms] by (simp add: crc16_def del: foldl_append)

text \<open>
  Evaluation of checksums on concrete bytes. The check value is the one that
  \<open>tests/test_firmware_cache.cpp\<close> expects for the digits 1 to 9.
\<close>

lemma funpow_8: "(f ^^ 8) x = f (f (f (f (f (f (f (f x)))))))"
  by (simp add: eval_nat_numeral)

lemma crc32_step_eval: "crc32_step s b = boot_crc_byte s b"
  by (simp add: crc32_step_absorb boot_crc_byte_absorb)

lemmas crc_eval = crc32_compute_def crc32_finalize_def crc32_update_def crc32_initial_def
  crc32_step_eval crc32Config_def boot_crc_byte_def funpow_8 boot_crc_step_def
  crc16_def crc16_byte_def crc16_step_def

lemma crc32_check_value:
  "crc32_compute [0x31, 0x32, 0x33, 0x34, 0x35, 0x36, 0x37, 0x38, 0x39] = 0xCBF43926"
  by (simp add: crc_eval)

end
