(* ===== verification/Fw_Cache.thy ===== *)
theory Fw_Cache
  imports Storage Checksums
begin

text \<open>
  The A/B firmware store: \<open>kernel/include/takt/firmware_cache.hpp\<close> and
  \<open>kernel/src/firmware_cache.cpp\<close>.

  It is a client of the flash device: every lemma about flash content is proved in the
  context of \<open>flash_device\<close>. The OTA functions of the vendor SDK are the parameter
  \<open>esp_ota\<close>; \<open>host_ota\<close> is the build without them.
\<close>


section \<open>State\<close>

record fw_header =
  h_magic :: u32
  h_version :: u32
  h_size :: u32
  h_crc32 :: u32
  h_timestamp :: u32
  h_slot :: u8
  h_flags :: u8
  h_reserved :: bytes

record fw_cache =
  slotOffset :: "u32 list"
  slotSize :: u32
  activeSlot :: u8
  writeOffset :: u32
  writeCrc :: u32
  writeImageSize :: u32
  writeVersion :: u32
  writing :: bool

record 'f fw_sys = "'f storage_sys" +
  fw :: fw_cache

record 'f esp_ota =
  running_label :: "'f \<Rightarrow> string option"
  set_boot :: "string \<Rightarrow> 'f \<Rightarrow> bool \<times> 'f"

definition host_ota :: "'f esp_ota" where
  "host_ota = \<lparr>running_label = (\<lambda>_. None), set_boot = (\<lambda>_ d. (False, d))\<rparr>"

definition kFirmwareMagic :: u32 where
  "kFirmwareMagic = 0x54414B54"

definition kVerifyChunk :: u32 where
  "kVerifyChunk = 4096"

definition kHeaderReserved :: u32 where
  "kHeaderReserved = 4096"

definition new_fw_cache :: fw_cache where
  "new_fw_cache = \<lparr>slotOffset = [0, 0], slotSize = 0, activeSlot = 0, writeOffset = 0, writeCrc = 0,
     writeImageSize = 0, writeVersion = 0, writing = False\<rparr>"

definition zero_header :: fw_header where
  "zero_header = \<lparr>h_magic = 0, h_version = 0, h_size = 0, h_crc32 = 0, h_timestamp = 0,
     h_slot = 0, h_flags = 0, h_reserved = [0, 0]\<rparr>"

text \<open>The 24 bytes of the header in memory, on a little-endian machine.\<close>

definition header_bytes :: "fw_header \<Rightarrow> bytes" where
  "header_bytes h = u32_bytes (h_magic h) @ u32_bytes (h_version h) @ u32_bytes (h_size h) @
     u32_bytes (h_crc32 h) @ u32_bytes (h_timestamp h) @ [h_slot h, h_flags h] @ h_reserved h"

definition bytes_header :: "bytes \<Rightarrow> fw_header" where
  "bytes_header bs = \<lparr>h_magic = bytes_u32 bs, h_version = bytes_u32 (drop 4 bs),
     h_size = bytes_u32 (drop 8 bs), h_crc32 = bytes_u32 (drop 12 bs),
     h_timestamp = bytes_u32 (drop 16 bs), h_slot = bs ! 20, h_flags = bs ! 21,
     h_reserved = take 2 (drop 22 bs)\<rparr>"


section \<open>Operations\<close>

definition inactiveSlot :: "fw_cache \<Rightarrow> u8" where
  "inactiveSlot c = (if activeSlot c = 0 then 1 else 0)"

text \<open>\<open>getHeader\<close> fills a header that its callers initialize with zeros.\<close>

definition getHeader :: "u8 \<Rightarrow> ('f, 'z) fw_sys_scheme \<Rightarrow> bool \<times> fw_header" where
  "getHeader slot s =
     (if 1 < slot then (False, zero_header)
      else case storage_read (slotOffset (fw s) ! unat slot) 24 s of (rc, bs) \<Rightarrow>
        if rc \<noteq> 24 then (False, zero_header)
        else (h_magic (bytes_header bs) = kFirmwareMagic, bytes_header bs))"

definition fw_init ::
  "'f esp_ota \<Rightarrow> u32 \<Rightarrow> u32 \<Rightarrow> u32 \<Rightarrow> ('f, 'z) fw_sys_scheme \<Rightarrow> bool \<times> ('f, 'z) fw_sys_scheme" where
  "fw_init ota slotAOffset slotBOffset sz s =
     (let s1 = s\<lparr>fw := (fw s)\<lparr>slotOffset := [slotAOffset, slotBOffset], slotSize := sz\<rparr>\<rparr> in
      case running_label ota (device s) of
        Some label \<Rightarrow> (True, s1\<lparr>fw := (fw s1)\<lparr>activeSlot := if label = ''ota_0'' then 0 else 1\<rparr>\<rparr>)
      | None \<Rightarrow>
          let (okA, hdrA) = getHeader 0 s1; (okB, hdrB) = getHeader 1 s1;
              validA = (okA \<and> h_flags hdrA AND 0x01 \<noteq> 0);
              validB = (okB \<and> h_flags hdrB AND 0x01 \<noteq> 0)
          in (True, s1\<lparr>fw := (fw s1)\<lparr>activeSlot := if validA then 0 else if validB then 1 else 0\<rparr>\<rparr>))"

definition beginWrite :: "u32 \<Rightarrow> u32 \<Rightarrow> ('f, 'z) fw_sys_scheme \<Rightarrow> bool \<times> ('f, 'z) fw_sys_scheme" where
  "beginWrite imageSize version s =
     (if slotSize (fw s) - kHeaderReserved < imageSize then (False, s)
      else (True, s\<lparr>fw := (fw s)\<lparr>writeOffset := kHeaderReserved, writeCrc := crc32_initial,
              writeImageSize := imageSize, writeVersion := version, writing := True\<rparr>\<rparr>))"

definition writeChunk :: "bytes \<Rightarrow> ('f, 'z) fw_sys_scheme \<Rightarrow> int \<times> ('f, 'z) fw_sys_scheme" where
  "writeChunk data s =
     (if \<not> writing (fw s) then (-1, s)
      else let slot = inactiveSlot (fw s);
               offset = slotOffset (fw s) ! unat slot + writeOffset (fw s) in
        case storage_write offset data s of (rc, s1) \<Rightarrow>
          if rc < 0 then (-1, s1)
          else (sint (of_nat (length data) :: u32),
                s1\<lparr>fw := (fw s1)\<lparr>writeCrc := crc32_update (writeCrc (fw s1)) data,
                                 writeOffset := writeOffset (fw s1) + of_nat (length data)\<rparr>\<rparr>))"

function verify_loop :: "u32 \<Rightarrow> u32 \<Rightarrow> u32 \<Rightarrow> ('f, 'z) fw_sys_scheme \<Rightarrow> u32 option" where
  "verify_loop offset remaining crc s =
     (if remaining = 0 then Some crc
      else let chunk = (if kVerifyChunk < remaining then kVerifyChunk else remaining) in
        case storage_read offset chunk s of (rc, buf) \<Rightarrow>
          if rc \<noteq> sint chunk then None
          else verify_loop (offset + chunk) (remaining - chunk) (crc32_update crc buf) s)"
  by pat_completeness auto
termination
proof (relation "measure (\<lambda>(_, remaining, _, _). unat remaining)", goal_cases)
  case (2 offset remaining crc s chunk)
  then have "0 < chunk" and "chunk \<le> remaining" by (auto simp: kVerifyChunk_def word_neq_0_conv split: if_splits)
  then show ?case by (simp add: unat_sub word_less_nat_alt word_le_nat_alt)
qed simp

declare verify_loop.simps [simp del]

definition verify :: "u8 \<Rightarrow> ('f, 'z) fw_sys_scheme \<Rightarrow> bool" where
  "verify slot s =
     (if 1 < slot then False
      else case getHeader slot s of (ok, hdr) \<Rightarrow>
        if \<not> ok then False
        else if h_magic hdr \<noteq> kFirmwareMagic \<or> h_flags hdr AND 0x01 = 0 then False
        else case verify_loop (slotOffset (fw s) ! unat slot + kHeaderReserved) (h_size hdr) crc32_initial s of
            None \<Rightarrow> False
          | Some crc \<Rightarrow> crc32_finalize crc = h_crc32 hdr)"

definition finalizeWrite :: "('f, 'z) fw_sys_scheme \<Rightarrow> bool \<times> ('f, 'z) fw_sys_scheme" where
  "finalizeWrite s =
     (if \<not> writing (fw s) then (False, s)
      else let slot = inactiveSlot (fw s);
               hdr = zero_header\<lparr>h_magic := kFirmwareMagic, h_version := writeVersion (fw s),
                 h_size := writeImageSize (fw s), h_slot := slot,
                 h_crc32 := crc32_finalize (writeCrc (fw s)), h_flags := 0x01\<rparr>;
               s1 = snd (storage_write (slotOffset (fw s) ! unat slot) (header_bytes hdr) s);
               s2 = s1\<lparr>fw := (fw s1)\<lparr>writing := False\<rparr>\<rparr>
           in (verify slot s2, s2))"

definition activateSlot :: "'f esp_ota \<Rightarrow> u8 \<Rightarrow> ('f, 'z) fw_sys_scheme \<Rightarrow> bool \<times> ('f, 'z) fw_sys_scheme" where
  "activateSlot ota slot s =
     (if 1 < slot \<or> \<not> verify slot s then (False, s)
      else let (ok, d) = set_boot ota (if slot = 0 then ''ota_0'' else ''ota_1'') (device s);
               s1 = s\<lparr>device := d\<rparr> in
        if ok then (True, s1\<lparr>fw := (fw s1)\<lparr>activeSlot := slot\<rparr>\<rparr>)
        else let hdr = snd (getHeader slot s1);
                 hdr1 = hdr\<lparr>h_flags := h_flags hdr OR 0x02\<rparr>;
                 s2 = snd (storage_write (slotOffset (fw s1) ! unat slot) (header_bytes hdr1) s1)
             in (True, s2\<lparr>fw := (fw s2)\<lparr>activeSlot := slot\<rparr>\<rparr>))"

definition rollback :: "'f esp_ota \<Rightarrow> ('f, 'z) fw_sys_scheme \<Rightarrow> bool \<times> ('f, 'z) fw_sys_scheme" where
  "rollback ota s =
     (let prev = inactiveSlot (fw s) in
      if \<not> verify prev s then (False, s) else activateSlot ota prev s)"


section \<open>The header\<close>

lemma length_header_bytes [simp]: "length (header_bytes h) = 22 + length (h_reserved h)"
  by (simp add: header_bytes_def)

lemma header_bytes_ne [simp]: "header_bytes h \<noteq> []"
  by (simp add: header_bytes_def u32_bytes_def)

lemma bytes_header_bytes [simp]:
  assumes "length (h_reserved h) = 2"
  shows "bytes_header (header_bytes h) = h"
  using assms by (simp add: bytes_header_def header_bytes_def nth_append)

lemma length_zero_reserved [simp]: "length (h_reserved zero_header) = 2"
  by (simp add: zero_header_def)


section \<open>Verification on a flash device\<close>

lemma flash_store_frame:
  assumes "0 < sector" and "buf \<noteq> []" and "sector dvd lo" and "sector dvd hi"
    and "lo \<le> a" and "a + length buf \<le> hi" and "x < lo \<or> hi \<le> x"
  shows "flash_store sector a buf m x = m x"
proof -
  have "sector_hi sector a (length buf) \<le> hi"
    using sector_bounds(3) [of sector "length buf" hi a] assms by simp
  moreover have "lo \<le> sector_lo sector a"
    using assms(3,5) div_le_mono [of lo a sector] by (auto simp: sector_lo_def elim!: dvdE)
  ultimately show ?thesis using assms(1,2,7) by (intro flash_store_outside) auto
qed

text \<open>The contract of \<open>verify\<close>: what it says about the content of a slot.\<close>

definition slot_valid :: "memory \<Rightarrow> nat \<Rightarrow> bool" where
  "slot_valid m base \<longleftrightarrow> (let h = bytes_header (mem_get m base 24) in
     h_magic h = kFirmwareMagic \<and> h_flags h AND 0x01 \<noteq> 0 \<and>
     crc32_compute (mem_get m (base + 4096) (unat (h_size h))) = h_crc32 h)"

context flash_device
begin

lemma cap_less: "cap < 2147483648"
  using geometry(3) by simp

lemma verify_loop_ok:
  assumes "backend s = b" and "unat off + unat rem \<le> cap"
  shows "verify_loop off rem crc s = Some (crc32_update crc (mem_get (cells (device s)) (unat off) (unat rem)))"
  using assms(2)
proof (induction "unat rem" arbitrary: off rem crc rule: less_induct)
  case less
  show ?case
  proof (cases "rem = 0")
    case True
    then show ?thesis by (subst verify_loop.simps) simp
  next
    case False
    obtain c where c_def: "c = (if kVerifyChunk < rem then kVerifyChunk else rem)" by simp
    have c: "unat c \<le> unat rem" "0 < unat c"
      using False by (auto simp: c_def kVerifyChunk_def word_less_nat_alt unat_gt_0)
    have rd: "storage_read off c s = (int (unat c), mem_get (cells (device s)) (unat off) (unat c))"
      using read_ok [OF assms(1), of off c] less.prems c(1) by linarith
    have sg: "sint c = int (unat c)"
      using c(1) less.prems cap_less by (intro sint_u32) linarith
    have o: "unat (off + c) = unat off + unat c"
      using c(1) less.prems cap_less by (intro unat_u32_add) linarith
    have r: "unat (rem - c) = unat rem - unat c"
      using c(1) by (simp add: unat_sub word_le_nat_alt)
    have "verify_loop off rem crc s =
        verify_loop (off + c) (rem - c) (crc32_update crc (mem_get (cells (device s)) (unat off) (unat c))) s"
      by (subst verify_loop.simps) (use False rd sg in \<open>simp add: Let_def flip: c_def\<close>)
    also have "\<dots> = Some (crc32_update crc (mem_get (cells (device s)) (unat off) (unat c) @
        mem_get (cells (device s)) (unat off + unat c) (unat rem - unat c)))"
      using less.hyps [of "rem - c" "off + c"] less.prems c unfolding r o
      by (simp add: crc32_update_append)
    also have "mem_get (cells (device s)) (unat off) (unat c) @
        mem_get (cells (device s)) (unat off + unat c) (unat rem - unat c) =
        mem_get (cells (device s)) (unat off) (unat rem)"
      using mem_get_add [of "cells (device s)" "unat off" "unat c" "unat rem - unat c"] c(1) by simp
    finally show ?thesis .
  qed
qed

lemma getHeader_ok:
  assumes "backend s = b" and "slot \<le> 1" and "unat (slotOffset (fw s) ! unat slot) + 24 \<le> cap"
  shows "getHeader slot s = (let h = bytes_header (mem_get (cells (device s)) (unat (slotOffset (fw s) ! unat slot)) 24)
     in (h_magic h = kFirmwareMagic, h))"
  using read_ok [OF assms(1), of "slotOffset (fw s) ! unat slot" 24] assms(2,3)
  by (simp add: getHeader_def Let_def not_less [symmetric])

lemma verify_iff:
  assumes "backend s = b" and "slot \<le> 1" and "base = unat (slotOffset (fw s) ! unat slot)"
    and "base + 4096 + unat (h_size (bytes_header (mem_get (cells (device s)) base 24))) \<le> cap"
  shows "verify slot s \<longleftrightarrow> slot_valid (cells (device s)) base"
proof -
  let ?h = "bytes_header (mem_get (cells (device s)) base 24)"
  have o: "unat (slotOffset (fw s) ! unat slot + kHeaderReserved) = base + 4096"
    using assms(3,4) cap_less by (subst unat_u32_add) (simp_all add: kHeaderReserved_def)
  have "verify_loop (slotOffset (fw s) ! unat slot + kHeaderReserved) (h_size ?h) crc32_initial s =
      Some (crc32_update crc32_initial (mem_get (cells (device s)) (base + 4096) (unat (h_size ?h))))"
    using verify_loop_ok [OF assms(1), of "slotOffset (fw s) ! unat slot + kHeaderReserved" "h_size ?h"] assms(4)
    unfolding o by simp
  moreover have "getHeader slot s = (h_magic ?h = kFirmwareMagic, ?h)"
    using getHeader_ok [OF assms(1,2)] assms(3,4) by (simp add: Let_def)
  ultimately show ?thesis
    using assms(2) by (simp add: verify_def slot_valid_def Let_def crc32_compute_def not_less [symmetric])
qed

end


section \<open>An update session\<close>

text \<open>What an OTA client does between \<open>beginWrite\<close> and \<open>finalizeWrite\<close>: it stops at the first error.\<close>

primrec write_chunks :: "bytes list \<Rightarrow> ('f, 'z) fw_sys_scheme \<Rightarrow> bool \<times> ('f, 'z) fw_sys_scheme" where
  "write_chunks [] s = (True, s)"
| "write_chunks (c # cs) s =
     (case writeChunk c s of (rc, s1) \<Rightarrow> if rc = int (length c) then write_chunks cs s1 else (False, s1))"

definition wrote :: "'f \<Rightarrow> bytes \<Rightarrow> ('f, 'z) fw_sys_scheme \<Rightarrow> ('f, 'z) fw_sys_scheme" where
  "wrote d data s = s\<lparr>device := d, fw := (fw s)\<lparr>writeCrc := crc32_update (writeCrc (fw s)) data,
     writeOffset := writeOffset (fw s) + of_nat (length data)\<rparr>\<rparr>"

lemma wrote_simps [simp]:
  "backend (wrote d data s) = backend s" "device (wrote d data s) = d"
  "writing (fw (wrote d data s)) = writing (fw s)" "inactiveSlot (fw (wrote d data s)) = inactiveSlot (fw s)"
  "slotOffset (fw (wrote d data s)) = slotOffset (fw s)" "activeSlot (fw (wrote d data s)) = activeSlot (fw s)"
  "slotSize (fw (wrote d data s)) = slotSize (fw s)"
  "writeImageSize (fw (wrote d data s)) = writeImageSize (fw s)"
  "writeVersion (fw (wrote d data s)) = writeVersion (fw s)"
  "writeOffset (fw (wrote d data s)) = writeOffset (fw s) + of_nat (length data)"
  "writeCrc (fw (wrote d data s)) = crc32_update (writeCrc (fw s)) data"
  by (simp_all add: wrote_def inactiveSlot_def)

lemma wrote_wrote: "wrote d' e (wrote d c s) = wrote d' (c @ e) s"
  by (simp add: wrote_def crc32_update_append add.assoc)

lemma inactiveSlot_frame [simp]:
  "inactiveSlot (c\<lparr>writeOffset := a\<rparr>) = inactiveSlot c" "inactiveSlot (c\<lparr>writeCrc := a\<rparr>) = inactiveSlot c"
  "inactiveSlot (c\<lparr>writeImageSize := a\<rparr>) = inactiveSlot c"
  "inactiveSlot (c\<lparr>writeVersion := a\<rparr>) = inactiveSlot c" "inactiveSlot (c\<lparr>writing := w\<rparr>) = inactiveSlot c"
  by (simp_all add: inactiveSlot_def)

lemma inactive_le_1 [simp]: "inactiveSlot c \<le> 1"
  by (simp add: inactiveSlot_def)

text \<open>The address where the next chunk goes.\<close>

definition write_addr :: "('f, 'z) fw_sys_scheme \<Rightarrow> nat" where
  "write_addr s = unat (slotOffset (fw s) ! unat (inactiveSlot (fw s))) + unat (writeOffset (fw s))"

context flash_device
begin

lemma writeChunk_ok:
  assumes "backend s = b" and "writing (fw s)" and "data \<noteq> []" and "write_addr s + length data \<le> cap"
  shows "\<exists>d'. writeChunk data s = (int (length data), wrote d' data s) \<and>
    cells d' = flash_store sector (write_addr s) data (cells (device s))"
proof -
  let ?o = "slotOffset (fw s) ! unat (inactiveSlot (fw s)) + writeOffset (fw s)"
  have o: "unat ?o = write_addr s"
    using assms(4) cap_less unfolding write_addr_def by (intro unat_u32_add) linarith
  obtain d' where w: "storage_write ?o data s = (int (length data), s\<lparr>device := d'\<rparr>)"
    "cells d' = flash_store sector (write_addr s) data (cells (device s))"
    using write_ok [OF assms(1,3), of ?o] assms(4) o by auto
  have "length data < 2147483648" using assms(4) cap_less by linarith
  then have "sint (of_nat (length data) :: u32) = int (length data)"
    by (simp add: sint_u32 unat_u32_of_nat)
  with w assms(2) have "writeChunk data s = (int (length data), wrote d' data s)"
    by (simp add: writeChunk_def Let_def wrote_def)
  with w(2) show ?thesis by blast
qed

lemma write_addr_wrote:
  assumes "write_addr s + length data \<le> cap"
  shows "write_addr (wrote d data s) = write_addr s + length data"
proof -
  have "unat (writeOffset (fw s) + of_nat (length data)) = unat (writeOffset (fw s)) + length data"
    using assms cap_less by (subst unat_u32_add) (simp_all add: write_addr_def unat_u32_of_nat)
  then show ?thesis by (simp add: write_addr_def)
qed

lemma write_chunks_ok:
  assumes "backend s = b" and "writing (fw s)" and "\<forall>c\<in>set cs. c \<noteq> []"
    and "\<forall>c\<in>set (butlast cs). sector dvd length c" and "sector dvd write_addr s"
    and "write_addr s + length (concat cs) \<le> hi" and "sector dvd hi" and "hi \<le> cap"
  shows "\<exists>d'. write_chunks cs s = (True, wrote d' (concat cs) s) \<and>
    mem_get (cells d') (write_addr s) (length (concat cs)) = concat cs \<and>
    (\<forall>x. x < write_addr s \<or> hi \<le> x \<longrightarrow> cells d' x = cells (device s) x)"
  using assms(1-6)
proof (induction cs arbitrary: s)
  case Nil
  show ?case by (rule exI [of _ "device s"]) (simp add: wrote_def)
next
  case (Cons c cs)
  have fits: "write_addr s + length c \<le> cap" using Cons.prems(6) assms(8) by simp
  obtain d1 where d1: "writeChunk c s = (int (length c), wrote d1 c s)"
    "cells d1 = flash_store sector (write_addr s) c (cells (device s))"
    using writeChunk_ok [OF Cons.prems(1,2) _ fits] Cons.prems(3) by auto
  have frame: "cells d1 x = cells (device s) x" if "x < write_addr s \<or> hi \<le> x" for x
    using that flash_store_frame [OF geometry(1) _ Cons.prems(5) assms(7), of c "write_addr s" x]
      Cons.prems(3,6) by (simp add: d1(2))
  have here: "mem_get (cells d1) (write_addr s) (length c) = c" by (simp add: d1(2))
  show ?case
  proof (cases "cs = []")
    case True
    then show ?thesis using d1(1) frame here by auto
  next
    case False
    let ?s = "wrote d1 c s"
    have a: "write_addr ?s = write_addr s + length c" using fits by (rule write_addr_wrote)
    have dvd: "sector dvd write_addr ?s" using Cons.prems(4,5) False by (simp add: a)
    obtain d2 where d2: "write_chunks cs ?s = (True, wrote d2 (concat cs) ?s)"
      "mem_get (cells d2) (write_addr ?s) (length (concat cs)) = concat cs"
      "\<forall>x. x < write_addr ?s \<or> hi \<le> x \<longrightarrow> cells d2 x = cells (device ?s) x"
      using Cons.IH [of ?s] Cons.prems False dvd by (auto simp: a add.assoc)
    have "mem_get (cells d2) (write_addr s) (length c) = mem_get (cells d1) (write_addr s) (length c)"
      using d2(3) by (intro mem_get_cong) (simp add: a)
    then have "mem_get (cells d2) (write_addr s) (length (concat (c # cs))) = concat (c # cs)"
      using here d2(2) by (simp add: mem_get_add a)
    moreover have "cells d2 x = cells (device s) x" if "x < write_addr s \<or> hi \<le> x" for x
      using that d2(3) frame by (auto simp: a)
    ultimately show ?thesis using d1(1) d2(1) by (auto simp: wrote_wrote)
  qed
qed

text \<open>Storing a header changes nothing from the end of the header area on.\<close>

lemma write_header_ok:
  assumes "backend s = b" and "length (h_reserved h) = 2" and "sector dvd 4096"
    and "sector dvd unat off" and "unat off + 4096 \<le> cap"
  shows "\<exists>d'. storage_write off (header_bytes h) s = (24, s\<lparr>device := d'\<rparr>) \<and>
    bytes_header (mem_get (cells d') (unat off) 24) = h \<and>
    (\<forall>x. x < unat off \<or> unat off + 4096 \<le> x \<longrightarrow> cells d' x = cells (device s) x)"
proof -
  have n: "length (header_bytes h) = 24" using assms(2) by simp
  obtain d' where d': "storage_write off (header_bytes h) s = (24, s\<lparr>device := d'\<rparr>)"
    "cells d' = flash_store sector (unat off) (header_bytes h) (cells (device s))"
    using write_ok [OF assms(1) header_bytes_ne, of off h] assms(5) n by auto
  have "mem_get (cells d') (unat off) 24 = header_bytes h"
    using flash_store_get [of sector "unat off" "header_bytes h" "cells (device s)"]
    unfolding d'(2) n by simp
  moreover have "cells d' x = cells (device s) x" if "x < unat off \<or> unat off + 4096 \<le> x" for x
    using that flash_store_frame [OF geometry(1) header_bytes_ne assms(4), of "unat off + 4096" "unat off" h x]
      assms(3,4) n by (simp add: d'(2))
  ultimately show ?thesis using d'(1) assms(2) by auto
qed

lemma session_ok:
  assumes "backend s = b" and "sector dvd 4096"
    and "base = unat (slotOffset (fw s) ! unat (inactiveSlot (fw s)))" and "sector dvd base"
    and "sector dvd unat (slotSize (fw s))" and "4096 \<le> unat (slotSize (fw s))"
    and "base + unat (slotSize (fw s)) \<le> cap"
    and "\<forall>c\<in>set cs. c \<noteq> []" and "\<forall>c\<in>set (butlast cs). sector dvd length c"
    and "length (concat cs) = unat imageSize" and "unat imageSize \<le> unat (slotSize (fw s)) - 4096"
  shows "\<exists>s1 s2 s3 h. beginWrite imageSize version s = (True, s1) \<and> write_chunks cs s1 = (True, s2) \<and>
    finalizeWrite s2 = (True, s3) \<and> backend s3 = b \<and> fw s3 = (fw s)\<lparr>writeOffset := writeOffset (fw s3),
      writeCrc := writeCrc (fw s3), writeImageSize := imageSize, writeVersion := version, writing := False\<rparr> \<and>
    bytes_header (mem_get (cells (device s3)) base 24) = h \<and> h_size h = imageSize \<and>
    h_version h = version \<and> h_crc32 h = crc32_compute (concat cs) \<and>
    mem_get (cells (device s3)) (base + 4096) (unat imageSize) = concat cs \<and>
    (\<forall>x. x < base \<or> base + unat (slotSize (fw s)) \<le> x \<longrightarrow> cells (device s3) x = cells (device s) x)"
proof -
  let ?slot = "inactiveSlot (fw s)" and ?S = "unat (slotSize (fw s))"
  let ?s1 = "s\<lparr>fw := (fw s)\<lparr>writeOffset := kHeaderReserved, writeCrc := crc32_initial,
              writeImageSize := imageSize, writeVersion := version, writing := True\<rparr>\<rparr>"
  have "unat (slotSize (fw s) - kHeaderReserved) = ?S - 4096"
    using assms(6) by (simp add: unat_sub word_le_nat_alt kHeaderReserved_def)
  then have beg: "beginWrite imageSize version s = (True, ?s1)"
    using assms(11) by (simp add: beginWrite_def word_less_nat_alt)
  have a1: "write_addr ?s1 = base + 4096" using assms(3) by (simp add: write_addr_def kHeaderReserved_def)
  have "sector dvd write_addr ?s1" and "sector dvd base + ?S"
    using assms(2,4,5) by (simp_all only: a1 dvd_add)
  moreover have "write_addr ?s1 + length (concat cs) \<le> base + ?S"
    using assms(6,10,11) by (simp add: a1)
  ultimately obtain d2 where d2: "write_chunks cs ?s1 = (True, wrote d2 (concat cs) ?s1)"
    "mem_get (cells d2) (base + 4096) (unat imageSize) = concat cs"
    "\<forall>x. x < base + 4096 \<or> base + ?S \<le> x \<longrightarrow> cells d2 x = cells (device s) x"
    using write_chunks_ok [of ?s1 cs "base + ?S"] assms(1,7-10) unfolding a1 by auto
  let ?s2 = "wrote d2 (concat cs) ?s1"
  let ?h = "zero_header\<lparr>h_magic := kFirmwareMagic, h_version := version, h_size := imageSize, h_slot := ?slot,
                 h_crc32 := crc32_compute (concat cs), h_flags := 0x01\<rparr>"
  obtain d3 where d3: "storage_write (slotOffset (fw s) ! unat ?slot) (header_bytes ?h) ?s2 = (24, ?s2\<lparr>device := d3\<rparr>)"
    "bytes_header (mem_get (cells d3) base 24) = ?h"
    "\<forall>x. x < base \<or> base + 4096 \<le> x \<longrightarrow> cells d3 x = cells d2 x"
    using write_header_ok [of ?s2 ?h "slotOffset (fw s) ! unat ?slot"] assms(1-4,6,7) by auto
  let ?s3 = "?s2\<lparr>device := d3, fw := (fw ?s2)\<lparr>writing := False\<rparr>\<rparr>"
  have body: "mem_get (cells d3) (base + 4096) (unat imageSize) = concat cs"
    using d2(2) d3(3) mem_get_cong [of "base + 4096" "unat imageSize" "cells d3" "cells d2"] by simp
  have outside: "\<forall>x. x < base \<or> base + ?S \<le> x \<longrightarrow> cells d3 x = cells (device s) x"
    using d2(3) d3(3) assms(6) by auto
  have "slot_valid (cells d3) base"
    using d3(2) body by (simp add: slot_valid_def Let_def)
  then have "verify ?slot ?s3"
    using verify_iff [of ?s3 ?slot base] d3(2) assms(1,3,7,10,11,6) by simp
  then have fin: "finalizeWrite ?s2 = (True, ?s3)"
    using d3(1) by (simp add: finalizeWrite_def Let_def crc32_compute_def wrote_def)
  have fields: "fw ?s3 = (fw s)\<lparr>writeOffset := writeOffset (fw ?s3),
      writeCrc := writeCrc (fw ?s3), writeImageSize := imageSize, writeVersion := version, writing := False\<rparr>"
    by (simp add: wrote_def)
  show ?thesis
    by (rule exI [of _ ?s1], rule exI [of _ ?s2], rule exI [of _ ?s3], rule exI [of _ ?h])
      (use beg d2(1) fin fields d3(2) body outside assms(1) in simp)
qed

end


section \<open>Activation\<close>

lemma and_1_or_2: "(f OR 2) AND 1 = (f AND 1 :: u8)"
  by (rule bit_word_eqI) (auto simp: bit_simps)

lemma length_bytes_header_reserved [simp]: "length bs = 24 \<Longrightarrow> length (h_reserved (bytes_header bs)) = 2"
  by (simp add: bytes_header_def)

lemma slot_valid_cong:
  assumes "\<forall>x. base \<le> x \<and> x < base + 4096 + unat (h_size (bytes_header (mem_get m base 24))) \<longrightarrow> m' x = m x"
  shows "slot_valid m' base = slot_valid m base"
proof -
  have "mem_get m' base 24 = mem_get m base 24" using assms by (intro mem_get_cong) simp
  moreover have "mem_get m' (base + 4096) (unat (h_size (bytes_header (mem_get m base 24)))) =
      mem_get m (base + 4096) (unat (h_size (bytes_header (mem_get m base 24))))"
    using assms by (intro mem_get_cong) simp
  ultimately show ?thesis by (simp add: slot_valid_def Let_def)
qed

text \<open>The layout of one slot that verification and activation rely on.\<close>

lemma finalizeWrite_verifies: "finalizeWrite s = (True, s') \<Longrightarrow> verify (inactiveSlot (fw s')) s' \<and> inactiveSlot (fw s') = inactiveSlot (fw s)"
  by (auto simp: finalizeWrite_def storage_write_def Let_def split: if_splits option.splits prod.splits)

definition slot_layout :: "nat \<Rightarrow> nat \<Rightarrow> memory \<Rightarrow> nat \<Rightarrow> bool" where
  "slot_layout cap sector m base \<longleftrightarrow> sector dvd base \<and> sector dvd 4096 \<and>
     base + 4096 + unat (h_size (bytes_header (mem_get m base 24))) \<le> cap"

definition slots_apart :: "memory \<Rightarrow> nat \<Rightarrow> nat \<Rightarrow> bool" where
  "slots_apart m base base' \<longleftrightarrow> base + 4096 \<le> base' \<or>
     base' + 4096 + unat (h_size (bytes_header (mem_get m base' 24))) \<le> base"

context flash_device
begin

text \<open>On the host, activating a verified slot only sets a flag in its header.\<close>

lemma activate_ok:
  assumes "backend s = b" and "slot \<le> 1" and "base = unat (slotOffset (fw s) ! unat slot)"
    and "slot_layout cap sector (cells (device s)) base" and "slot_valid (cells (device s)) base"
  shows "\<exists>d'. activateSlot host_ota slot s = (True, s\<lparr>device := d', fw := (fw s)\<lparr>activeSlot := slot\<rparr>\<rparr>) \<and>
    slot_valid (cells d') base \<and>
    h_size (bytes_header (mem_get (cells d') base 24)) = h_size (bytes_header (mem_get (cells (device s)) base 24)) \<and>
    (\<forall>x. x < base \<or> base + 4096 \<le> x \<longrightarrow> cells d' x = cells (device s) x)"
proof -
  let ?h = "bytes_header (mem_get (cells (device s)) base 24)"
  let ?h1 = "?h\<lparr>h_flags := h_flags ?h OR 0x02\<rparr>"
  have lay: "sector dvd base" "sector dvd 4096" "base + 4096 + unat (h_size ?h) \<le> cap"
    using assms(4) by (simp_all add: slot_layout_def)
  have v: "verify slot s" using verify_iff [OF assms(1-3)] lay(3) assms(5) by simp
  have hdr: "snd (getHeader slot s) = ?h"
    using getHeader_ok [OF assms(1,2)] assms(3) lay(3) by (simp add: Let_def)
  obtain d' where d': "storage_write (slotOffset (fw s) ! unat slot) (header_bytes ?h1) s = (24, s\<lparr>device := d'\<rparr>)"
    "bytes_header (mem_get (cells d') base 24) = ?h1"
    "\<forall>x. x < base \<or> base + 4096 \<le> x \<longrightarrow> cells d' x = cells (device s) x"
    using write_header_ok [OF assms(1), of ?h1 "slotOffset (fw s) ! unat slot"] lay assms(3) by auto
  have "mem_get (cells d') (base + 4096) n = mem_get (cells (device s)) (base + 4096) n" for n
    using d'(3) by (intro mem_get_cong) simp
  then have "slot_valid (cells d') base"
    using assms(5) by (simp add: slot_valid_def Let_def d'(2) and_1_or_2)
  moreover have "activateSlot host_ota slot s = (True, s\<lparr>device := d', fw := (fw s)\<lparr>activeSlot := slot\<rparr>\<rparr>)"
    using v assms(2) d'(1) hdr by (simp add: activateSlot_def host_ota_def Let_def not_less [symmetric])
  ultimately show ?thesis using d'(2,3) by auto
qed

text \<open>Activation of a slot whose image verifies touches neither this image nor that of the other slot.\<close>

lemma activate_keeps_other:
  assumes "backend s = b" and "new \<le> 1" and "old \<le> 1"
    and "base_new = unat (slotOffset (fw s) ! unat new)" and "base_old = unat (slotOffset (fw s) ! unat old)"
    and "slot_layout cap sector (cells (device s)) base_new" and "slot_layout cap sector (cells (device s)) base_old"
    and "slots_apart (cells (device s)) base_new base_old" and "verify new s" and "verify old s"
  shows "\<exists>s1. activateSlot host_ota new s = (True, s1) \<and> backend s1 = b \<and> slotOffset (fw s1) = slotOffset (fw s) \<and>
    activeSlot (fw s1) = new \<and> verify new s1 \<and> verify old s1 \<and> slot_layout cap sector (cells (device s1)) base_old \<and>
    slot_valid (cells (device s1)) base_old"
proof -
  let ?m = "cells (device s)"
  have lay: "base_new + 4096 + unat (h_size (bytes_header (mem_get ?m base_new 24))) \<le> cap"
    "base_old + 4096 + unat (h_size (bytes_header (mem_get ?m base_old 24))) \<le> cap"
    using assms(6,7) by (simp_all add: slot_layout_def)
  have valid: "slot_valid ?m base_new" "slot_valid ?m base_old"
    using assms(9,10) verify_iff [OF assms(1,2,4) lay(1)] verify_iff [OF assms(1,3,5) lay(2)] by simp_all
  obtain d where act: "activateSlot host_ota new s = (True, s\<lparr>device := d, fw := (fw s)\<lparr>activeSlot := new\<rparr>\<rparr>)"
    and d: "slot_valid (cells d) base_new"
      "h_size (bytes_header (mem_get (cells d) base_new 24)) = h_size (bytes_header (mem_get ?m base_new 24))"
      "\<forall>x. x < base_new \<or> base_new + 4096 \<le> x \<longrightarrow> cells d x = ?m x"
    using activate_ok [OF assms(1,2,4,6) valid(1)] by blast
  have keep: "\<forall>x. base_old \<le> x \<and> x < base_old + 4096 + unat (h_size (bytes_header (mem_get ?m base_old 24))) \<longrightarrow>
      cells d x = ?m x"
    using d(3) assms(8) by (auto simp: slots_apart_def)
  then have valid_old: "slot_valid (cells d) base_old" using valid(2) slot_valid_cong by blast
  have hdr_old: "mem_get (cells d) base_old 24 = mem_get ?m base_old 24" using keep by (intro mem_get_cong) simp
  let ?s1 = "s\<lparr>device := d, fw := (fw s)\<lparr>activeSlot := new\<rparr>\<rparr>"
  have "verify new ?s1" "verify old ?s1"
    using verify_iff [of ?s1 new base_new] verify_iff [of ?s1 old base_old] assms(1-5) d(1,2) valid_old hdr_old lay
    by simp_all
  moreover have "slot_layout cap sector (cells d) base_old" using assms(7) hdr_old by (simp add: slot_layout_def)
  ultimately show ?thesis using act valid_old assms(1) by simp
qed

text \<open>An update session and the activation of what it wrote.\<close>

lemma session_then_activate:
  assumes "backend s = b" and "sector dvd 4096"
    and "base = unat (slotOffset (fw s) ! unat (inactiveSlot (fw s)))" and "sector dvd base"
    and "sector dvd unat (slotSize (fw s))" and "4096 \<le> unat (slotSize (fw s))"
    and "base + unat (slotSize (fw s)) \<le> cap"
    and "\<forall>c\<in>set cs. c \<noteq> []" and "\<forall>c\<in>set (butlast cs). sector dvd length c"
    and "length (concat cs) = unat imageSize" and "unat imageSize \<le> unat (slotSize (fw s)) - 4096"
  shows "\<exists>k1 k2 k3 k4. beginWrite imageSize version s = (True, k1) \<and> write_chunks cs k1 = (True, k2) \<and>
    finalizeWrite k2 = (True, k3) \<and> inactiveSlot (fw k3) = inactiveSlot (fw s) \<and>
    activateSlot host_ota (inactiveSlot (fw k3)) k3 = (True, k4) \<and> activeSlot (fw k4) = inactiveSlot (fw s) \<and>
    verify (inactiveSlot (fw s)) k4 \<and> mem_get (cells (device k4)) (base + 4096) (unat imageSize) = concat cs \<and>
    (\<forall>x. x < base \<or> base + unat (slotSize (fw s)) \<le> x \<longrightarrow> cells (device k4) x = cells (device s) x)"
proof -
  let ?new = "inactiveSlot (fw s)" and ?S = "unat (slotSize (fw s))"
  obtain k1 k2 k3 h where k: "beginWrite imageSize version s = (True, k1)" "write_chunks cs k1 = (True, k2)"
      "finalizeWrite k2 = (True, k3)"
    and k3: "backend k3 = b" "fw k3 = (fw s)\<lparr>writeOffset := writeOffset (fw k3),
      writeCrc := writeCrc (fw k3), writeImageSize := imageSize, writeVersion := version, writing := False\<rparr>"
      "bytes_header (mem_get (cells (device k3)) base 24) = h" "h_size h = imageSize"
      "mem_get (cells (device k3)) (base + 4096) (unat imageSize) = concat cs"
      "\<forall>x. x < base \<or> base + ?S \<le> x \<longrightarrow> cells (device k3) x = cells (device s) x"
    using session_ok [OF assms, of version] by blast
  have in3: "inactiveSlot (fw k3) = ?new" and off3: "slotOffset (fw k3) = slotOffset (fw s)"
    by (subst k3(2), simp)+
  have bound: "base + 4096 + unat (h_size (bytes_header (mem_get (cells (device k3)) base 24))) \<le> cap"
    using assms(6,7,11) by (simp add: k3(3,4))
  have base3: "base = unat (slotOffset (fw k3) ! unat ?new)" using assms(3) off3 by simp
  have "verify ?new k3" using finalizeWrite_verifies [OF k(3)] unfolding in3 by (rule conjunct1)
  then have valid: "slot_valid (cells (device k3)) base" using verify_iff [OF k3(1) inactive_le_1 base3 bound] by simp
  have lay: "slot_layout cap sector (cells (device k3)) base" using assms(2,4) bound by (simp add: slot_layout_def)
  obtain d where act: "activateSlot host_ota ?new k3 = (True, k3\<lparr>device := d, fw := (fw k3)\<lparr>activeSlot := ?new\<rparr>\<rparr>)"
    and d: "slot_valid (cells d) base" "h_size (bytes_header (mem_get (cells d) base 24)) = h_size h"
      "\<forall>x. x < base \<or> base + 4096 \<le> x \<longrightarrow> cells d x = cells (device k3) x"
    using activate_ok [OF k3(1) inactive_le_1 base3 lay valid] k3(3) by auto
  let ?k4 = "k3\<lparr>device := d, fw := (fw k3)\<lparr>activeSlot := ?new\<rparr>\<rparr>"
  have "verify ?new ?k4"
    using verify_iff [of ?k4 ?new base] k3(1,4) base3 d(1,2) assms(6,7,11) by simp
  moreover have "mem_get (cells d) (base + 4096) (unat imageSize) = concat cs"
    using d(3) k3(5) mem_get_cong [of "base + 4096" "unat imageSize" "cells d" "cells (device k3)"] by simp
  moreover have "\<forall>x. x < base \<or> base + ?S \<le> x \<longrightarrow> cells d x = cells (device s) x"
    using d(3) k3(6) assms(6) by auto
  ultimately show ?thesis using k in3 act by auto
qed

end


section \<open>Properties\<close>

text \<open>A store with two empty slots of 28 KiB on the test backend, slot A active.\<close>

definition demo_fw :: "memory fw_sys" where
  "demo_fw = \<lparr>backend = mem_backend 65536 4096, regions = replicate kMaxRegions new_region, regionCount = 0,
     device = (\<lambda>_. 0xFF), fw = new_fw_cache\<lparr>slotOffset := [0x1000, 0x8000], slotSize := 0x7000\<rparr>\<rparr>"

lemma demo_fw_simps [simp]:
  "backend demo_fw = mem_backend 65536 4096" "device demo_fw = (\<lambda>_. 0xFF)"
  "slotOffset (fw demo_fw) = [0x1000, 0x8000]" "slotSize (fw demo_fw) = 0x7000"
  "activeSlot (fw demo_fw) = 0" "inactiveSlot (fw demo_fw) = 1" "writing (fw demo_fw) = False"
  by (simp_all add: demo_fw_def new_fw_cache_def inactiveSlot_def)

text \<open>
  C17: an update session that delivers an image that fits, in chunks all of which but the last
  are whole sectors, succeeds on every flash device: \<open>finalizeWrite\<close> and \<open>verify\<close> accept it,
  the image reads back, the running slot stays active and no byte outside the slot that is
  written changes.
\<close>

theorem update_session_succeeds:
  assumes "flash_device b rd wr er cells cap sector" and "backend s = b" and "sector dvd 4096"
    and "base = unat (slotOffset (fw s) ! unat (inactiveSlot (fw s)))" and "sector dvd base"
    and "sector dvd unat (slotSize (fw s))" and "4096 \<le> unat (slotSize (fw s))"
    and "base + unat (slotSize (fw s)) \<le> cap"
    and "\<forall>c\<in>set cs. c \<noteq> []" and "\<forall>c\<in>set (butlast cs). sector dvd length c"
    and "length (concat cs) = unat imageSize" and "unat imageSize \<le> unat (slotSize (fw s)) - 4096"
  shows "\<exists>s1 s2 s3. beginWrite imageSize version s = (True, s1) \<and> write_chunks cs s1 = (True, s2) \<and>
    finalizeWrite s2 = (True, s3) \<and> verify (inactiveSlot (fw s)) s3 \<and> activeSlot (fw s3) = activeSlot (fw s) \<and>
    mem_get (cells (device s3)) (base + 4096) (unat imageSize) = concat cs \<and>
    (\<forall>x. x < base \<or> base + unat (slotSize (fw s)) \<le> x \<longrightarrow> cells (device s3) x = cells (device s) x)"
proof -
  obtain s1 s2 s3 where s: "beginWrite imageSize version s = (True, s1)" "write_chunks cs s1 = (True, s2)"
    "finalizeWrite s2 = (True, s3)" and f: "fw s3 = (fw s)\<lparr>writeOffset := writeOffset (fw s3),
      writeCrc := writeCrc (fw s3), writeImageSize := imageSize, writeVersion := version, writing := False\<rparr>"
    and m: "mem_get (cells (device s3)) (base + 4096) (unat imageSize) = concat cs"
      "\<forall>x. x < base \<or> base + unat (slotSize (fw s)) \<le> x \<longrightarrow> cells (device s3) x = cells (device s) x"
    using flash_device.session_ok [OF assms, of version] by blast
  have in2: "inactiveSlot (fw s2) = inactiveSlot (fw s3)"
    using s(3) by (auto simp: finalizeWrite_def Let_def storage_write_def inactiveSlot_def
        split: option.splits prod.splits if_splits)
  have "inactiveSlot (fw s3) = inactiveSlot (fw s)" by (subst f) simp
  then have "verify (inactiveSlot (fw s)) s3"
    using s(3) in2 by (auto simp: finalizeWrite_def Let_def split: if_splits)
  moreover have "activeSlot (fw s3) = activeSlot (fw s)" by (subst f) simp
  ultimately show ?thesis using s m by blast
qed

theorem update_session_succeeds_witness:
  "\<exists>s1 s2 s3. beginWrite 4100 7 demo_fw = (True, s1) \<and>
     write_chunks [replicate 4096 1, [1, 2, 3, 4]] s1 = (True, s2) \<and> finalizeWrite s2 = (True, s3) \<and>
     verify 1 s3"
  using update_session_succeeds [OF testflash.flash_device_axioms, of demo_fw "0x8000"
      "[replicate 4096 1, [1, 2, 3, 4]]" 4100 7]
  by fastforce

text \<open>
  C8: a change of up to four consecutive bytes anywhere in the body of a verified image makes
  \<open>verify\<close> reject it.
\<close>

theorem verify_detects_corruption:
  assumes "flash_device b rd wr er cells cap sector" and "backend s = b" and "backend s' = b"
    and "fw s' = fw s" and "slot \<le> 1" and "base = unat (slotOffset (fw s) ! unat slot)"
    and "n = unat (h_size (bytes_header (mem_get (cells (device s)) base 24)))" and "base + 4096 + n \<le> cap"
    and "verify slot s" and "base + 4096 \<le> a" and "a + k \<le> base + 4096 + n" and "k \<le> 4"
    and "mem_get (cells (device s')) a k \<noteq> mem_get (cells (device s)) a k"
    and "\<forall>x. x < a \<or> a + k \<le> x \<longrightarrow> cells (device s') x = cells (device s) x"
  shows "\<not> verify slot s'"
proof -
  let ?m = "cells (device s)" and ?m' = "cells (device s')"
  have hd: "mem_get ?m' base 24 = mem_get ?m base 24"
    using assms(10,14) by (intro mem_get_cong) simp
  obtain i j where i: "a = base + 4096 + i" and j: "n = i + k + j"
    using assms(10,11) by (metis add.assoc add_le_cancel_left le_Suc_ex)
  have split: "mem_get u (base + 4096) n = mem_get u (base + 4096) i @ mem_get u a k @ mem_get u (a + k) j" for u
    by (simp add: i j mem_get_add add.assoc)
  have "mem_get ?m' (base + 4096) i = mem_get ?m (base + 4096) i"
    and "mem_get ?m' (a + k) j = mem_get ?m (a + k) j"
    using assms(14) by (auto intro!: mem_get_cong simp: i)
  then have "crc32_update crc32_initial (mem_get ?m' (base + 4096) n) \<noteq>
      crc32_update crc32_initial (mem_get ?m (base + 4096) n)"
    unfolding split crc32_update_def using assms(12,13) by (simp only:) (intro crc.burst_detected, simp_all)
  then have "crc32_compute (mem_get ?m' (base + 4096) n) \<noteq> crc32_compute (mem_get ?m (base + 4096) n)"
    by (simp add: crc32_compute_def)
  moreover have "slot_valid ?m base"
    using flash_device.verify_iff [OF assms(1,2,5,6)] assms(7-9) by simp
  then have "crc32_compute (mem_get ?m (base + 4096) n) = h_crc32 (bytes_header (mem_get ?m base 24))"
    using assms(7) by (simp add: slot_valid_def Let_def)
  ultimately have "crc32_compute (mem_get ?m' (base + 4096) n) \<noteq> h_crc32 (bytes_header (mem_get ?m base 24))"
    by simp
  then have "\<not> slot_valid ?m' base"
    using assms(7) hd by (simp add: slot_valid_def Let_def)
  then show ?thesis
    using flash_device.verify_iff [OF assms(1,3,5), of base] assms(4,6-8) hd by simp
qed

text \<open>A store whose slot B holds a valid image of the eight bytes 1 to 8.\<close>

definition valid_header :: fw_header where
  "valid_header = zero_header\<lparr>h_magic := kFirmwareMagic, h_size := 8, h_slot := 1,
     h_crc32 := crc32_compute [1, 2, 3, 4, 5, 6, 7, 8], h_flags := 1\<rparr>"

definition valid_memory :: memory where
  "valid_memory = mem_put (mem_put (mem_put (mem_put (\<lambda>_. 0xFF) 0x8000 (header_bytes valid_header))
     0x9000 [1, 2, 3, 4, 5, 6, 7, 8]) 0x1000 (header_bytes valid_header)) 0x2000 [1, 2, 3, 4, 5, 6, 7, 8]"

lemma valid_memory_simps [simp]:
  "mem_get valid_memory 0x8000 24 = header_bytes valid_header"
  "mem_get valid_memory 0x9000 8 = [1, 2, 3, 4, 5, 6, 7, 8]"
  "mem_get valid_memory 0x1000 24 = header_bytes valid_header"
  "mem_get valid_memory 0x2000 8 = [1, 2, 3, 4, 5, 6, 7, 8]"
proof -
  have n: "length (header_bytes valid_header) = 24" by (simp add: valid_header_def)
  have g: "mem_get (mem_put m a (header_bytes valid_header)) a 24 = header_bytes valid_header" for m a
    using mem_get_put [of m a "header_bytes valid_header"] unfolding n .
  have g8: "mem_get (mem_put m a [1, 2, 3, 4, 5, 6, 7, 8]) a 8 = [1, 2, 3, 4, 5, 6, 7, 8]" for m a
  proof -
    have "length [1, 2, 3, 4, 5, 6, 7, 8 :: u8] = 8" by simp
    with mem_get_put [of m a "[1, 2, 3, 4, 5, 6, 7, 8]"] show ?thesis by (simp only:)
  qed
  show "mem_get valid_memory 0x8000 24 = header_bytes valid_header"
    "mem_get valid_memory 0x9000 8 = [1, 2, 3, 4, 5, 6, 7, 8]"
    "mem_get valid_memory 0x1000 24 = header_bytes valid_header"
    "mem_get valid_memory 0x2000 8 = [1, 2, 3, 4, 5, 6, 7, 8]"
    unfolding valid_memory_def by (simp_all add: mem_get_put_other g g8 n del: length_header_bytes)
qed

definition valid_fw :: "memory fw_sys" where
  "valid_fw = demo_fw\<lparr>device := valid_memory\<rparr>"

lemma valid_fw_simps [simp]:
  "backend valid_fw = mem_backend 65536 4096" "device valid_fw = valid_memory" "fw valid_fw = fw demo_fw"
  by (simp_all add: valid_fw_def)

lemma header_valid [simp]: "bytes_header (header_bytes valid_header) = valid_header"
  by (simp add: valid_header_def)

lemma slot_valid_memory: "base \<in> {0x1000, 0x8000} \<Longrightarrow> slot_valid valid_memory base"
  by (auto simp: slot_valid_def valid_header_def Let_def)

lemma verify_valid_fw: "slot \<le> 1 \<Longrightarrow> verify slot valid_fw"
proof -
  assume le: "slot \<le> 1"
  then have s: "slot = 0 \<or> slot = 1"
    using unat_0_iff [of slot] unsigned_word_eqI [of slot 1, where 'a = nat]
    by (auto simp: word_le_nat_alt le_Suc_eq)
  show ?thesis
    using s testflash.verify_iff [of valid_fw slot "unat (slotOffset (fw valid_fw) ! unat slot)"] le
      slot_valid_memory
    by (auto simp: valid_header_def)
qed

theorem verify_detects_corruption_witness:
  "verify 1 valid_fw \<and> \<not> verify 1 (valid_fw\<lparr>device := mem_put valid_memory 0x9002 [77]\<rparr>)"
proof -
  have at: "valid_memory 0x9002 = 3"
    using valid_memory_simps(2) by (simp add: mem_get_def upt_rec)
  have "\<not> verify 1 (valid_fw\<lparr>device := mem_put valid_memory 0x9002 [77]\<rparr>)"
    by (rule verify_detects_corruption [OF testflash.flash_device_axioms, of valid_fw _ 1 "0x8000" 8 "0x9002" 1])
      (use at in \<open>simp_all add: verify_valid_fw valid_header_def mem_put_def
        mem_get_def [of _ "0x9002"]\<close>)
  then show ?thesis by (simp add: verify_valid_fw)
qed

text \<open>
  C9: \<open>activateSlot\<close> switches only to a slot that verifies and otherwise changes nothing.
  After a switch, both images still verify, and \<open>rollback\<close> returns to the slot that was
  active before.
\<close>

theorem activate_then_rollback:
  assumes "flash_device b rd wr er cells cap sector" and "backend s = b"
    and "activeSlot (fw s) = old" and "old \<le> 1" and "new = inactiveSlot (fw s)"
    and "base_old = unat (slotOffset (fw s) ! unat old)" and "base_new = unat (slotOffset (fw s) ! unat new)"
    and "slot_layout cap sector (cells (device s)) base_old" and "slot_layout cap sector (cells (device s)) base_new"
    and "slots_apart (cells (device s)) base_new base_old" and "slots_apart (cells (device s)) base_old base_new"
  shows "(\<not> verify new s \<longrightarrow> activateSlot ota new s = (False, s)) \<and>
    (verify new s \<and> verify old s \<longrightarrow>
       (\<exists>s1 s2. activateSlot host_ota new s = (True, s1) \<and> activeSlot (fw s1) = new \<and>
          verify new s1 \<and> verify old s1 \<and> rollback host_ota s1 = (True, s2) \<and> activeSlot (fw s2) = old))"
proof (intro conjI impI)
  show "activateSlot ota new s = (False, s)" if "\<not> verify new s"
    using that by (simp add: activateSlot_def)
  assume v: "verify new s \<and> verify old s"
  have new: "new \<le> 1" using assms(5) by simp
  obtain s1 where s1: "activateSlot host_ota new s = (True, s1)" "backend s1 = b" "slotOffset (fw s1) = slotOffset (fw s)"
      "activeSlot (fw s1) = new" "verify new s1" "verify old s1" "slot_layout cap sector (cells (device s1)) base_old"
      "slot_valid (cells (device s1)) base_old"
    using flash_device.activate_keeps_other [OF assms(1,2) new assms(4,7,6,9,8,10)] v by blast
  have "old = 0 \<or> old = 1"
    using assms(4) unat_0_iff [of old] unsigned_word_eqI [of old 1, where 'a = nat]
    by (auto simp: word_le_nat_alt le_Suc_eq)
  then have "inactiveSlot (fw s1) = old" using s1(4) assms(3,5) by (auto simp: inactiveSlot_def)
  moreover obtain d2 where "activateSlot host_ota old s1 = (True, s1\<lparr>device := d2, fw := (fw s1)\<lparr>activeSlot := old\<rparr>\<rparr>)"
    using flash_device.activate_ok [OF assms(1) s1(2) assms(4) _ s1(7,8)] s1(3) assms(6) by auto
  ultimately have "rollback host_ota s1 = (True, s1\<lparr>device := d2, fw := (fw s1)\<lparr>activeSlot := old\<rparr>\<rparr>)"
    using s1(6) by (simp add: rollback_def)
  then show "\<exists>s1 s2. activateSlot host_ota new s = (True, s1) \<and> activeSlot (fw s1) = new \<and>
          verify new s1 \<and> verify old s1 \<and> rollback host_ota s1 = (True, s2) \<and> activeSlot (fw s2) = old"
    using s1 by auto
qed

theorem activate_then_rollback_witness:
  "\<exists>s1 s2. activateSlot host_ota 1 valid_fw = (True, s1) \<and> activeSlot (fw s1) = 1 \<and>
     rollback host_ota s1 = (True, s2) \<and> activeSlot (fw s2) = 0"
proof -
  have lay: "slot_layout 65536 4096 (id (device valid_fw)) 0x1000" "slot_layout 65536 4096 (id (device valid_fw)) 0x8000"
    "slots_apart (id (device valid_fw)) 0x8000 0x1000" "slots_apart (id (device valid_fw)) 0x1000 0x8000"
    by (simp_all add: slot_layout_def slots_apart_def valid_header_def)
  have p: "activeSlot (fw valid_fw) = 0" "(0 :: u8) \<le> 1" "(1 :: u8) = inactiveSlot (fw valid_fw)"
    "0x1000 = unat (slotOffset (fw valid_fw) ! unat (0 :: u8))"
    "0x8000 = unat (slotOffset (fw valid_fw) ! unat (1 :: u8))"
    by simp_all
  have v: "verify 1 valid_fw \<and> verify 0 valid_fw" by (simp add: verify_valid_fw)
  show ?thesis
    using activate_then_rollback [OF testflash.flash_device_axioms valid_fw_simps(1), OF p lay, of host_ota, THEN conjunct2] v
    by blast
qed

text \<open>
  C40: The choice of slot B does not survive a restart of a build without the OTA functions of the
  vendor. \<open>activateSlot\<close> marks the new slot as active in its header (flag 0x02), but
  \<open>FirmwareCache::init\<close> only looks for a valid image (flag 0x01) and takes slot A first: as long as
  slot A verifies, the next start runs slot A again, although the switch to B was reported as done.
\<close>
theorem activation_lost_on_restart:
  assumes "flash_device b rd wr er cells cap sector" and "backend s = b"
    and "slotOffset (fw s) = [offA, offB]" and "verify 0 s" and "verify 1 s"
    and "slot_layout cap sector (cells (device s)) (unat offA)" and "slot_layout cap sector (cells (device s)) (unat offB)"
    and "slots_apart (cells (device s)) (unat offB) (unat offA)"
  shows "\<exists>s1. activateSlot host_ota 1 s = (True, s1) \<and> activeSlot (fw s1) = 1 \<and>
    activeSlot (fw (snd (fw_init host_ota offA offB (slotSize (fw s)) s1))) = 0"
proof -
  let ?m = "cells (device s)"
  have lay: "unat offA + 4096 + unat (h_size (bytes_header (mem_get ?m (unat offA) 24))) \<le> cap"
    "unat offB + 4096 + unat (h_size (bytes_header (mem_get ?m (unat offB) 24))) \<le> cap"
    using assms(6,7) by (simp_all add: slot_layout_def)
  have valid: "slot_valid ?m (unat offA)" "slot_valid ?m (unat offB)"
    using assms(3-5) flash_device.verify_iff [OF assms(1,2), of 0 "unat offA"] lay
      flash_device.verify_iff [OF assms(1,2), of 1 "unat offB"] by simp_all
  obtain d where act: "activateSlot host_ota 1 s = (True, s\<lparr>device := d, fw := (fw s)\<lparr>activeSlot := 1\<rparr>\<rparr>)"
    and d: "\<forall>x. x < unat offB \<or> unat offB + 4096 \<le> x \<longrightarrow> cells d x = ?m x"
    using flash_device.activate_ok [OF assms(1,2), of 1 "unat offB"] assms(3,7) valid(2) by auto
  define s1 where "s1 = s\<lparr>device := d, fw := (fw s)\<lparr>activeSlot := 1\<rparr>\<rparr>"
  define s2 where "s2 = s1\<lparr>fw := (fw s1)\<lparr>slotOffset := [offA, offB], slotSize := slotSize (fw s)\<rparr>\<rparr>"
  have "\<forall>x. unat offA \<le> x \<and> x < unat offA + 4096 + unat (h_size (bytes_header (mem_get ?m (unat offA) 24))) \<longrightarrow>
      cells d x = ?m x"
    using d assms(8) by (auto simp: slots_apart_def)
  then have "slot_valid (cells d) (unat offA)" using valid(1) slot_valid_cong by blast
  moreover have "getHeader 0 s2 = (let h = bytes_header (mem_get (cells d) (unat offA) 24) in (h_magic h = kFirmwareMagic, h))"
    using flash_device.getHeader_ok [OF assms(1), of s2 0] assms(2,3) lay(1) by (simp add: s2_def s1_def)
  ultimately have "activeSlot (fw (snd (fw_init host_ota offA offB (slotSize (fw s)) s1))) = 0"
    by (simp add: fw_init_def host_ota_def Let_def slot_valid_def flip: s2_def split: prod.split)
  then show ?thesis using act by (simp add: s1_def)
qed

theorem activation_lost_on_restart_witness:
  "\<exists>s1. activateSlot host_ota 1 valid_fw = (True, s1) \<and> activeSlot (fw s1) = 1 \<and>
     activeSlot (fw (snd (fw_init host_ota 0x1000 0x8000 0x7000 s1))) = 0"
proof -
  have lay: "slot_layout 65536 4096 (id (device valid_fw)) (unat (0x1000 :: u32))"
    "slot_layout 65536 4096 (id (device valid_fw)) (unat (0x8000 :: u32))"
    "slots_apart (id (device valid_fw)) (unat (0x8000 :: u32)) (unat (0x1000 :: u32))"
    by (simp_all add: slot_layout_def slots_apart_def valid_header_def)
  have o: "slotOffset (fw valid_fw) = [0x1000, 0x8000]" by simp
  have v: "verify 0 valid_fw" "verify 1 valid_fw" by (simp_all add: verify_valid_fw)
  show ?thesis
    using activation_lost_on_restart [OF testflash.flash_device_axioms valid_fw_simps(1), of "0x1000" "0x8000"] o v lay by simp
qed

text \<open>
  chunks that share a sector destroy each other. \<open>StorageManager::write\<close> erases whole
  sectors, so the second of two chunks erases the part of the first one that lies in the
  sector where the second begins; both writes report success.
\<close>

theorem chunk_erases_previous_in_sector:
  assumes "flash_device b rd wr er cells cap sector" and "backend s = b" and "writing (fw s)"
    and "c1 \<noteq> []" and "c2 \<noteq> []" and "write_addr s + length c1 + length c2 \<le> cap"
  shows "\<exists>s'. write_chunks [c1, c2] s = (True, s') \<and>
    (\<forall>x. write_addr s \<le> x \<and> x < write_addr s + length c1 \<and> sector_lo sector (write_addr s + length c1) \<le> x \<longrightarrow>
       cells (device s') x = 0xFF)"
proof -
  have fits: "write_addr s + length c1 \<le> cap" using assms(6) by simp
  obtain d1 where d1: "writeChunk c1 s = (int (length c1), wrote d1 c1 s)"
    using flash_device.writeChunk_ok [OF assms(1-4) fits] by blast
  have a: "write_addr (wrote d1 c1 s) = write_addr s + length c1"
    using assms(1) fits by (rule flash_device.write_addr_wrote)
  obtain d2 where d2: "writeChunk c2 (wrote d1 c1 s) = (int (length c2), wrote d2 c2 (wrote d1 c1 s))"
    "cells d2 = flash_store sector (write_addr s + length c1) c2 (cells d1)"
    using flash_device.writeChunk_ok [OF assms(1), of "wrote d1 c1 s" c2] assms(2,3,5,6) a by auto
  have sec: "0 < sector" using assms(1) by (simp add: flash_device_def)
  have "write_addr s + length c1 < sector_hi sector (write_addr s + length c1) (length c2)"
    using sector_bounds(2) [OF sec, of "length c2" "write_addr s + length c1"] assms(5) by (cases c2) auto
  then have "cells d2 x = 0xFF"
    if "sector_lo sector (write_addr s + length c1) \<le> x" "x < write_addr s + length c1" for x
    unfolding d2(2) using that by (intro flash_store_erased) auto
  with d1 d2(1) show ?thesis by simp
qed

theorem chunk_erases_previous_in_sector_witness:
  "\<exists>s'. write_chunks [[1, 2], [3, 4]] (snd (beginWrite 4 1 demo_fw)) = (True, s') \<and> device s' 0x9000 = 0xFF"
proof -
  let ?s = "snd (beginWrite 4 1 demo_fw)"
  have s: "backend ?s = mem_backend 65536 4096" "writing (fw ?s)" "write_addr ?s = 0x9000"
    by (simp_all add: beginWrite_def write_addr_def kHeaderReserved_def)
  show ?thesis
    using chunk_erases_previous_in_sector [OF testflash.flash_device_axioms s(1,2), of "[1, 2]" "[3, 4]"] s(3)
    by (fastforce simp: sector_lo_def)
qed

text \<open>
  \<open>writeChunk\<close> does not stop at the end of its slot. A chunk that runs into the other slot is
  accepted, and the image there no longer verifies (unless the chunk happens to contain the
  magic number at that place).
\<close>

lemma bytes_u32_prefix: "length xs = 4 \<Longrightarrow> bytes_u32 (xs @ ys) = bytes_u32 xs"
  by (auto simp: length_4)

theorem overlong_image_destroys_other_slot:
  assumes "flash_device b rd wr er cells cap sector" and "backend s = b" and "writing (fw s)"
    and "slot \<le> 1" and "base = unat (slotOffset (fw s) ! unat slot)" and "base + 24 \<le> cap"
    and "write_addr s \<le> base" and "base + 4 \<le> write_addr s + length data"
    and "write_addr s + length data \<le> cap"
    and "bytes_u32 (take 4 (drop (base - write_addr s) data)) \<noteq> kFirmwareMagic"
  shows "\<exists>s'. writeChunk data s = (int (length data), s') \<and> \<not> verify slot s'"
proof -
  have ne: "data \<noteq> []" using assms(7,8) by auto
  obtain d where d: "writeChunk data s = (int (length data), wrote d data s)"
    "cells d = flash_store sector (write_addr s) data (cells (device s))"
    using flash_device.writeChunk_ok [OF assms(1-3) ne assms(9)] by blast
  let ?k = "base - write_addr s"
  have "mem_get (cells d) base 4 = take 4 (drop ?k data)"
    using assms(7,8) by (intro nth_equalityI) (auto simp: d(2) flash_store_def mem_get_def mem_put_def)
  moreover have "mem_get (cells d) base 24 = mem_get (cells d) base 4 @ mem_get (cells d) (base + 4) 20"
    using mem_get_add [of "cells d" base 4 20] by simp
  moreover have "bytes_u32 (mem_get (cells d) base 4 @ mem_get (cells d) (base + 4) 20) = bytes_u32 (mem_get (cells d) base 4)"
    by (intro bytes_u32_prefix) simp
  ultimately have "h_magic (bytes_header (mem_get (cells d) base 24)) \<noteq> kFirmwareMagic"
    using assms(10) by (simp add: bytes_header_def)
  then have "\<not> verify slot (wrote d data s)"
    using flash_device.getHeader_ok [OF assms(1), of "wrote d data s" slot] assms(2,4-6)
    by (simp add: verify_def Let_def)
  with d(1) show ?thesis by blast
qed

theorem overlong_image_destroys_other_slot_witness:
  "\<exists>s'. writeChunk [0, 0, 0, 0] (valid_fw\<lparr>fw := (fw valid_fw)\<lparr>activeSlot := 1, writeOffset := 0x7000, writing := True\<rparr>\<rparr>)
     = (4, s') \<and> \<not> verify 1 s'"
proof -
  let ?s = "valid_fw\<lparr>fw := (fw valid_fw)\<lparr>activeSlot := 1, writeOffset := 0x7000, writing := True\<rparr>\<rparr>"
  have "write_addr ?s = 0x8000" by (simp add: write_addr_def inactiveSlot_def)
  then show ?thesis
    using overlong_image_destroys_other_slot [OF testflash.flash_device_axioms, of ?s 1 "0x8000" "[0, 0, 0, 0]"]
    by (simp add: kFirmwareMagic_def)
qed

end
