(* ===== verification/Boot.thy ===== *)
theory Boot
  imports Fw_Cache
begin

text \<open>
  The boot loader: \<open>takt_boot/include/takt/bootloader.hpp\<close> and
  \<open>takt_boot/src/bootloader.cpp\<close>.

  The boot configuration lives in memory that survives a reset (\<open>rtcBootConfig\<close>, or
  \<open>gHostBootConfig\<close> on the host). \<open>boot_entry\<close> is \<open>entry\<close> up to its decision: the function that its \<open>switch\<close> calls is a
  value of \<open>boot_outcome\<close>. \<open>jumpToFirmware\<close>, \<open>enterRecovery\<close> and \<open>enterEmergency\<close> are what the called function does, and
  \<open>bootloader_entry\<close> is \<open>entry\<close> with their effects; how such a call ends is a value of \<open>boot_end\<close>. What the hardware and
  the vendor SDK decide is a parameter: the level of GPIO 0 and the validity of an ESP image (\<open>boot_env\<close>), and the
  partitions (\<open>boot_vendor\<close>, \<open>None\<close> in the host build). Which program runs after \<open>esp_restart\<close> is decided by the vendor's
  first boot loader, of which no code is here.
\<close>


section \<open>State\<close>

datatype boot_mode = Normal | Recovery | OtaPending | FactoryReset | Emergency

fun boot_mode_code :: "boot_mode \<Rightarrow> u8" where
  "boot_mode_code Normal = 0"
| "boot_mode_code Recovery = 1"
| "boot_mode_code OtaPending = 2"
| "boot_mode_code FactoryReset = 3"
| "boot_mode_code Emergency = 4"

text \<open>
  The 12 bytes of the configuration, with the padding byte the compiler puts before the
  checksum; copies of the structure copy it. The mode is any byte, as read from the memory.
\<close>

record boot_config =
  bc_magic :: u32
  bc_mode :: u8
  bc_bootCount :: u8
  bc_otaSlot :: u8
  bc_pad :: u8
  bc_crc32 :: u32

record 'f boot_sys = "'f fw_sys" +
  bootConfig :: boot_config

record boot_env =
  gpio0_low :: bool
  esp_image_valid :: "(u8 \<Rightarrow> bool) option"

datatype boot_outcome =
  JumpToFirmware u32
| EnterRecovery
| EraseNvsEnterRecovery
| EnterEmergency

text \<open>
  The partitions as the vendor tells them: \<open>next_update\<close> is the label that \<open>esp_ota_get_next_update_partition (nullptr)\<close>
  finds on a device, \<open>recovery_part\<close> the one \<open>esp_partition_find_first\<close> finds for the recovery image.
\<close>

record 'f boot_vendor =
  bv_ota :: "'f esp_ota"
  next_update :: "'f \<Rightarrow> string option"
  recovery_part :: "'f \<Rightarrow> string option"

text \<open>
  \<open>Rebooted\<close> is a call of \<open>esp_restart\<close>, \<open>Aborted\<close> one of \<open>abort\<close>, \<open>HostExit\<close> is \<open>exit\<close> after the address was printed,
  \<open>Parked\<close> the endless loop of the emergency mode. \<open>Returned\<close> goes back to the caller of \<open>entry\<close>, although the functions
  are declared \<open>[[noreturn]]\<close>; what happens then is undefined in C++ and not modelled.
\<close>

datatype boot_end = Rebooted | Aborted | HostExit u32 | Parked | Returned

definition kBootConfigMagic :: u32 where
  "kBootConfigMagic = 0xB007C0DE"

definition config_bytes :: "boot_config \<Rightarrow> bytes" where
  "config_bytes c = u32_bytes (bc_magic c) @ [bc_mode c, bc_bootCount c, bc_otaSlot c, bc_pad c] @
     u32_bytes (bc_crc32 c)"

definition default_config :: boot_config where
  "default_config = \<lparr>bc_magic = kBootConfigMagic, bc_mode = boot_mode_code Normal, bc_bootCount = 0,
     bc_otaSlot = 0, bc_pad = 0, bc_crc32 = 0\<rparr>"


section \<open>Operations\<close>

definition loadBootConfig :: "('f, 'z) boot_sys_scheme \<Rightarrow> bool \<times> boot_config" where
  "loadBootConfig s =
     (let config = bootConfig s in
      if bc_magic config \<noteq> kBootConfigMagic then (False, default_config)
      else let stored = bc_crc32 config; config1 = config\<lparr>bc_crc32 := 0\<rparr>
           in (crc32Config (config_bytes config1) = stored, config1))"

definition saveBootConfig :: "boot_config \<Rightarrow> ('f, 'z) boot_sys_scheme \<Rightarrow> ('f, 'z) boot_sys_scheme" where
  "saveBootConfig config s =
     (let cfg = config\<lparr>bc_crc32 := 0\<rparr>
      in s\<lparr>bootConfig := cfg\<lparr>bc_crc32 := crc32Config (config_bytes cfg)\<rparr>\<rparr>)"

definition validateFirmware :: "boot_env \<Rightarrow> u8 \<Rightarrow> ('f, 'z) boot_sys_scheme \<Rightarrow> bool" where
  "validateFirmware env slot s =
     (case esp_image_valid env of Some valid \<Rightarrow> valid slot | None \<Rightarrow> verify slot s)"

definition determineBootMode :: "boot_env \<Rightarrow> ('f, 'z) boot_sys_scheme \<Rightarrow> boot_mode" where
  "determineBootMode env s =
     (let config = snd (loadBootConfig s) in
      if gpio0_low env then Recovery
      else if 3 < bc_bootCount config then Recovery
      else if bc_mode config = boot_mode_code FactoryReset then FactoryReset
      else if bc_mode config = boot_mode_code OtaPending then OtaPending
      else if \<not> validateFirmware env 0 s \<and> \<not> validateFirmware env 1 s then Emergency
      else Normal)"

definition markBootSuccessful :: "('f, 'z) boot_sys_scheme \<Rightarrow> ('f, 'z) boot_sys_scheme" where
  "markBootSuccessful s =
     saveBootConfig ((snd (loadBootConfig s))\<lparr>bc_bootCount := 0, bc_mode := boot_mode_code Normal\<rparr>) s"

definition requestOtaBoot :: "u8 \<Rightarrow> ('f, 'z) boot_sys_scheme \<Rightarrow> ('f, 'z) boot_sys_scheme" where
  "requestOtaBoot slot s =
     saveBootConfig ((snd (loadBootConfig s))\<lparr>bc_mode := boot_mode_code OtaPending, bc_otaSlot := slot\<rparr>) s"

text \<open>
  \<open>entry\<close> up to the call in its \<open>switch\<close>. The argument of \<open>jumpToFirmware\<close> is 0 for either OTA slot, as in the code.
\<close>

definition boot_entry :: "boot_env \<Rightarrow> ('f, 'z) boot_sys_scheme \<Rightarrow> boot_outcome \<times> ('f, 'z) boot_sys_scheme" where
  "boot_entry env s =
     (let config = snd (loadBootConfig s);
          config1 = config\<lparr>bc_bootCount := bc_bootCount config + 1\<rparr>;
          s1 = saveBootConfig config1 s
      in (case determineBootMode env s1 of
            Normal \<Rightarrow> JumpToFirmware 0
          | Recovery \<Rightarrow> EnterRecovery
          | FactoryReset \<Rightarrow> EraseNvsEnterRecovery
          | OtaPending \<Rightarrow> JumpToFirmware (if bc_otaSlot config1 = 0 then 0 else 0)
          | Emergency \<Rightarrow> EnterEmergency, s1))"

text \<open>
  What the called function does. On the ESP32 \<open>jumpToFirmware\<close> does not use its argument: it takes the partition that
  the next update would be written to, or else the running one, ignores whether it could be set, and restarts.
\<close>

definition jump_target :: "'f boot_vendor \<Rightarrow> 'f \<Rightarrow> string option" where
  "jump_target v d = (case next_update v d of Some part \<Rightarrow> Some part | None \<Rightarrow> running_label (bv_ota v) d)"

definition restart_into :: "'f boot_vendor \<Rightarrow> string \<Rightarrow> ('f, 'z) boot_sys_scheme \<Rightarrow> boot_end \<times> ('f, 'z) boot_sys_scheme" where
  "restart_into v part s = (Rebooted, s\<lparr>device := snd (set_boot (bv_ota v) part (device s))\<rparr>)"

definition jumpToFirmware ::
  "'f boot_vendor option \<Rightarrow> u32 \<Rightarrow> ('f, 'z) boot_sys_scheme \<Rightarrow> boot_end \<times> ('f, 'z) boot_sys_scheme" where
  "jumpToFirmware vendor flashOffset s =
     (case vendor of None \<Rightarrow> (HostExit flashOffset, s)
      | Some v \<Rightarrow> (case jump_target v (device s) of None \<Rightarrow> (Aborted, s) | Some part \<Rightarrow> restart_into v part s))"

definition enterRecovery :: "'f boot_vendor option \<Rightarrow> ('f, 'z) boot_sys_scheme \<Rightarrow> boot_end \<times> ('f, 'z) boot_sys_scheme" where
  "enterRecovery vendor s =
     (case vendor of None \<Rightarrow> (Returned, s)
      | Some v \<Rightarrow> (case recovery_part v (device s) of None \<Rightarrow> (Returned, s) | Some part \<Rightarrow> restart_into v part s))"

definition enterEmergency :: "'f boot_vendor option \<Rightarrow> ('f, 'z) boot_sys_scheme \<Rightarrow> boot_end \<times> ('f, 'z) boot_sys_scheme" where
  "enterEmergency vendor s = (if vendor = None then Returned else Parked, s)"

fun leave ::
  "'f boot_vendor option \<Rightarrow> boot_outcome \<Rightarrow> ('f, 'z) boot_sys_scheme \<Rightarrow> boot_end \<times> ('f, 'z) boot_sys_scheme" where
  "leave vendor (JumpToFirmware flashOffset) s = jumpToFirmware vendor flashOffset s"
| "leave vendor EnterRecovery s = enterRecovery vendor s"
| "leave vendor EraseNvsEnterRecovery s = enterRecovery vendor s"
| "leave vendor EnterEmergency s = enterEmergency vendor s"

text \<open>
  The whole of \<open>entry\<close>; \<open>erase\<close> is \<open>NvsManager::eraseAll\<close> on the key-value store, whose result is ignored.
\<close>

definition bootloader_entry ::
  "boot_env \<Rightarrow> 'f boot_vendor option \<Rightarrow> ('n \<Rightarrow> bool \<times> 'n) \<Rightarrow> ('f, 'z) boot_sys_scheme \<Rightarrow> 'n \<Rightarrow>
   boot_outcome \<times> boot_end \<times> ('f, 'z) boot_sys_scheme \<times> 'n" where
  "bootloader_entry env vendor erase s nvs =
     (let (out, s1) = boot_entry env s;
          nvs1 = (if out = EraseNvsEnterRecovery then snd (erase nvs) else nvs);
          (e, s2) = leave vendor out s1
      in (out, e, s2, nvs1))"

text \<open>\<open>n\<close> resets in a row, none of which reports success: the outcome of the last one.\<close>

primrec boots :: "boot_env \<Rightarrow> nat \<Rightarrow> ('f, 'z) boot_sys_scheme \<Rightarrow> ('f, 'z) boot_sys_scheme" where
  "boots env 0 s = s"
| "boots env (Suc n) s = boots env n (snd (boot_entry env s))"


section \<open>The configuration\<close>

lemma load_save:
  "bc_magic c = kBootConfigMagic \<Longrightarrow> loadBootConfig (saveBootConfig c s) = (True, c\<lparr>bc_crc32 := 0\<rparr>)"
  by (simp add: loadBootConfig_def saveBootConfig_def Let_def)

lemma load_magic [simp]: "bc_magic (snd (loadBootConfig s)) = kBootConfigMagic"
  by (simp add: loadBootConfig_def default_config_def Let_def)

lemma load_crc [simp]: "bc_crc32 (snd (loadBootConfig s)) = 0"
  by (simp add: loadBootConfig_def default_config_def Let_def)

lemma crc_absorb_config:
  "(snd (loadBootConfig s))\<lparr>bc_crc32 := 0\<rparr> = snd (loadBootConfig s)"
  by (metis (no_types) boot_config.surjective boot_config.update_convs(6) load_crc)

lemma save_frame [simp]:
  "backend (saveBootConfig c s) = backend s" "device (saveBootConfig c s) = device s" "fw (saveBootConfig c s) = fw s"
  by (simp_all add: saveBootConfig_def Let_def)

lemma storage_read_save [simp]: "storage_read off len (saveBootConfig c s) = storage_read off len s"
  by (simp add: storage_read_def split: option.split)

lemma verify_loop_save [simp]: "verify_loop off rem crc (saveBootConfig c s) = verify_loop off rem crc s"
proof (induction off rem crc s rule: verify_loop.induct)
  case (1 off rem crc s)
  then show ?case by (subst (1 2) verify_loop.simps) (auto simp: Let_def split: prod.split)
qed

lemma verify_save [simp]: "verify slot (saveBootConfig c s) = verify slot s"
  by (simp add: verify_def getHeader_def)

lemma validate_save [simp]: "validateFirmware env slot (saveBootConfig c s) = validateFirmware env slot s"
  by (simp add: validateFirmware_def split: option.split)

lemma entry_config:
  "loadBootConfig (snd (boot_entry env s)) =
     (True, (snd (loadBootConfig s))\<lparr>bc_bootCount := bc_bootCount (snd (loadBootConfig s)) + 1\<rparr>)"
  using crc_absorb_config [of s]
  by (simp add: boot_entry_def Let_def load_save boot_config.equality)

lemma validate_entry [simp]:
  "validateFirmware env slot (snd (boot_entry env s)) = validateFirmware env slot s"
  by (simp add: boot_entry_def Let_def)

lemma load_boots_add:
  "snd (loadBootConfig (boots env n s)) =
     (snd (loadBootConfig s))\<lparr>bc_bootCount := bc_bootCount (snd (loadBootConfig s)) + of_nat n\<rparr>"
  by (induction n arbitrary: s) (simp_all add: entry_config add.assoc)

lemma load_boots:
  "bc_bootCount (snd (loadBootConfig s)) = 0 \<Longrightarrow>
   snd (loadBootConfig (boots env n s)) = (snd (loadBootConfig s))\<lparr>bc_bootCount := of_nat n\<rparr>"
  by (simp add: load_boots_add)

text \<open>Leaving the boot loader changes at most the choice of the boot partition on the device.\<close>

lemma leave_config [simp]:
  "bootConfig (snd (leave vendor out s)) = bootConfig s" "loadBootConfig (snd (leave vendor out s)) = loadBootConfig s"
  by (cases out; simp add: jumpToFirmware_def enterRecovery_def enterEmergency_def restart_into_def loadBootConfig_def
      split: option.split)+

lemma bootloader_entry_parts:
  assumes "bootloader_entry env vendor erase s nvs = (out, e, s2, nvs2)"
  shows "out = fst (boot_entry env s)" and "leave vendor out (snd (boot_entry env s)) = (e, s2)"
    and "loadBootConfig s2 = loadBootConfig (snd (boot_entry env s))"
    and "out \<noteq> EraseNvsEnterRecovery \<Longrightarrow> nvs2 = nvs"
proof -
  show "out = fst (boot_entry env s)" and l: "leave vendor out (snd (boot_entry env s)) = (e, s2)"
    and "out \<noteq> EraseNvsEnterRecovery \<Longrightarrow> nvs2 = nvs"
    using assms by (auto simp: bootloader_entry_def Let_def split: prod.splits if_splits simp del: leave.simps)
  show "loadBootConfig s2 = loadBootConfig (snd (boot_entry env s))"
    using leave_config(2) [of vendor out "snd (boot_entry env s)"] by (simp add: l)
qed

lemma validate_boots [simp]: "validateFirmware env slot (boots env n s) = validateFirmware env slot s"
  by (induction n arbitrary: s) simp_all

lemma boot_entry_outcome:
  assumes "\<not> gpio0_low env" and "bc_mode (snd (loadBootConfig s)) = boot_mode_code Normal"
    and "validateFirmware env 0 s \<or> validateFirmware env 1 s"
  shows "fst (boot_entry env s) =
    (if 3 < bc_bootCount (snd (loadBootConfig s)) + 1 then EnterRecovery else JumpToFirmware 0)"
  using assms by (auto simp: boot_entry_def Let_def determineBootMode_def load_save)

lemma validate_mark [simp]:
  "validateFirmware env slot (markBootSuccessful s) = validateFirmware env slot s"
  by (simp add: markBootSuccessful_def)

lemma load_mark:
  "loadBootConfig (markBootSuccessful s) =
     (True, (snd (loadBootConfig s))\<lparr>bc_bootCount := 0, bc_mode := boot_mode_code Normal\<rparr>)"
  using crc_absorb_config [of s]
  by (simp add: markBootSuccessful_def load_save boot_config.equality)


section \<open>Properties\<close>

text \<open>A machine with two valid images that was switched on for the first time.\<close>

definition demo_boot :: "memory boot_sys" where
  "demo_boot = \<lparr>backend = no_backend, regions = replicate kMaxRegions new_region, regionCount = 0,
     device = (\<lambda>_. 0xFF), fw = new_fw_cache, bootConfig = default_config\<lparr>bc_magic := 0\<rparr>\<rparr>"

definition demo_env :: boot_env where
  "demo_env = \<lparr>gpio0_low = False, esp_image_valid = Some (\<lambda>_. True)\<rparr>"

text \<open>
  C29: a saved boot configuration loads again, field by field and with a matching checksum;
  if any of its mode, counter, slot and padding bytes is altered in between, the checksum
  does not match.
\<close>

theorem boot_config_roundtrip:
  assumes "bc_magic c = kBootConfigMagic"
  shows "loadBootConfig (saveBootConfig c s) = (True, c\<lparr>bc_crc32 := 0\<rparr>) \<and>
    ([m, n, q, p] \<noteq> [bc_mode c, bc_bootCount c, bc_otaSlot c, bc_pad c] \<longrightarrow>
     \<not> fst (loadBootConfig ((saveBootConfig c s)\<lparr>bootConfig := (bootConfig (saveBootConfig c s))
        \<lparr>bc_mode := m, bc_bootCount := n, bc_otaSlot := q, bc_pad := p\<rparr>\<rparr>)))"
proof (intro conjI impI)
  show "loadBootConfig (saveBootConfig c s) = (True, c\<lparr>bc_crc32 := 0\<rparr>)"
    using assms by (rule load_save)
  assume "[m, n, q, p] \<noteq> [bc_mode c, bc_bootCount c, bc_otaSlot c, bc_pad c]"
  then have "crc32Config (u32_bytes (bc_magic c) @ [m, n, q, p] @ u32_bytes 0) \<noteq>
      crc32Config (u32_bytes (bc_magic c) @ [bc_mode c, bc_bootCount c, bc_otaSlot c, bc_pad c] @ u32_bytes 0)"
    by (intro crc32Config_detects_burst) simp_all
  then show "\<not> fst (loadBootConfig ((saveBootConfig c s)\<lparr>bootConfig := (bootConfig (saveBootConfig c s))
        \<lparr>bc_mode := m, bc_bootCount := n, bc_otaSlot := q, bc_pad := p\<rparr>\<rparr>))"
    using assms by (simp add: loadBootConfig_def saveBootConfig_def Let_def config_bytes_def)
qed

theorem boot_config_roundtrip_witness:
  "loadBootConfig (saveBootConfig (default_config\<lparr>bc_bootCount := 2, bc_otaSlot := 1\<rparr>) demo_boot) =
   (True, default_config\<lparr>bc_bootCount := 2, bc_otaSlot := 1\<rparr>)"
  using boot_config_roundtrip [of "default_config\<lparr>bc_bootCount := 2, bc_otaSlot := 1\<rparr>" demo_boot]
  by (simp add: default_config_def)

text \<open>
  C10: a firmware that never reports success is given three attempts. From the fourth reset in
  a row on the recovery image starts, until the 8-bit counter has wrapped around after 256
  resets; one report of success gives three attempts again.
\<close>

theorem crash_loop_enters_recovery:
  assumes "\<not> gpio0_low env" and "bc_mode (snd (loadBootConfig s)) = boot_mode_code Normal"
    and "bc_bootCount (snd (loadBootConfig s)) = 0"
    and "validateFirmware env 0 s \<or> validateFirmware env 1 s"
  shows "fst (boot_entry env (boots env n s)) =
      (if 3 < (n + 1) mod 256 then EnterRecovery else JumpToFirmware 0) \<and>
    fst (boot_entry env (markBootSuccessful (boots env n s))) = JumpToFirmware 0"
proof
  have c: "snd (loadBootConfig (boots env n s)) = (snd (loadBootConfig s))\<lparr>bc_bootCount := of_nat n\<rparr>"
    using assms(3) by (rule load_boots)
  have u: "of_nat n + 1 = (of_nat (n + 1) :: u8)" by simp
  have "3 < (of_nat (n + 1) :: u8) \<longleftrightarrow> 3 < (n + 1) mod 256"
    unfolding word_less_nat_alt unat_of_nat by simp
  moreover have "bc_bootCount (snd (loadBootConfig (boots env n s))) + 1 = of_nat (n + 1)"
    unfolding u [symmetric] by (simp add: c)
  ultimately have "3 < bc_bootCount (snd (loadBootConfig (boots env n s))) + 1 \<longleftrightarrow> 3 < (n + 1) mod 256"
    by (simp only:)
  then show "fst (boot_entry env (boots env n s)) =
      (if 3 < (n + 1) mod 256 then EnterRecovery else JumpToFirmware 0)"
    using boot_entry_outcome [of env "boots env n s"] assms(1,2,4) c by simp
  show "fst (boot_entry env (markBootSuccessful (boots env n s))) = JumpToFirmware 0"
    using boot_entry_outcome [of env "markBootSuccessful (boots env n s)"] assms(1,4) by (simp add: load_mark)
qed

theorem crash_loop_enters_recovery_witness:
  "fst (boot_entry demo_env (boots demo_env 2 demo_boot)) = JumpToFirmware 0 \<and>
   fst (boot_entry demo_env (boots demo_env 3 demo_boot)) = EnterRecovery \<and>
   fst (boot_entry demo_env (boots demo_env 255 demo_boot)) = JumpToFirmware 0"
proof -
  have c: "snd (loadBootConfig demo_boot) = default_config"
    by (simp add: loadBootConfig_def demo_boot_def default_config_def kBootConfigMagic_def)
  have h: "\<not> gpio0_low demo_env" "bc_mode (snd (loadBootConfig demo_boot)) = boot_mode_code Normal"
    "bc_bootCount (snd (loadBootConfig demo_boot)) = 0"
    "validateFirmware demo_env 0 demo_boot \<or> validateFirmware demo_env 1 demo_boot"
    unfolding c by (simp_all add: default_config_def demo_env_def validateFirmware_def)
  show ?thesis
    using crash_loop_enters_recovery [OF h, of 2] crash_loop_enters_recovery [OF h, of 3]
      crash_loop_enters_recovery [OF h, of 255] by (simp del: boots.simps)
qed

text \<open>
  nobody acts on a checksum mismatch. The boot entry uses the fields of a configuration
  whose checksum is wrong and stores them with a fresh, correct checksum, so that from then on
  the corruption is undetectable.
\<close>

theorem boot_entry_launders_corruption:
  assumes "bc_magic (bootConfig s) = kBootConfigMagic" and "\<not> fst (loadBootConfig s)"
  shows "loadBootConfig (snd (boot_entry env s)) =
    (True, (bootConfig s)\<lparr>bc_bootCount := bc_bootCount (bootConfig s) + 1, bc_crc32 := 0\<rparr>)"
  using assms(1) by (simp add: entry_config) (simp add: loadBootConfig_def Let_def)

definition corrupted_config :: boot_config where
  "corrupted_config = (let c = default_config\<lparr>bc_bootCount := 200\<rparr>
     in c\<lparr>bc_crc32 := crc32Config (config_bytes c) + 1\<rparr>)"

theorem boot_entry_launders_corruption_witness:
  "fst (loadBootConfig (snd (boot_entry demo_env (demo_boot\<lparr>bootConfig := corrupted_config\<rparr>))))"
proof -
  have "bc_magic corrupted_config = kBootConfigMagic"
    by (simp add: corrupted_config_def default_config_def)
  moreover have "corrupted_config\<lparr>bc_crc32 := 0\<rparr> = default_config\<lparr>bc_bootCount := 200\<rparr>"
    by (simp add: corrupted_config_def default_config_def)
  then have "\<not> fst (loadBootConfig (demo_boot\<lparr>bootConfig := corrupted_config\<rparr>))"
    by (simp add: loadBootConfig_def) (simp add: corrupted_config_def default_config_def)
  ultimately show ?thesis
    using boot_entry_launders_corruption [of "demo_boot\<lparr>bootConfig := corrupted_config\<rparr>" demo_env] by simp
qed

end
