(* ===== verification/Nvs.thy ===== *)
theory Nvs
  imports Checksums
begin

text \<open>
  The key-value store: \<open>kernel/include/takt/nvs_manager.hpp\<close> and
  \<open>kernel/src/nvs_manager.cpp\<close>, in both builds.

  On the host the entries are a map (\<open>gHostNvs\<close>). On the ESP32 they go through the NVS library
  of the vendor, whose functions are the record \<open>nvs_api\<close>, a parameter on a state \<open>'n\<close>;
  what its documentation promises is the predicate \<open>nvs_api_ok\<close>. A C string is the list of
  its bytes before the terminator.
\<close>

type_synonym cstring = bytes

definition str :: "string \<Rightarrow> cstring" where
  "str s = map (\<lambda>c. of_nat (of_char c)) s"


section \<open>Host build\<close>

record host_nvs_entry =
  hn_data :: bytes
  hn_version :: u16
  hn_crc32 :: u32

record nvs_host =
  nvs_namespace :: cstring
  nvs_initialized :: bool
  gHostNvs :: "cstring \<rightharpoonup> host_nvs_entry"

definition new_nvs_host :: nvs_host where
  "new_nvs_host = \<lparr>nvs_namespace = [], nvs_initialized = False, gHostNvs = Map.empty\<rparr>"

definition nvs_init :: "cstring \<Rightarrow> nvs_host \<Rightarrow> bool \<times> nvs_host" where
  "nvs_init name n = (True, n\<lparr>nvs_namespace := take 15 name, nvs_initialized := True\<rparr>)"

definition host_key :: "cstring \<Rightarrow> nvs_host \<Rightarrow> cstring" where
  "host_key key n = nvs_namespace n @ str '':'' @ key"

definition writeEntry :: "cstring \<Rightarrow> bytes \<Rightarrow> u16 \<Rightarrow> nvs_host \<Rightarrow> bool \<times> nvs_host" where
  "writeEntry key data version n =
     (True, n\<lparr>gHostNvs := (gHostNvs n)(host_key key n \<mapsto>
        \<lparr>hn_data = data, hn_version = version, hn_crc32 = crc32_compute data\<rparr>)\<rparr>)"

text \<open>
  Reading copies the value over the front of the buffer of the caller, of \<open>maxLen\<close> bytes; a
  failed checksum is reported after the copy. The result is the success, the buffer and the
  version.
\<close>

definition overlay :: "bytes \<Rightarrow> bytes \<Rightarrow> bytes" where
  "overlay new old = new @ drop (length new) old"

definition readEntry :: "cstring \<Rightarrow> bytes \<Rightarrow> nvs_host \<Rightarrow> bool \<times> bytes \<times> u16 option" where
  "readEntry key buf n =
     (case gHostNvs n (host_key key n) of None \<Rightarrow> (False, buf, None)
      | Some e \<Rightarrow>
        if length buf < length (hn_data e) then (False, buf, None)
        else if crc32_compute (hn_data e) \<noteq> hn_crc32 e then (False, overlay (hn_data e) buf, None)
        else (True, overlay (hn_data e) buf, Some (hn_version e)))"

definition setBlob :: "cstring \<Rightarrow> bytes \<Rightarrow> u16 \<Rightarrow> nvs_host \<Rightarrow> bool \<times> nvs_host" where
  "setBlob key data version n = writeEntry key data version n"

text \<open>On the host \<open>getBlob\<close> is a stub that always fails, and so are the maintenance functions.\<close>

definition getBlob :: "cstring \<Rightarrow> nat \<Rightarrow> nvs_host \<Rightarrow> int" where
  "getBlob key maxLen n = -1"

definition setU8 :: "cstring \<Rightarrow> u8 \<Rightarrow> u16 \<Rightarrow> nvs_host \<Rightarrow> bool \<times> nvs_host" where
  "setU8 key v version n = writeEntry key [v] version n"

definition setU16 :: "cstring \<Rightarrow> u16 \<Rightarrow> u16 \<Rightarrow> nvs_host \<Rightarrow> bool \<times> nvs_host" where
  "setU16 key v version n = writeEntry key (u16_bytes v) version n"

definition setU32 :: "cstring \<Rightarrow> u32 \<Rightarrow> u16 \<Rightarrow> nvs_host \<Rightarrow> bool \<times> nvs_host" where
  "setU32 key v version n = writeEntry key (u32_bytes v) version n"

definition getU8 :: "cstring \<Rightarrow> u8 \<Rightarrow> nvs_host \<Rightarrow> bool \<times> u8" where
  "getU8 key value n = (let (ok, b, _) = readEntry key [value] n in (ok, hd b))"

definition getU16 :: "cstring \<Rightarrow> u16 \<Rightarrow> nvs_host \<Rightarrow> bool \<times> u16" where
  "getU16 key value n = (let (ok, b, _) = readEntry key (u16_bytes value) n in (ok, bytes_u16 b))"

definition getU32 :: "cstring \<Rightarrow> u32 \<Rightarrow> nvs_host \<Rightarrow> bool \<times> u32" where
  "getU32 key value n = (let (ok, b, _) = readEntry key (u32_bytes value) n in (ok, bytes_u32 b))"

definition nvs_setString :: "cstring \<Rightarrow> cstring \<Rightarrow> u16 \<Rightarrow> nvs_host \<Rightarrow> bool \<times> nvs_host" where
  "nvs_setString key v version n = writeEntry key (v @ [0]) version n"

definition nvs_getString :: "cstring \<Rightarrow> bytes \<Rightarrow> nvs_host \<Rightarrow> bool \<times> bytes" where
  "nvs_getString key buf n = (let (ok, b, _) = readEntry key buf n in (ok, b))"

definition nvs_remove :: "cstring \<Rightarrow> nvs_host \<Rightarrow> bool \<times> nvs_host" where
  "nvs_remove key n = (True, n)"

definition nvs_eraseAll :: "nvs_host \<Rightarrow> bool \<times> nvs_host" where
  "nvs_eraseAll n = (True, n)"

definition nvs_backup :: "nvs_host \<Rightarrow> bool \<times> nvs_host" where
  "nvs_backup n = (True, n)"

definition nvs_restoreFromBackup :: "nvs_host \<Rightarrow> bool \<times> nvs_host" where
  "nvs_restoreFromBackup n = (True, n)"

definition nvs_verifyIntegrity :: "nvs_host \<Rightarrow> bool" where
  "nvs_verifyIntegrity n = True"


section \<open>The contract of a key-value store\<close>

text \<open>
  What the users of the store rely on, for the keys and values it can hold: a put succeeds,
  the value that was put is read back, and other keys are not affected.
\<close>

locale kv_store =
  fixes keyok :: "'k \<Rightarrow> bool"
    and valid :: "'v \<Rightarrow> bool"
    and put :: "'k \<Rightarrow> 'v \<Rightarrow> 's \<Rightarrow> bool \<times> 's"
    and get :: "'k \<Rightarrow> 's \<Rightarrow> 'v option"
  assumes put_ok: "keyok k \<Longrightarrow> valid v \<Longrightarrow> fst (put k v s)"
    and get_put: "keyok k \<Longrightarrow> valid v \<Longrightarrow> get k (snd (put k v s)) = Some v"
    and get_put_other: "keyok k \<Longrightarrow> keyok k' \<Longrightarrow> valid v \<Longrightarrow> k \<noteq> k' \<Longrightarrow> get k' (snd (put k v s)) = get k' s"
begin

definition put_all :: "('k \<times> 'v) list \<Rightarrow> 's \<Rightarrow> 's" where
  "put_all kvs s = fold (\<lambda>(k, v) s. snd (put k v s)) kvs s"

text \<open>After a series of puts, the last value of each key counts.\<close>

lemma get_put_all:
  assumes "keyok k" and "\<forall>(k, v) \<in> set kvs. keyok k \<and> valid v"
  shows "get k (put_all kvs s) = (case map_of (rev kvs) k of Some v \<Rightarrow> Some v | None \<Rightarrow> get k s)"
  using assms(2)
proof (induction kvs arbitrary: s)
  case (Cons kv kvs)
  obtain k' v where kv: "kv = (k', v)" by (cases kv)
  show ?case
    using Cons.IH [of "snd (put k' v s)"] Cons.prems assms(1)
    by (cases "k = k'") (auto simp: kv put_all_def map_add_def get_put get_put_other split: option.split)
qed (simp add: put_all_def)

end

text \<open>The view of a result with a success flag.\<close>

definition answer :: "bool \<times> 'a \<Rightarrow> 'a option" where
  "answer r = (if fst r then Some (snd r) else None)"

text \<open>A buffer read as a C string.\<close>

definition c_str :: "bytes \<Rightarrow> cstring" where
  "c_str b = takeWhile (\<lambda>x. x \<noteq> 0) b"

definition plain :: "nat \<Rightarrow> cstring \<Rightarrow> bool" where
  "plain m s \<longleftrightarrow> length s < m \<and> 0 \<notin> set s"

lemma c_str_overlay: "plain (length b) s \<Longrightarrow> c_str (overlay (s @ [0]) b) = s"
proof -
  assume "plain (length b) s"
  then have "\<forall>x\<in>set s. x \<noteq> 0" by (auto simp: plain_def)
  then show ?thesis by (simp add: c_str_def overlay_def takeWhile_append2)
qed

lemma host_key_inject [simp]: "host_key k n = host_key k' n \<longleftrightarrow> k = k'"
  by (simp add: host_key_def)

lemma writeEntry_ok [simp]: "fst (writeEntry k d v n)"
  by (simp add: writeEntry_def)

lemma readEntry_write:
  "readEntry k b (snd (writeEntry k' d v n)) =
    (if k = k' then if length d \<le> length b then (True, overlay d b, Some v) else (False, b, None)
     else readEntry k b n)"
  by (auto simp: readEntry_def host_key_def writeEntry_def)

definition host_put_string :: "u16 \<Rightarrow> cstring \<Rightarrow> cstring \<Rightarrow> nvs_host \<Rightarrow> bool \<times> nvs_host" where
  "host_put_string ver k v n = nvs_setString k v ver n"

definition host_get_string :: "nat \<Rightarrow> cstring \<Rightarrow> nvs_host \<Rightarrow> cstring option" where
  "host_get_string m k n = map_option c_str (answer (nvs_getString k (replicate m 0) n))"

lemma host_get_put_string:
  assumes "plain m v"
  shows "host_get_string m k (snd (host_put_string ver k' v n)) =
    (if k = k' then Some v else host_get_string m k n)"
proof -
  have "length (v @ [0]) \<le> m" using assms by (simp add: plain_def)
  then show ?thesis
    using c_str_overlay [of "replicate m 0" v] assms
    by (simp add: host_get_string_def host_put_string_def answer_def nvs_getString_def nvs_setString_def
        readEntry_write split: prod.split)
qed

interpretation host_strings: kv_store "\<lambda>_. True" "plain m" "host_put_string ver" "host_get_string m" for m ver
  by unfold_locales (simp_all add: host_get_put_string, simp add: host_put_string_def nvs_setString_def)

interpretation host_u32: kv_store "\<lambda>_. True" "\<lambda>_. True" "\<lambda>k v. setU32 k v ver" "\<lambda>k n. answer (getU32 k d n)" for ver d
  by unfold_locales
    (auto simp: setU32_def getU32_def readEntry_write answer_def overlay_def split: prod.split)


section \<open>ESP32 build\<close>

text \<open>The 40 bytes of metadata that accompany an entry.\<close>

record nvs_entry =
  ne_key :: bytes
  ne_version :: u16
  ne_dataSize :: u16
  ne_crc32 :: u32

definition nvs_entry_bytes :: "nvs_entry \<Rightarrow> bytes" where
  "nvs_entry_bytes e = ne_key e @ u16_bytes (ne_version e) @ u16_bytes (ne_dataSize e) @ u32_bytes (ne_crc32 e)"

definition bytes_nvs_entry :: "bytes \<Rightarrow> nvs_entry" where
  "bytes_nvs_entry bs = \<lparr>ne_key = take 32 bs, ne_version = bytes_u16 (drop 32 bs),
     ne_dataSize = bytes_u16 (drop 34 bs), ne_crc32 = bytes_u32 (drop 36 bs)\<rparr>"

definition key_field :: "cstring \<Rightarrow> bytes" where
  "key_field key = take 31 key @ replicate (32 - length (take 31 key)) 0"

definition meta_key :: "cstring \<Rightarrow> cstring" where
  "meta_key key = take 39 (key @ str ''_meta'')"

datatype flash_init_result = InitOk | NoFreePages | NewVersionFound | InitFailed

record 'n nvs_api =
  api_flash_init :: "'n \<Rightarrow> flash_init_result \<times> 'n"
  api_flash_erase :: "'n \<Rightarrow> bool \<times> 'n"
  api_open :: "cstring \<Rightarrow> bool \<Rightarrow> 'n \<Rightarrow> bool \<times> 'n"
  api_set_blob :: "cstring \<Rightarrow> cstring \<Rightarrow> bytes \<Rightarrow> 'n \<Rightarrow> bool \<times> 'n"
  api_get_blob :: "cstring \<Rightarrow> cstring \<Rightarrow> nat \<Rightarrow> 'n \<Rightarrow> bytes option"
  api_blob_len :: "cstring \<Rightarrow> cstring \<Rightarrow> 'n \<Rightarrow> nat option"
  api_erase_key :: "cstring \<Rightarrow> cstring \<Rightarrow> 'n \<Rightarrow> 'n"
  api_set_u32 :: "cstring \<Rightarrow> cstring \<Rightarrow> u32 \<Rightarrow> 'n \<Rightarrow> 'n"
  api_get_u32 :: "cstring \<Rightarrow> cstring \<Rightarrow> 'n \<Rightarrow> u32 option"
  api_commit :: "cstring \<Rightarrow> 'n \<Rightarrow> bool \<times> 'n"
  api_entries :: "cstring \<Rightarrow> 'n \<Rightarrow> cstring list option"

definition esp_writeEntry ::
  "'n nvs_api \<Rightarrow> cstring \<Rightarrow> cstring \<Rightarrow> bytes \<Rightarrow> u16 \<Rightarrow> 'n \<Rightarrow> bool \<times> 'n" where
  "esp_writeEntry api ns key data version n =
     (let (ok, n1) = api_open api ns True n in
      if \<not> ok then (False, n1)
      else let meta = \<lparr>ne_key = key_field key, ne_version = version,
                        ne_dataSize = of_nat (length data), ne_crc32 = crc32_compute data\<rparr>;
               n2 = snd (api_set_blob api ns (meta_key key) (nvs_entry_bytes meta) n1);
               n3 = snd (api_set_blob api ns key data n2)
           in api_commit api ns n3)"

definition esp_readEntry ::
  "'n nvs_api \<Rightarrow> cstring \<Rightarrow> cstring \<Rightarrow> bytes \<Rightarrow> 'n \<Rightarrow> bool \<times> bytes \<times> u16 option" where
  "esp_readEntry api ns key buf n =
     (if \<not> fst (api_open api ns False n) then (False, buf, None)
      else case api_get_blob api ns (meta_key key) 40 n of None \<Rightarrow> (False, buf, None)
      | Some mb \<Rightarrow>
        (case api_get_blob api ns key (length buf) n of None \<Rightarrow> (False, buf, None)
         | Some d \<Rightarrow>
           if crc32_compute d \<noteq> ne_crc32 (bytes_nvs_entry mb) then (False, overlay d buf, None)
           else (True, overlay d buf, Some (ne_version (bytes_nvs_entry mb)))))"

text \<open>\<open>getBlob\<close> returns the length of the stored value, or -1.\<close>

definition esp_getBlob :: "'n nvs_api \<Rightarrow> cstring \<Rightarrow> cstring \<Rightarrow> bytes \<Rightarrow> 'n \<Rightarrow> int \<times> bytes \<times> u16 option" where
  "esp_getBlob api ns key buf n =
     (if \<not> fst (api_open api ns False n) then (-1, buf, None)
      else case api_blob_len api ns key n of None \<Rightarrow> (-1, buf, None)
      | Some len \<Rightarrow>
        if length buf < len then (-1, buf, None)
        else let (ok, b, ver) = esp_readEntry api ns key buf n
             in (if ok then int len else -1, b, ver))"

definition esp_remove :: "'n nvs_api \<Rightarrow> cstring \<Rightarrow> cstring \<Rightarrow> 'n \<Rightarrow> bool \<times> 'n" where
  "esp_remove api ns key n =
     (let (ok, n1) = api_open api ns True n in
      if \<not> ok then (False, n1)
      else (True, snd (api_commit api ns (api_erase_key api ns (meta_key key) (api_erase_key api ns key n1)))))"

definition esp_eraseAll :: "'n nvs_api \<Rightarrow> 'n \<Rightarrow> bool \<times> 'n" where
  "esp_eraseAll api n = api_flash_erase api n"

definition kBackupNs :: cstring where
  "kBackupNs = str ''takt_bak''"

definition kBackupMagicKey :: cstring where
  "kBackupMagicKey = str ''_bak_magic''"

definition kBackupMagic :: u32 where
  "kBackupMagic = 0xBAAC0DE1"

text \<open>\<open>strstr\<close>: whether one string occurs in another.\<close>

fun occurs :: "'a list \<Rightarrow> 'a list \<Rightarrow> bool" where
  "occurs pat [] = (pat = [])"
| "occurs pat (x # xs) = (take (length pat) (x # xs) = pat \<or> occurs pat xs)"

definition esp_backup_one :: "'n nvs_api \<Rightarrow> cstring \<Rightarrow> cstring \<Rightarrow> 'n \<Rightarrow> 'n" where
  "esp_backup_one api ns key n =
     (if occurs (str ''_meta'') key then n
      else case api_blob_len api ns key n of None \<Rightarrow> n
      | Some len \<Rightarrow>
        if len = 0 then n
        else case api_get_blob api ns key len n of None \<Rightarrow> n
        | Some buf \<Rightarrow>
            let n1 = snd (api_set_blob api kBackupNs key buf n) in
            (case api_get_blob api ns (meta_key key) 40 n1 of None \<Rightarrow> n1
             | Some meta \<Rightarrow> snd (api_set_blob api kBackupNs (meta_key key) meta n1)))"

definition esp_backup :: "'n nvs_api \<Rightarrow> cstring \<Rightarrow> 'n \<Rightarrow> bool \<times> 'n" where
  "esp_backup api ns n =
     (let (ok, n1) = api_open api ns False n in
      if \<not> ok then (False, n1)
      else let (ok2, n2) = api_open api kBackupNs True n1 in
        if \<not> ok2 then (False, n2)
        else case api_entries api ns n2 of None \<Rightarrow> (False, n2)
        | Some keys \<Rightarrow>
            let n3 = fold (esp_backup_one api ns) keys n2
            in (True, snd (api_commit api kBackupNs (api_set_u32 api kBackupNs kBackupMagicKey kBackupMagic n3))))"

definition esp_restore_one :: "'n nvs_api \<Rightarrow> cstring \<Rightarrow> cstring \<Rightarrow> 'n \<Rightarrow> 'n" where
  "esp_restore_one api ns key n =
     (if key = kBackupMagicKey then n
      else case api_blob_len api kBackupNs key n of None \<Rightarrow> n
      | Some len \<Rightarrow>
        if len = 0 then n
        else case api_get_blob api kBackupNs key len n of None \<Rightarrow> n
        | Some buf \<Rightarrow> snd (api_set_blob api ns key buf n))"

definition esp_restoreFromBackup :: "'n nvs_api \<Rightarrow> cstring \<Rightarrow> 'n \<Rightarrow> bool \<times> 'n" where
  "esp_restoreFromBackup api ns n =
     (let (ok, n1) = api_open api kBackupNs False n in
      if \<not> ok then (False, n1)
      else if api_get_u32 api kBackupNs kBackupMagicKey n1 \<noteq> Some kBackupMagic then (False, n1)
      else let (ok2, n2) = api_open api ns True n1 in
        if \<not> ok2 then (False, n2)
        else case api_entries api kBackupNs n2 of None \<Rightarrow> (False, n2)
        | Some keys \<Rightarrow> (True, snd (api_commit api ns (fold (esp_restore_one api ns) keys n2))))"

definition esp_entry_ok :: "'n nvs_api \<Rightarrow> cstring \<Rightarrow> 'n \<Rightarrow> cstring \<Rightarrow> bool" where
  "esp_entry_ok api ns n key =
     (occurs (str ''_meta'') key \<or>
      (case api_get_blob api ns (meta_key key) 40 n of None \<Rightarrow> False
       | Some mb \<Rightarrow>
         (case api_get_blob api ns key (unat (ne_dataSize (bytes_nvs_entry mb))) n of None \<Rightarrow> False
          | Some d \<Rightarrow> crc32_compute d = ne_crc32 (bytes_nvs_entry mb))))"

definition esp_verifyIntegrity :: "'n nvs_api \<Rightarrow> cstring \<Rightarrow> 'n \<Rightarrow> bool" where
  "esp_verifyIntegrity api ns n =
     (if \<not> fst (api_open api ns False n) then False
      else case api_entries api ns n of None \<Rightarrow> True
      | Some keys \<Rightarrow> list_all (esp_entry_ok api ns n) keys)"

definition esp_nvs_init :: "'n nvs_api \<Rightarrow> cstring \<Rightarrow> 'n \<Rightarrow> bool \<times> 'n" where
  "esp_nvs_init api name n =
     (let ns = take 15 name; (err, n1) = api_flash_init api n;
          (err2, n2) = (if err = NoFreePages \<or> err = NewVersionFound
                        then api_flash_init api (snd (api_flash_erase api n1)) else (err, n1)) in
      if err2 \<noteq> InitOk then (False, n2)
      else if \<not> esp_verifyIntegrity api ns n2 then (True, snd (esp_restoreFromBackup api ns n2))
      else (True, n2))"


section \<open>The documented behaviour of the vendor library\<close>

text \<open>
  \<open>spaces n\<close> are the namespaces of the state, \<open>blob n ns k\<close> the blob of a key. Opening for
  writing creates the namespace, opening for reading needs it; a key has at most 15 characters
  and a longer one is refused; a blob is stored whole. This is the library on a partition that
  has room and no faults.
\<close>

definition nvs_api_ok ::
  "'n nvs_api \<Rightarrow> ('n \<Rightarrow> cstring \<Rightarrow> bool) \<Rightarrow> ('n \<Rightarrow> cstring \<Rightarrow> cstring \<Rightarrow> bytes option) \<Rightarrow> bool" where
  "nvs_api_ok api spaces blob \<longleftrightarrow>
    (\<forall>n ns. length ns \<le> 15 \<longrightarrow>
       fst (api_open api ns True n) \<and> spaces (snd (api_open api ns True n)) ns \<and>
       blob (snd (api_open api ns True n)) = blob n) \<and>
    (\<forall>n ns. fst (api_open api ns False n) = spaces n ns) \<and>
    (\<forall>n ns k v. spaces n ns \<longrightarrow>
       (if length k \<le> 15 then blob (snd (api_set_blob api ns k v n)) = (blob n)(ns := (blob n ns)(k \<mapsto> v))
        else blob (snd (api_set_blob api ns k v n)) = blob n) \<and>
       spaces (snd (api_set_blob api ns k v n)) = spaces n) \<and>
    (\<forall>n ns. spaces n ns \<longrightarrow> fst (api_commit api ns n) \<and>
       blob (snd (api_commit api ns n)) = blob n \<and> spaces (snd (api_commit api ns n)) = spaces n) \<and>
    (\<forall>n ns k. (length k > 15 \<or> \<not> spaces n ns) \<longrightarrow> blob n ns k = None) \<and>
    (\<forall>n ns k m. api_get_blob api ns k m n =
       (case blob n ns k of None \<Rightarrow> None | Some v \<Rightarrow> if length v \<le> m then Some v else None))"

lemma api_open_write:
  assumes "nvs_api_ok api spaces blob" and "length ns \<le> 15"
  shows "fst (api_open api ns True n)" and "spaces (snd (api_open api ns True n)) ns"
    and "blob (snd (api_open api ns True n)) = blob n"
  using assms unfolding nvs_api_ok_def by blast+

lemma api_open_read:
  assumes "nvs_api_ok api spaces blob"
  shows "fst (api_open api ns False n) = spaces n ns"
  using assms unfolding nvs_api_ok_def by blast

lemma api_set:
  assumes "nvs_api_ok api spaces blob" and "spaces n ns"
  shows "blob (snd (api_set_blob api ns k v n)) =
      (if length k \<le> 15 then (blob n)(ns := (blob n ns)(k \<mapsto> v)) else blob n)"
    and "spaces (snd (api_set_blob api ns k v n)) = spaces n"
  using assms unfolding nvs_api_ok_def by (meson | presburger)+

lemma api_commit_ok:
  assumes "nvs_api_ok api spaces blob" and "spaces n ns"
  shows "fst (api_commit api ns n)" and "blob (snd (api_commit api ns n)) = blob n"
    and "spaces (snd (api_commit api ns n)) = spaces n"
  using assms unfolding nvs_api_ok_def by blast+

lemma api_absent:
  assumes "nvs_api_ok api spaces blob" and "length k > 15 \<or> \<not> spaces n ns"
  shows "blob n ns k = None"
  using assms unfolding nvs_api_ok_def by blast

lemma api_get:
  assumes "nvs_api_ok api spaces blob"
  shows "api_get_blob api ns k m n =
    (case blob n ns k of None \<Rightarrow> None | Some v \<Rightarrow> if length v \<le> m then Some v else None)"
  using assms unfolding nvs_api_ok_def by blast

lemmas api_facts = api_open_write api_open_read api_set api_commit_ok

definition entry_meta :: "cstring \<Rightarrow> bytes \<Rightarrow> u16 \<Rightarrow> nvs_entry" where
  "entry_meta key data version = \<lparr>ne_key = key_field key, ne_version = version,
     ne_dataSize = of_nat (length data), ne_crc32 = crc32_compute data\<rparr>"

lemma length_key_field [simp]: "length (key_field key) = 32"
  by (simp add: key_field_def)

lemma length_entry_bytes [simp]: "length (ne_key e) = 32 \<Longrightarrow> length (nvs_entry_bytes e) = 40"
  by (simp add: nvs_entry_bytes_def)

lemma nvs_entry_roundtrip: "length (ne_key e) = 32 \<Longrightarrow> bytes_nvs_entry (nvs_entry_bytes e) = e"
  by (cases e) (simp add: nvs_entry_bytes_def bytes_nvs_entry_def)

lemma meta_key_short: "length key \<le> 34 \<Longrightarrow> meta_key key = key @ str ''_meta''"
  by (simp add: meta_key_def str_def)

text \<open>What a write leaves in the store: the metadata only if its key is short enough.\<close>

lemma esp_writeEntry_effect:
  assumes ok: "nvs_api_ok api spaces blob" and ns: "length ns \<le> 15"
  shows "fst (esp_writeEntry api ns key data version n)"
    and "spaces (snd (esp_writeEntry api ns key data version n)) ns"
    and "blob (snd (esp_writeEntry api ns key data version n)) =
      (let b1 = (if length (meta_key key) \<le> 15
                 then (blob n)(ns := (blob n ns)(meta_key key \<mapsto> nvs_entry_bytes (entry_meta key data version)))
                 else blob n)
       in if length key \<le> 15 then b1(ns := (b1 ns)(key \<mapsto> data)) else b1)"
proof -
  obtain n1 where n1: "api_open api ns True n = (True, n1)"
    using api_open_write(1) [OF ok ns] by (metis prod.collapse)
  have s1: "spaces n1 ns" "blob n1 = blob n" using api_open_write(2,3) [OF ok ns, of n] by (simp_all add: n1)
  define n2 where "n2 = snd (api_set_blob api ns (meta_key key) (nvs_entry_bytes (entry_meta key data version)) n1)"
  define n3 where "n3 = snd (api_set_blob api ns key data n2)"
  have s2: "spaces n2 ns" using api_set(2) [OF ok s1(1)] s1(1) by (simp add: n2_def)
  have s3: "spaces n3 ns" using api_set(2) [OF ok s2] s2 by (simp add: n3_def)
  have w: "esp_writeEntry api ns key data version n = api_commit api ns n3"
    by (simp add: esp_writeEntry_def n1 n2_def n3_def entry_meta_def)
  show "fst (esp_writeEntry api ns key data version n)" using api_commit_ok(1) [OF ok s3] by (simp add: w)
  show "spaces (snd (esp_writeEntry api ns key data version n)) ns"
    using api_commit_ok(3) [OF ok s3] s3 by (simp add: w)
  show "blob (snd (esp_writeEntry api ns key data version n)) =
      (let b1 = (if length (meta_key key) \<le> 15
                 then (blob n)(ns := (blob n ns)(meta_key key \<mapsto> nvs_entry_bytes (entry_meta key data version)))
                 else blob n)
       in if length key \<le> 15 then b1(ns := (b1 ns)(key \<mapsto> data)) else b1)"
    using api_commit_ok(2) [OF ok s3] api_set(1) [OF ok s2, of key data]
      api_set(1) [OF ok s1(1), of "meta_key key" "nvs_entry_bytes (entry_meta key data version)"]
    by (simp add: w s1(2) Let_def flip: n3_def n2_def)
qed

lemma esp_readEntry_blob:
  assumes ok: "nvs_api_ok api spaces blob"
  shows "esp_readEntry api ns key buf n =
    (case blob n ns (meta_key key) of None \<Rightarrow> (False, buf, None)
     | Some mb \<Rightarrow>
       if 40 < length mb then (False, buf, None)
       else case blob n ns key of None \<Rightarrow> (False, buf, None)
       | Some d \<Rightarrow>
         if length buf < length d then (False, buf, None)
         else if crc32_compute d \<noteq> ne_crc32 (bytes_nvs_entry mb) then (False, overlay d buf, None)
         else (True, overlay d buf, Some (ne_version (bytes_nvs_entry mb))))"
  using api_absent [OF ok, of "meta_key key" n ns]
  by (auto simp: esp_readEntry_def api_open_read [OF ok] api_get [OF ok] split: option.splits)

definition esp_setString :: "'n nvs_api \<Rightarrow> cstring \<Rightarrow> u16 \<Rightarrow> cstring \<Rightarrow> cstring \<Rightarrow> 'n \<Rightarrow> bool \<times> 'n" where
  "esp_setString api ns version key v n = esp_writeEntry api ns key (v @ [0]) version n"

definition esp_getString :: "'n nvs_api \<Rightarrow> cstring \<Rightarrow> nat \<Rightarrow> cstring \<Rightarrow> 'n \<Rightarrow> cstring option" where
  "esp_getString api ns m key n =
     (let (ok, b, _) = esp_readEntry api ns key (replicate m 0) n in map_option c_str (answer (ok, b)))"

text \<open>The keys that leave room for the suffix of the metadata and do not look like metadata.\<close>

definition short_key :: "cstring \<Rightarrow> bool" where
  "short_key key \<longleftrightarrow> length key \<le> 10 \<and> \<not> occurs (str ''_meta'') key"

lemma occurs_append: "occurs pat (xs @ pat)"
  by (induction xs) (simp_all, cases pat, simp_all)

lemma short_key_meta:
  assumes "short_key k" and "short_key k'"
  shows "length (meta_key k) \<le> 15" and "meta_key k \<noteq> k'" and "meta_key k = meta_key k' \<longleftrightarrow> k = k'"
  using assms occurs_append [of "str ''_meta''" k] by (auto simp: short_key_def meta_key_short, simp add: str_def)

lemma esp_string_other:
  assumes ok: "nvs_api_ok api spaces blob" and ns: "length ns \<le> 15"
    and k: "short_key k" and k': "short_key k'" and ne: "k \<noteq> k'"
  shows "esp_getString api ns m k (snd (esp_setString api ns ver k' v n)) = esp_getString api ns m k n"
proof -
  have b1: "blob (snd (esp_setString api ns ver k' v n)) ns k = blob n ns k"
    and b2: "blob (snd (esp_setString api ns ver k' v n)) ns (meta_key k) = blob n ns (meta_key k)"
    using ne short_key_meta [OF k k'] short_key_meta [OF k' k] k'
    by (simp_all add: esp_setString_def esp_writeEntry_effect(3) [OF ok ns] Let_def short_key_def)
  show ?thesis by (simp only: esp_getString_def esp_readEntry_blob [OF ok] b1 b2)
qed

lemma esp_string_facts:
  assumes ok: "nvs_api_ok api spaces blob" and ns: "length ns \<le> 15"
    and k: "short_key k" and k': "short_key k'" and v: "plain m v"
  shows "esp_getString api ns m k (snd (esp_setString api ns ver k' v n)) =
    (if k = k' then Some v else esp_getString api ns m k n)"
proof (cases "k = k'")
  case True
  have "length (v @ [0]) \<le> m" using v by (simp add: plain_def)
  moreover have "ne_crc32 (bytes_nvs_entry (nvs_entry_bytes (entry_meta k' (v @ [0]) ver))) = crc32_compute (v @ [0])"
    by (subst nvs_entry_roundtrip) (simp_all add: entry_meta_def)
  ultimately show ?thesis
    using True c_str_overlay [of "replicate m 0" v] v short_key_meta [OF k k] k
    by (simp add: esp_getString_def esp_readEntry_blob [OF ok] esp_setString_def esp_writeEntry_effect(3) [OF ok ns]
        Let_def answer_def short_key_def) (simp add: entry_meta_def)
qed (simp add: esp_string_other [OF ok ns k k'])

lemma esp_strings_kv_store:
  assumes ok: "nvs_api_ok api spaces blob" and ns: "length ns \<le> 15"
  shows "kv_store short_key (plain m) (esp_setString api ns ver) (esp_getString api ns m)"
  by unfold_locales (simp_all add: esp_string_facts [OF ok ns], simp add: esp_setString_def esp_writeEntry_effect(1) [OF ok ns])

text \<open>A working library over a map, for the concrete cases.\<close>

record sim_nvs =
  sim_spaces :: "cstring list"
  sim_blobs :: "cstring \<Rightarrow> cstring \<rightharpoonup> bytes"

definition sim_api :: "sim_nvs nvs_api" where
  "sim_api = \<lparr>
     api_flash_init = (\<lambda>n. (InitOk, n)),
     api_flash_erase = (\<lambda>n. (True, \<lparr>sim_spaces = [], sim_blobs = (\<lambda>_. Map.empty)\<rparr>)),
     api_open = (\<lambda>ns w n. if w then (length ns \<le> 15, if length ns \<le> 15 \<and> ns \<notin> set (sim_spaces n)
           then n\<lparr>sim_spaces := ns # sim_spaces n, sim_blobs := (sim_blobs n)(ns := Map.empty)\<rparr> else n)
                          else (ns \<in> set (sim_spaces n), n)),
     api_set_blob = (\<lambda>ns k v n. if length k \<le> 15
        then (True, n\<lparr>sim_blobs := (sim_blobs n)(ns := (sim_blobs n ns)(k \<mapsto> v))\<rparr>) else (False, n)),
     api_get_blob = (\<lambda>ns k m n. if ns \<notin> set (sim_spaces n) \<or> 15 < length k then None
        else case sim_blobs n ns k of None \<Rightarrow> None | Some v \<Rightarrow> if length v \<le> m then Some v else None),
     api_blob_len = (\<lambda>ns k n. if ns \<notin> set (sim_spaces n) \<or> 15 < length k then None
        else map_option length (sim_blobs n ns k)),
     api_erase_key = (\<lambda>ns k n. n\<lparr>sim_blobs := (sim_blobs n)(ns := (sim_blobs n ns)(k := None))\<rparr>),
     api_set_u32 = (\<lambda>ns k v n. n),
     api_get_u32 = (\<lambda>ns k n. None),
     api_commit = (\<lambda>ns n. (True, n)),
     api_entries = (\<lambda>ns n. None)\<rparr>"

definition sim_space :: "sim_nvs \<Rightarrow> cstring \<Rightarrow> bool" where
  "sim_space n ns \<longleftrightarrow> ns \<in> set (sim_spaces n)"

definition sim_view :: "sim_nvs \<Rightarrow> cstring \<Rightarrow> cstring \<Rightarrow> bytes option" where
  "sim_view n ns k = (if ns \<notin> set (sim_spaces n) \<or> 15 < length k then None else sim_blobs n ns k)"

definition empty_sim :: sim_nvs where
  "empty_sim = \<lparr>sim_spaces = [], sim_blobs = (\<lambda>_. Map.empty)\<rparr>"

lemma sim_api_ok: "nvs_api_ok sim_api sim_space sim_view"
  unfolding nvs_api_ok_def
  by (auto simp: sim_api_def sim_space_def sim_view_def fun_eq_iff split: option.split)


section \<open>What the store promises\<close>

text \<open>
  C18: The ESP32 build of the key-value store keeps the contract of a store for strings: for any
  vendor library that behaves as documented, after any series of \<open>setString\<close> calls with keys of
  at most ten characters (not containing the metadata suffix) every call has succeeded and
  \<open>getString\<close> returns the last value of each key and what was there before for the others.
  So the metadata records and the values never get in each other's way.
\<close>
theorem nvs_last_put_wins:
  assumes "nvs_api_ok api spaces blob" and "length ns \<le> 15" and "short_key key"
    and "\<forall>(k, v) \<in> set kvs. short_key k \<and> plain m v"
  shows "esp_getString api ns m key (fold (\<lambda>(k, v) n. snd (esp_setString api ns ver k v n)) kvs n) =
      (case map_of (rev kvs) key of Some v \<Rightarrow> Some v | None \<Rightarrow> esp_getString api ns m key n) \<and>
    fst (esp_setString api ns ver key v n)"
proof (intro conjI)
  have kv: "kv_store short_key (plain m) (esp_setString api ns ver) (esp_getString api ns m)"
    by (rule esp_strings_kv_store [OF assms(1,2)])
  show "esp_getString api ns m key (fold (\<lambda>(k, v) n. snd (esp_setString api ns ver k v n)) kvs n) =
      (case map_of (rev kvs) key of Some v \<Rightarrow> Some v | None \<Rightarrow> esp_getString api ns m key n)"
    using kv_store.get_put_all [OF kv assms(3,4)]
    by (simp add: kv_store.put_all_def [OF kv] case_prod_unfold)
  show "fst (esp_setString api ns ver key v n)"
    by (simp add: esp_setString_def esp_writeEntry_effect(1) [OF assms(1,2)])
qed

theorem nvs_last_put_wins_witness:
  "esp_getString sim_api (str ''takt'') 32 (str ''ssid'')
     (fold (\<lambda>(k, v) n. snd (esp_setString sim_api (str ''takt'') 1 k v n))
        [(str ''ssid'', str ''home''), (str ''pass'', str ''x''), (str ''ssid'', str ''lab'')] empty_sim) =
   Some (str ''lab'')"
  using nvs_last_put_wins [OF sim_api_ok, of "str ''takt''" "str ''ssid''"
      "[(str ''ssid'', str ''home''), (str ''pass'', str ''x''), (str ''ssid'', str ''lab'')]" 32 1 empty_sim]
  by (simp add: str_def short_key_def plain_def of_char_def)

text \<open>
  A key of 11 to 15 characters, which the vendor library accepts, loses its value on the
  ESP32: \<open>setBlob\<close> stores the value and reports success, but the metadata record that every
  read needs has a key that is too long, its refusal is ignored, and \<open>readEntry\<close> fails from then
  on. The configuration key \<open>mqtt_broker\<close> is one of these.
\<close>
theorem nvs_long_key_write_only:
  assumes "nvs_api_ok api spaces blob" and "length ns \<le> 15" and "10 < length key" and "length key \<le> 15"
  shows "fst (esp_writeEntry api ns key data version n) \<and>
    blob (snd (esp_writeEntry api ns key data version n)) ns key = Some data \<and>
    esp_readEntry api ns key buf (snd (esp_writeEntry api ns key data version n)) = (False, buf, None)"
proof (intro conjI)
  have m: "length (meta_key key) > 15" using assms(3,4) by (simp add: meta_key_short str_def)
  show "fst (esp_writeEntry api ns key data version n)"
    by (rule esp_writeEntry_effect(1) [OF assms(1,2)])
  show "blob (snd (esp_writeEntry api ns key data version n)) ns key = Some data"
    using m assms(4) by (simp add: esp_writeEntry_effect(3) [OF assms(1,2)] Let_def)
  show "esp_readEntry api ns key buf (snd (esp_writeEntry api ns key data version n)) = (False, buf, None)"
    by (simp add: esp_readEntry_blob [OF assms(1)] api_absent [OF assms(1) disjI1 [OF m]])
qed

theorem nvs_long_key_write_only_witness:
  "esp_readEntry sim_api (str ''takt'') (str ''mqtt_broker'') (replicate 8 0)
     (snd (esp_writeEntry sim_api (str ''takt'') (str ''mqtt_broker'') (str ''b'' @ [0]) 1 empty_sim)) =
   (False, replicate 8 0, None)"
  using nvs_long_key_write_only [OF sim_api_ok, of "str ''takt''" "str ''mqtt_broker''"]
  by (simp add: str_def)

text \<open>
  The host build keeps the contract for numbers and strings: after \<open>setU32\<close>, \<open>getU32\<close>
  returns the value and true whatever the variable held; a string shorter than the buffer
  comes back; and no other key changes.
\<close>
theorem nvs_host_roundtrip:
  assumes "plain m s"
  shows "getU32 key value0 (snd (setU32 key v version n)) = (True, v) \<and>
    answer (getU32 key' value0 (snd (setU32 key v version n))) =
      (if key' = key then Some v else answer (getU32 key' value0 n)) \<and>
    host_get_string m key' (snd (nvs_setString key s version n)) =
      (if key' = key then Some s else host_get_string m key' n)"
proof (intro conjI)
  have A: "answer (getU32 key value0 (snd (setU32 key v version n))) = Some v"
    by (rule host_u32.get_put [OF TrueI TrueI])
  then show "getU32 key value0 (snd (setU32 key v version n)) = (True, v)"
    by (cases "getU32 key value0 (snd (setU32 key v version n))") (auto simp: answer_def split: if_splits)
  show "answer (getU32 key' value0 (snd (setU32 key v version n))) =
      (if key' = key then Some v else answer (getU32 key' value0 n))"
    using A host_u32.get_put_other [OF TrueI TrueI TrueI, of key key' value0 v version n] by auto
  show "host_get_string m key' (snd (nvs_setString key s version n)) =
      (if key' = key then Some s else host_get_string m key' n)"
    using host_get_put_string [OF assms, of key' version key n] by (simp add: host_put_string_def)
qed

theorem nvs_host_roundtrip_witness:
  "host_get_string 32 (str ''name'') (snd (nvs_setString (str ''name'') (str ''node7'') 1 new_nvs_host)) =
   Some (str ''node7'')"
  using nvs_host_roundtrip [of 32 "str ''node7''" "str ''name''" 0 0 1 new_nvs_host "str ''name''"]
  by (simp add: plain_def str_def)

end
