(* ===== verification/Cache_Mgr.thy ===== *)
theory Cache_Mgr
  imports Storage
begin

text \<open>
  The write-back cache over the flash storage: \<open>kernel/include/takt/cache_manager.hpp\<close> and
  \<open>kernel/src/cache_manager.cpp\<close>.

  The pool is a memory of \<open>poolSize\<close> bytes that holds line \<open>i\<close> at \<open>i * lineSize\<close>. The code never
  looks at \<open>poolSize\<close>: an access outside the pool, like a division by a line size of 0, has no
  defined result and is \<open>None\<close>. A result is the returned integer, the bytes copied out, the
  cache and the storage.
\<close>


section \<open>State\<close>

record cache_entry =
  ce_key :: u32
  ce_size :: u32
  ce_lastAccess :: u32
  ce_dirty :: bool
  ce_valid :: bool

record cache =
  pool :: memory
  poolSize :: nat
  lineSize :: nat
  hits :: u32
  misses :: u32
  lines :: "cache_entry list"
  entryCount :: nat

definition kMaxLines :: nat where
  "kMaxLines = 64"

definition new_cache_entry :: cache_entry where
  "new_cache_entry = \<lparr>ce_key = 0, ce_size = 0, ce_lastAccess = 0, ce_dirty = False, ce_valid = False\<rparr>"

definition new_cache :: "memory \<Rightarrow> nat \<Rightarrow> nat \<Rightarrow> cache" where
  "new_cache mem size_pool size_line = \<lparr>pool = mem, poolSize = size_pool, lineSize = size_line, hits = 0, misses = 0,
     lines = replicate kMaxLines new_cache_entry, entryCount = 0\<rparr>"


section \<open>Operations\<close>

definition line_key :: "u32 \<Rightarrow> cache \<Rightarrow> u32" where
  "line_key flashOffset c = flashOffset div of_nat (lineSize c)"

definition in_pool :: "nat \<Rightarrow> nat \<Rightarrow> cache \<Rightarrow> bool" where
  "in_pool a n c \<longleftrightarrow> a + n \<le> poolSize c"

definition findLine :: "u32 \<Rightarrow> cache \<Rightarrow> nat option \<times> cache" where
  "findLine flashOffset c =
     (case find_index (\<lambda>e. ce_valid e \<and> ce_key e = line_key flashOffset c) (take (entryCount c) (lines c)) of
        Some i \<Rightarrow>
          (Some i, c\<lparr>hits := hits c + 1,
                     lines := (lines c)[i := (lines c ! i)\<lparr>ce_lastAccess := hits c + 1 + misses c\<rparr>]\<rparr>)
      | None \<Rightarrow> (None, c\<lparr>misses := misses c + 1\<rparr>))"

text \<open>Writing back the lines in order; the first result other than 0 ends the loop with -1.\<close>

primrec flush_lines :: "nat list \<Rightarrow> cache \<Rightarrow> ('f, 'z) storage_sys_scheme \<Rightarrow> (int \<times> cache \<times> ('f, 'z) storage_sys_scheme) option" where
  "flush_lines [] c s = Some (0, c, s)"
| "flush_lines (i # is) c s =
     (let e = lines c ! i in
      if ce_valid e \<and> ce_dirty e then
        if \<not> in_pool (i * lineSize c) (lineSize c) c then None
        else (case storage_write (ce_key e * of_nat (lineSize c)) (mem_get (pool c) (i * lineSize c) (lineSize c)) s of
          (rc, s1) \<Rightarrow>
            if rc \<noteq> 0 then Some (-1, c, s1)
            else flush_lines is (c\<lparr>lines := (lines c)[i := e\<lparr>ce_dirty := False\<rparr>]\<rparr>) s1)
      else flush_lines is c s)"

definition cache_flush :: "cache \<Rightarrow> ('f, 'z) storage_sys_scheme \<Rightarrow> (int \<times> cache \<times> ('f, 'z) storage_sys_scheme) option" where
  "cache_flush c s = flush_lines [0..<entryCount c] c s"

text \<open>The entry with the least access stamp, the first one of them.\<close>

definition lru_index :: "cache \<Rightarrow> nat" where
  "lru_index c = fst (fold (\<lambda>i (lruIdx, lruAccess).
       if ce_lastAccess (lines c ! i) < lruAccess then (i, ce_lastAccess (lines c ! i)) else (lruIdx, lruAccess))
     [1..<entryCount c] (0, ce_lastAccess (lines c ! 0)))"

definition fresh_line :: "u32 \<Rightarrow> cache \<Rightarrow> cache_entry" where
  "fresh_line flashOffset c = \<lparr>ce_key = line_key flashOffset c, ce_size = of_nat (lineSize c),
     ce_lastAccess = 0, ce_dirty = False, ce_valid = True\<rparr>"

definition allocateLine :: "u32 \<Rightarrow> cache \<Rightarrow> ('f, 'z) storage_sys_scheme \<Rightarrow> (nat \<times> cache \<times> ('f, 'z) storage_sys_scheme) option" where
  "allocateLine flashOffset c s =
     (if entryCount c < kMaxLines then
        Some (entryCount c, c\<lparr>lines := (lines c)[entryCount c := fresh_line flashOffset c],
                              entryCount := entryCount c + 1\<rparr>, s)
      else
        let i = lru_index c in
        do { (c1, s1) \<leftarrow> (if ce_dirty (lines c ! i) then map_option snd (cache_flush c s) else Some (c, s));
             Some (i, c1\<lparr>lines := (lines c1)[i := fresh_line flashOffset c1]\<rparr>, s1) })"

definition copy_len :: "u32 \<Rightarrow> nat \<Rightarrow> cache \<Rightarrow> nat" where
  "copy_len flashOffset len c = min len (lineSize c - unat flashOffset mod lineSize c)"

definition copy_out :: "u32 \<Rightarrow> nat \<Rightarrow> nat \<Rightarrow> cache \<Rightarrow> ('f, 'z) storage_sys_scheme \<Rightarrow> (int \<times> bytes \<times> cache \<times> ('f, 'z) storage_sys_scheme) option" where
  "copy_out flashOffset len i c s =
     (let a = i * lineSize c + unat flashOffset mod lineSize c; n = copy_len flashOffset len c in
      if \<not> in_pool a n c then None
      else Some (sint (of_nat n :: u32), mem_get (pool c) a n, c, s))"

definition cache_read :: "u32 \<Rightarrow> nat \<Rightarrow> cache \<Rightarrow> ('f, 'z) storage_sys_scheme \<Rightarrow> (int \<times> bytes \<times> cache \<times> ('f, 'z) storage_sys_scheme) option" where
  "cache_read flashOffset len c s =
     (if lineSize c = 0 then None
      else case findLine flashOffset c of
        (Some i, c1) \<Rightarrow> copy_out flashOffset len i c1 s
      | (None, c1) \<Rightarrow>
        do { (i, c2, s2) \<leftarrow> allocateLine flashOffset c1 s;
             if \<not> in_pool (i * lineSize c2) (lineSize c2) c2 then None
             else let lineStart = ce_key (lines c2 ! i) * of_nat (lineSize c2);
                      (rc, bs) = storage_read lineStart (of_nat (lineSize c2)) s2;
                      c3 = c2\<lparr>pool := mem_put (pool c2) (i * lineSize c2) bs\<rparr>
                  in if rc \<noteq> 0 then Some (-1, [], c3, s2) else copy_out flashOffset len i c3 s2 })"

definition copy_in :: "u32 \<Rightarrow> bytes \<Rightarrow> nat \<Rightarrow> cache \<Rightarrow> ('f, 'z) storage_sys_scheme \<Rightarrow> (int \<times> cache \<times> ('f, 'z) storage_sys_scheme) option" where
  "copy_in flashOffset buf i c s =
     (let a = i * lineSize c + unat flashOffset mod lineSize c; n = copy_len flashOffset (length buf) c in
      if \<not> in_pool a n c then None
      else Some (sint (of_nat n :: u32),
        c\<lparr>pool := mem_put (pool c) a (take n buf), lines := (lines c)[i := (lines c ! i)\<lparr>ce_dirty := True\<rparr>]\<rparr>, s))"

definition cache_write :: "u32 \<Rightarrow> bytes \<Rightarrow> cache \<Rightarrow> ('f, 'z) storage_sys_scheme \<Rightarrow> (int \<times> cache \<times> ('f, 'z) storage_sys_scheme) option" where
  "cache_write flashOffset buf c s =
     (if lineSize c = 0 then None
      else case findLine flashOffset c of
        (Some i, c1) \<Rightarrow> copy_in flashOffset buf i c1 s
      | (None, c1) \<Rightarrow> do { (i, c2, s2) \<leftarrow> allocateLine flashOffset c1 s; copy_in flashOffset buf i c2 s2 })"

definition cache_invalidate :: "cache \<Rightarrow> cache" where
  "cache_invalidate c = c\<lparr>lines := map (\<lambda>e. e\<lparr>ce_valid := False, ce_dirty := False\<rparr>) (take (entryCount c) (lines c))
       @ drop (entryCount c) (lines c), entryCount := 0, hits := 0, misses := 0\<rparr>"


section \<open>Invariant\<close>

text \<open>
  The pool holds all lines; the first \<open>entryCount\<close> entries are valid and hold different lines.
\<close>

definition cache_inv :: "cache \<Rightarrow> bool" where
  "cache_inv c \<longleftrightarrow> 0 < lineSize c \<and> lineSize c < 2 ^ 31 \<and> kMaxLines * lineSize c \<le> poolSize c \<and>
     length (lines c) = kMaxLines \<and> entryCount c \<le> kMaxLines \<and>
     (\<forall>i < entryCount c. ce_valid (lines c ! i)) \<and>
     distinct (map ce_key (take (entryCount c) (lines c)))"

lemma new_cache_inv:
  "0 < ls \<Longrightarrow> ls < 2 ^ 31 \<Longrightarrow> kMaxLines * ls \<le> ps \<Longrightarrow> cache_inv (new_cache mem ps ls)"
  by (simp add: cache_inv_def new_cache_def)

text \<open>Two caches with the same geometry and the same keys.\<close>

definition same_keys :: "cache \<Rightarrow> cache \<Rightarrow> bool" where
  "same_keys c c' \<longleftrightarrow> lineSize c' = lineSize c \<and> poolSize c' = poolSize c \<and> entryCount c' = entryCount c \<and>
     map ce_key (lines c') = map ce_key (lines c) \<and> map ce_valid (lines c') = map ce_valid (lines c)"

lemma same_keys_refl [simp]: "same_keys c c"
  by (simp add: same_keys_def)

lemma same_keys_trans: "same_keys c c' \<Longrightarrow> same_keys c' c'' \<Longrightarrow> same_keys c c''"
  by (simp add: same_keys_def)

lemma same_keys_length: "same_keys c c' \<Longrightarrow> length (lines c') = length (lines c)"
  unfolding same_keys_def by (metis length_map)

lemma same_keys_nth:
  assumes "same_keys c c'" and "i < length (lines c)"
  shows "ce_key (lines c' ! i) = ce_key (lines c ! i)" and "ce_valid (lines c' ! i) = ce_valid (lines c ! i)"
  using assms same_keys_length [OF assms(1)] unfolding same_keys_def by (metis nth_map)+

lemma same_keys_inv: "same_keys c c' \<Longrightarrow> cache_inv c \<Longrightarrow> cache_inv c'"
  using same_keys_length [of c c'] same_keys_nth [of c c']
  by (auto simp: cache_inv_def same_keys_def simp flip: take_map)

lemma line_key_same: "same_keys c c' \<Longrightarrow> line_key off c' = line_key off c"
  by (simp add: same_keys_def line_key_def)

lemma map_update_same: "f y = f (xs ! i) \<Longrightarrow> map f (xs[i := y]) = map f xs"
  by (cases "i < length xs") (simp_all add: map_update list_update_same_conv list_update_beyond)

lemma findLine_same: "findLine off c = (r, c') \<Longrightarrow> same_keys c c'"
  by (auto simp: findLine_def same_keys_def map_update_same split: option.splits)

lemma flush_lines_same:
  "flush_lines is c s = Some (rc, c', s') \<Longrightarrow> same_keys c c' \<and> pool c' = pool c"
proof (induction "is" arbitrary: c s)
  case (Cons i "is")
  show ?case
  proof (cases "ce_valid (lines c ! i) \<and> ce_dirty (lines c ! i)")
    case True
    define c1 where "c1 = c\<lparr>lines := (lines c)[i := (lines c ! i)\<lparr>ce_dirty := False\<rparr>]\<rparr>"
    have "same_keys c c1 \<and> pool c1 = pool c" by (simp add: c1_def same_keys_def map_update_same)
    then show ?thesis
      using True Cons.prems Cons.IH [of c1] same_keys_trans [of c c1]
      by (auto simp: Let_def c1_def [symmetric] split: prod.splits if_splits)
  next
    case False
    then have "flush_lines (i # is) c s = flush_lines is c s" by (auto simp: Let_def)
    then show ?thesis using Cons by simp
  qed
qed simp

lemma flush_same: "cache_flush c s = Some (rc, c', s') \<Longrightarrow> same_keys c c' \<and> pool c' = pool c"
  by (simp add: cache_flush_def flush_lines_same)

lemma flush_lines_defined:
  assumes "cache_inv c" and "\<forall>i\<in>set is. i < kMaxLines"
  shows "\<exists>rc c' s'. flush_lines is c s = Some (rc, c', s')"
  using assms
proof (induction "is" arbitrary: c s)
  case (Cons i "is")
  have "Suc i * lineSize c \<le> kMaxLines * lineSize c" using Cons.prems(2) by (intro mult_le_mono1) simp
  then have inp: "in_pool (i * lineSize c) (lineSize c) c"
    using Cons.prems(1) by (simp add: in_pool_def cache_inv_def)
  define c1 where "c1 = c\<lparr>lines := (lines c)[i := (lines c ! i)\<lparr>ce_dirty := False\<rparr>]\<rparr>"
  have "cache_inv c1"
    using Cons.prems(1) same_keys_inv [of c c1] by (simp add: c1_def same_keys_def map_update_same)
  then show ?case
    using inp Cons.IH Cons.prems by (auto simp: Let_def c1_def [symmetric] split: prod.split)
qed simp

lemma flush_defined: "cache_inv c \<Longrightarrow> \<exists>rc c' s'. cache_flush c s = Some (rc, c', s')"
  unfolding cache_flush_def by (rule flush_lines_defined) (auto simp: cache_inv_def)

lemma lru_index_less:
  assumes "0 < entryCount c"
  shows "lru_index c < entryCount c"
proof -
  have "fst (fold (\<lambda>i (l, a). if ce_lastAccess (lines c ! i) < a then (i, ce_lastAccess (lines c ! i)) else (l, a)) is p)
      < entryCount c" if "\<forall>i\<in>set is. i < entryCount c" "fst p < entryCount c" for "is" p
    using that by (induction "is" arbitrary: p) (auto simp: case_prod_unfold)
  from this [of "[1..<entryCount c]" "(0, ce_lastAccess (lines c ! 0))"] show ?thesis
    using assms by (simp add: lru_index_def)
qed

definition cached :: "u32 \<Rightarrow> cache \<Rightarrow> bool" where
  "cached off c \<longleftrightarrow> line_key off c \<in> ce_key ` set (take (entryCount c) (lines c))"

lemma find_key:
  assumes "cache_inv c"
  shows "find_index (\<lambda>e. ce_valid e \<and> ce_key e = k) (take (entryCount c) (lines c)) = Some i \<longleftrightarrow>
    i < entryCount c \<and> ce_key (lines c ! i) = k"
  using assms
  by (auto simp: cache_inv_def find_index_Some distinct_conv_nth)

lemma findLine_hit:
  assumes "cache_inv c" and "i < entryCount c" and "ce_key (lines c ! i) = line_key off c"
  shows "findLine off c = (Some i, c\<lparr>hits := hits c + 1,
    lines := (lines c)[i := (lines c ! i)\<lparr>ce_lastAccess := hits c + 1 + misses c\<rparr>]\<rparr>)"
proof -
  have "find_index (\<lambda>e. ce_valid e \<and> ce_key e = line_key off c) (take (entryCount c) (lines c)) = Some i"
    using find_key [OF assms(1)] assms(2,3) by simp
  then show ?thesis by (simp add: findLine_def)
qed

lemma findLine_miss: "cache_inv c \<Longrightarrow> \<not> cached off c \<Longrightarrow> findLine off c = (None, c\<lparr>misses := misses c + 1\<rparr>)"
proof -
  assume "\<not> cached off c"
  then have "find_index (\<lambda>e. ce_valid e \<and> ce_key e = line_key off c) (take (entryCount c) (lines c)) = None"
    unfolding cached_def find_index_None by (metis imageI)
  then show ?thesis by (simp add: findLine_def del: find_index_None)
qed

lemma cached_same: "same_keys c c' \<Longrightarrow> cached off c' = cached off c"
proof -
  assume s: "same_keys c c'"
  then have "map ce_key (take (entryCount c') (lines c')) = map ce_key (take (entryCount c) (lines c))"
    by (simp add: same_keys_def flip: take_map)
  then show ?thesis unfolding cached_def line_key_same [OF s] set_map [symmetric] by simp
qed

lemma fresh_line_inv:
  assumes "cache_inv c" and "\<not> cached off c" and "i < kMaxLines" and "i \<le> entryCount c" and "n = max (entryCount c) (Suc i)"
  shows "cache_inv (c\<lparr>lines := (lines c)[i := fresh_line off c], entryCount := n\<rparr>)"
proof (cases "i < entryCount c")
  case True
  have "distinct ((map ce_key (take (entryCount c) (lines c)))[i := line_key off c])"
    using assms(1,2) by (intro distinct_list_update) (auto simp: cache_inv_def cached_def)
  then show ?thesis
    using assms True by (auto simp: cache_inv_def fresh_line_def take_update_swap map_update nth_list_update)
next
  case False
  then have i: "i = entryCount c" using assms(4) by simp
  have len: "length (lines c) = kMaxLines" using assms(1) by (simp add: cache_inv_def)
  have "take (Suc i) ((lines c)[i := fresh_line off c]) = take i (lines c) @ [fresh_line off c]"
    using assms(3) len by (simp add: take_Suc_conv_app_nth)
  then show ?thesis
    using assms i by (auto simp: cache_inv_def fresh_line_def cached_def nth_list_update less_Suc_eq)
qed

lemma allocateLine_ok:
  assumes "cache_inv c" and "\<not> cached off c"
  shows "\<exists>i c' s'. allocateLine off c s = Some (i, c', s') \<and> cache_inv c' \<and> i < entryCount c' \<and>
    lines c' ! i = fresh_line off c \<and> lineSize c' = lineSize c \<and> pool c' = pool c"
proof (cases "entryCount c < kMaxLines")
  case True
  then show ?thesis
    using fresh_line_inv [OF assms True le_refl refl] assms(1) by (simp add: allocateLine_def cache_inv_def)
next
  case False
  then have n: "entryCount c = kMaxLines" using assms(1) by (simp add: cache_inv_def)
  have i: "lru_index c < kMaxLines" using lru_index_less [of c] n by (simp add: kMaxLines_def)
  obtain c1 s1 where f: "(if ce_dirty (lines c ! lru_index c) then map_option snd (cache_flush c s) else Some (c, s))
      = Some (c1, s1)" and same: "same_keys c c1" "pool c1 = pool c"
  proof (cases "ce_dirty (lines c ! lru_index c)")
    case True
    obtain rc c1 s1 where fl: "cache_flush c s = Some (rc, c1, s1)" using flush_defined [OF assms(1)] by blast
    then have "(if ce_dirty (lines c ! lru_index c) then map_option snd (cache_flush c s) else Some (c, s))
      = Some (c1, s1)" using True by simp
    then show thesis using flush_same [OF fl] that by blast
  qed (use that [of c s] in simp)
  have inv1: "cache_inv c1" by (rule same_keys_inv [OF same(1) assms(1)])
  have n1: "entryCount c1 = kMaxLines" using same(1) n by (simp add: same_keys_def)
  define c2 where "c2 = c1\<lparr>lines := (lines c1)[lru_index c := fresh_line off c1]\<rparr>"
  have "cache_inv (c1\<lparr>lines := (lines c1)[lru_index c := fresh_line off c1], entryCount := kMaxLines\<rparr>)"
    using assms(2) cached_same [OF same(1)] i n1
    by (intro fresh_line_inv [OF inv1 _ i]) (simp_all add: max_def)
  moreover have "c1\<lparr>lines := (lines c1)[lru_index c := fresh_line off c1], entryCount := kMaxLines\<rparr> = c2"
    using n1 by (simp add: c2_def)
  ultimately have inv2: "cache_inv c2" by (simp only:)
  have al: "allocateLine off c s = Some (lru_index c, c2, s1)"
    using False f by (simp only: allocateLine_def Let_def if_False bind.simps prod.case c2_def)
  have fr: "fresh_line off c1 = fresh_line off c"
    using same(1) by (simp add: fresh_line_def line_key_def same_keys_def)
  have len: "length (lines c1) = kMaxLines" using inv1 by (simp add: cache_inv_def)
  have "lru_index c < entryCount c2" using i n1 by (simp add: c2_def)
  moreover have "lines c2 ! lru_index c = fresh_line off c" using i len fr by (simp add: c2_def)
  moreover have "lineSize c2 = lineSize c" "pool c2 = pool c" using same by (simp_all add: c2_def same_keys_def)
  ultimately show ?thesis using al inv2 by blast
qed


section \<open>What the cache promises\<close>

text \<open>A line of the cache lies in the pool, and the copied part in its line.\<close>

lemma line_in_pool:
  assumes "cache_inv c" and "i < entryCount c"
  shows "in_pool (i * lineSize c) (lineSize c) c"
    and "in_pool (i * lineSize c + unat off mod lineSize c) (copy_len off len c) c"
proof -
  have le: "Suc i * lineSize c \<le> kMaxLines * lineSize c"
    using assms by (intro mult_le_mono1) (simp add: cache_inv_def)
  then show a: "in_pool (i * lineSize c) (lineSize c) c"
    using assms(1) by (simp add: in_pool_def cache_inv_def)
  have "unat off mod lineSize c < lineSize c" using assms(1) by (simp add: cache_inv_def)
  then show "in_pool (i * lineSize c + unat off mod lineSize c) (copy_len off len c) c"
    using a by (simp add: in_pool_def copy_len_def)
qed

lemma copy_len_int: "cache_inv c \<Longrightarrow> sint (of_nat (copy_len off len c) :: u32) = int (copy_len off len c)"
proof -
  assume "cache_inv c"
  then have "lineSize c < 2147483648" by (simp add: cache_inv_def)
  moreover have "copy_len off len c \<le> lineSize c" by (simp add: copy_len_def)
  ultimately have "copy_len off len c < 2147483648" by linarith
  moreover from this have "unat (of_nat (copy_len off len c) :: u32) = copy_len off len c"
    by (simp add: unat_u32_of_nat)
  ultimately show ?thesis by (simp add: sint_u32)
qed

lemma same_copy: "same_keys c c' \<Longrightarrow> copy_len off len c' = copy_len off len c"
  by (simp add: same_keys_def copy_len_def)

lemma cache_read_hit:
  assumes "cache_inv c" and "i < entryCount c" and "ce_key (lines c ! i) = line_key off c"
  shows "\<exists>c'. cache_read off len c s =
      Some (int (copy_len off len c), mem_get (pool c) (i * lineSize c + unat off mod lineSize c) (copy_len off len c), c', s) \<and>
    cache_inv c' \<and> pool c' = pool c"
proof -
  obtain c' where f: "findLine off c = (Some i, c')" and p: "pool c' = pool c"
    using findLine_hit [OF assms] by auto
  have same: "same_keys c c'" by (rule findLine_same [OF f])
  have inv: "cache_inv c'" by (rule same_keys_inv [OF same assms(1)])
  have "i < entryCount c'" using same assms(2) by (simp add: same_keys_def)
  note inp = line_in_pool(2) [OF inv this, of off len]
  have sz: "lineSize c' = lineSize c" using same by (simp add: same_keys_def)
  have "copy_out off len i c' s =
      Some (int (copy_len off len c), mem_get (pool c) (i * lineSize c + unat off mod lineSize c) (copy_len off len c), c', s)"
    using inp copy_len_int [OF inv, of off len] by (simp add: copy_out_def Let_def same_copy [OF same] sz p)
  moreover have "cache_read off len c s = copy_out off len i c' s"
    using f assms(1) by (simp add: cache_read_def cache_inv_def)
  ultimately show ?thesis using inv p by (intro exI [of _ c']) simp
qed

lemma cache_write_line:
  assumes "cache_inv c"
  shows "\<exists>c' i s'. cache_write off buf c s = Some (int (copy_len off (length buf) c), c', s') \<and> cache_inv c' \<and>
    i < entryCount c' \<and> ce_key (lines c' ! i) = line_key off c' \<and> lineSize c' = lineSize c \<and>
    pool c' = mem_put (pool c) (i * lineSize c + unat off mod lineSize c) (take (copy_len off (length buf) c) buf)"
proof -
  have ls: "0 < lineSize c" using assms by (simp add: cache_inv_def)
  obtain i c1 s1 where w: "cache_write off buf c s = copy_in off buf i c1 s1" and inv: "cache_inv c1"
    and i: "i < entryCount c1" and k: "ce_key (lines c1 ! i) = line_key off c1"
    and sz: "lineSize c1 = lineSize c" and p: "pool c1 = pool c"
  proof (cases "cached off c")
    case True
    then obtain i where i: "i < entryCount c" "ce_key (lines c ! i) = line_key off c"
      by (auto simp: cached_def in_set_conv_nth)
    from findLine_hit [OF assms i] obtain c1 where f: "findLine off c = (Some i, c1)" and p: "pool c1 = pool c"
      by auto
    have same: "same_keys c c1" by (rule findLine_same [OF f])
    have len: "i < length (lines c)" using assms i(1) by (simp add: cache_inv_def)
    show thesis
    proof (rule that [of i c1 s])
      show "cache_write off buf c s = copy_in off buf i c1 s" using f ls by (simp add: cache_write_def)
      show "ce_key (lines c1 ! i) = line_key off c1"
        using same_keys_nth(1) [OF same len] i(2) line_key_same [OF same] by simp
    qed (use same_keys_inv [OF same assms] same i p in \<open>simp_all add: same_keys_def\<close>)
  next
    case False
    define c0 where "c0 = c\<lparr>misses := misses c + 1\<rparr>"
    have same: "same_keys c c0" by (simp add: c0_def same_keys_def)
    from allocateLine_ok [OF same_keys_inv [OF same assms], of off s] False cached_same [OF same]
    obtain i c1 s1 where al: "allocateLine off c0 s = Some (i, c1, s1)" and inv: "cache_inv c1" "i < entryCount c1"
      and fr: "lines c1 ! i = fresh_line off c0" and sz: "lineSize c1 = lineSize c0" "pool c1 = pool c0" by auto
    show thesis
    proof (rule that [of i c1 s1])
      show "cache_write off buf c s = copy_in off buf i c1 s1"
        using al ls findLine_miss [OF assms False] by (simp add: cache_write_def c0_def)
      show "ce_key (lines c1 ! i) = line_key off c1" using fr sz by (simp add: fresh_line_def line_key_def)
    qed (use inv sz in \<open>simp_all add: c0_def\<close>)
  qed
  have cl: "copy_len off n c1 = copy_len off n c" for n using sz by (simp add: copy_len_def)
  define c' where "c' = c1\<lparr>pool := mem_put (pool c1) (i * lineSize c1 + unat off mod lineSize c1)
      (take (copy_len off (length buf) c1) buf), lines := (lines c1)[i := (lines c1 ! i)\<lparr>ce_dirty := True\<rparr>]\<rparr>"
  have same: "same_keys c1 c'" by (simp add: c'_def same_keys_def map_update_same)
  have "copy_in off buf i c1 s1 = Some (int (copy_len off (length buf) c1), c', s1)"
    using line_in_pool(2) [OF inv i, of off "length buf"] copy_len_int [OF inv, of off "length buf"]
    by (simp add: copy_in_def Let_def c'_def)
  moreover have "ce_key (lines c' ! i) = line_key off c'"
    using same_keys_nth(1) [OF same, of i] i inv k line_key_same [OF same] by (simp add: cache_inv_def)
  ultimately show ?thesis
    using w same_keys_inv [OF same inv] i sz p cl by (intro exI [of _ c'] exI [of _ i] exI [of _ s1]) (simp add: c'_def)
qed

text \<open>
  C19: A write through the cache is read back through the cache, whatever the flash device does:
  in a cache whose pool holds all 64 lines, a write stores as much of the buffer as fits in the
  line, returns that length, and a read at the same offset hits and returns these bytes. The
  write may evict another line; the keys of the cached lines stay distinct and nothing outside
  the pool is touched.
\<close>
theorem cache_read_after_write:
  assumes "cache_inv c" and "n = copy_len off (length buf) c"
  shows "\<exists>c1 s1 c2. cache_write off buf c s = Some (int n, c1, s1) \<and> cache_inv c1 \<and>
    cache_read off (length buf) c1 s1 = Some (int n, take n buf, c2, s1) \<and> cache_inv c2"
proof -
  obtain c1 i s1 where w: "cache_write off buf c s = Some (int n, c1, s1)" and inv: "cache_inv c1"
    and i: "i < entryCount c1" "ce_key (lines c1 ! i) = line_key off c1" and sz: "lineSize c1 = lineSize c"
    and p: "pool c1 = mem_put (pool c) (i * lineSize c + unat off mod lineSize c) (take n buf)"
    using cache_write_line [OF assms(1), of off buf s] assms(2) by auto
  have n: "copy_len off (length buf) c1 = n" using sz assms(2) by (simp add: copy_len_def)
  have "length (take n buf) = n" using assms(2) by (simp add: copy_len_def)
  then have "mem_get (pool c1) (i * lineSize c1 + unat off mod lineSize c1) n = take n buf"
    unfolding p sz by (metis mem_get_put)
  then show ?thesis using cache_read_hit [OF inv i, of "length buf" s1] w inv n by auto
qed

theorem cache_read_after_write_witness:
  "\<exists>c1 s1 c2. cache_write 20 [1, 2, 3] (new_cache (\<lambda>_. 0) 1024 16) (new_storage ()) = Some (3, c1, s1) \<and> cache_inv c1 \<and>
    cache_read 20 3 c1 s1 = Some (3, [1, 2, 3], c2, s1) \<and> cache_inv c2"
proof -
  have inv: "cache_inv (new_cache (\<lambda>_. 0) 1024 16)" by (rule new_cache_inv) (simp_all add: kMaxLines_def)
  have l: "length [1, 2, 3 :: u8] = 3" by simp
  have n: "3 = copy_len 20 (length [1, 2, 3 :: u8]) (new_cache (\<lambda>_. 0) 1024 16)"
    by (simp add: copy_len_def new_cache_def)
  show ?thesis using cache_read_after_write [OF inv n, of "new_storage ()"] unfolding l by simp
qed

lemma mem_get_put_copy:
  "k + n \<le> l \<Longrightarrow> mem_get (mem_put m a (mem_get m' a' l)) (a + k) n = mem_get m' (a' + k) n"
  by (intro nth_equalityI) (simp_all add: mem_get_def mem_put_def add.assoc)

lemma line_start:
  assumes "cache_inv c" and "unat off div lineSize c * lineSize c + lineSize c \<le> cap" and "cap < 2 ^ 31"
  shows "unat (line_key off c * of_nat (lineSize c)) = unat off div lineSize c * lineSize c"
    and "unat (of_nat (lineSize c) :: u32) = lineSize c"
proof -
  have ls: "lineSize c < 4294967296" using assms(1) by (simp add: cache_inv_def)
  then show u: "unat (of_nat (lineSize c) :: u32) = lineSize c" by (rule unat_u32_of_nat)
  have k: "unat (line_key off c) = unat off div lineSize c" by (simp add: line_key_def unat_div u)
  show "unat (line_key off c * of_nat (lineSize c)) = unat off div lineSize c * lineSize c"
    using assms(2,3) by (simp add: unat_word_ariths k u)
qed

lemma first_read_fails:
  assumes dev: "flash_device b rd wr er cells cap sector" and s: "backend s = b"
    and c: "cache_inv c" and off: "\<not> cached off c" and room: "entryCount c < kMaxLines"
    and cap: "unat off div lineSize c * lineSize c + lineSize c \<le> cap"
  shows "\<exists>c1. cache_read off len c s = Some (-1, [], c1, s) \<and> cache_inv c1 \<and> lineSize c1 = lineSize c \<and>
    entryCount c < entryCount c1 \<and> ce_key (lines c1 ! entryCount c) = line_key off c \<and>
    pool c1 = mem_put (pool c) (entryCount c * lineSize c)
      (mem_get (cells (device s)) (unat off div lineSize c * lineSize c) (lineSize c))"
proof -
  define i where "i = entryCount c"
  define c0 where "c0 = c\<lparr>misses := misses c + 1\<rparr>"
  define c2 where "c2 = c0\<lparr>lines := (lines c0)[i := fresh_line off c0], entryCount := i + 1\<rparr>"
  have same: "same_keys c c0" by (simp add: c0_def same_keys_def)
  have al: "allocateLine off c0 s = Some (i, c2, s)"
    using room by (simp add: allocateLine_def c2_def i_def c0_def)
  have inv2: "cache_inv c2" and i2: "i < entryCount c2" and l2: "lines c2 ! i = fresh_line off c0"
    and z2: "lineSize c2 = lineSize c" "pool c2 = pool c"
    using allocateLine_ok [OF same_keys_inv [OF same c], of off s] off cached_same [OF same] al
    by (auto simp: c0_def)
  have key: "ce_key (lines c2 ! i) = line_key off c" by (simp add: l2 fresh_line_def line_key_def c0_def)
  have cap31: "cap < 2 ^ 31" using dev by (simp add: flash_device_def)
  note st = line_start [OF c cap cap31]
  have rd: "storage_read (line_key off c * of_nat (lineSize c)) (of_nat (lineSize c)) s =
      (int (lineSize c), mem_get (cells (device s)) (unat off div lineSize c * lineSize c) (lineSize c))"
    using flash_device.read_ok [OF dev s, of "line_key off c * of_nat (lineSize c)" "of_nat (lineSize c)"] cap
    by (simp add: st)
  define c3 where "c3 = c2\<lparr>pool := mem_put (pool c2) (i * lineSize c2)
      (mem_get (cells (device s)) (unat off div lineSize c * lineSize c) (lineSize c))\<rparr>"
  have "cache_read off len c s = Some (-1, [], c3, s)"
    using findLine_miss [OF c off] al line_in_pool(1) [OF inv2 i2] c
    by (simp add: cache_read_def c0_def [symmetric] key z2 rd Let_def c3_def cache_inv_def)
  moreover have "same_keys c2 c3" by (simp add: c3_def same_keys_def)
  ultimately show ?thesis
    using same_keys_inv [OF _ inv2] key i2 z2 by (intro exI [of _ c3]) (simp add: c3_def i_def [symmetric])
qed

text \<open>
  On a working flash device the first read of an uncached line fails although the line was
  loaded: the cache takes the positive byte count of the storage layer for an error. The very
  same read, repeated, hits and returns the bytes of the device.
\<close>
theorem cache_miss_fails_then_hits:
  assumes "flash_device b rd wr er cells cap sector" and "backend s = b" and "cache_inv c" and "\<not> cached off c"
    and "entryCount c < kMaxLines" and "unat off div lineSize c * lineSize c + lineSize c \<le> cap"
    and "n = copy_len off len c"
  shows "\<exists>c1 c2. cache_read off len c s = Some (-1, [], c1, s) \<and>
    cache_read off len c1 s = Some (int n, mem_get (cells (device s)) (unat off) n, c2, s)"
proof -
  obtain c1 where r: "cache_read off len c s = Some (-1, [], c1, s)" and inv: "cache_inv c1"
    and sz: "lineSize c1 = lineSize c" and i: "entryCount c < entryCount c1"
    and key: "ce_key (lines c1 ! entryCount c) = line_key off c"
    and p: "pool c1 = mem_put (pool c) (entryCount c * lineSize c)
      (mem_get (cells (device s)) (unat off div lineSize c * lineSize c) (lineSize c))"
    using first_read_fails [OF assms(1-6)] by blast
  have n: "copy_len off len c1 = n" using sz assms(7) by (simp add: copy_len_def)
  have "unat off mod lineSize c < lineSize c" using assms(3) by (simp add: cache_inv_def)
  then have fits: "unat off mod lineSize c + n \<le> lineSize c" using assms(7) by (simp add: copy_len_def)
  have "mem_get (pool c1) (entryCount c * lineSize c1 + unat off mod lineSize c1) n = mem_get (cells (device s)) (unat off) n"
    unfolding p sz mem_get_put_copy [OF fits] by (simp add: div_mult_mod_eq)
  moreover have "ce_key (lines c1 ! entryCount c) = line_key off c1" using key sz by (simp add: line_key_def)
  ultimately show ?thesis using cache_read_hit [OF inv i, of off len s] r n by auto
qed

theorem cache_miss_fails_then_hits_witness:
  "\<exists>c1 c2. cache_read 130 4 (new_cache (\<lambda>_. 0) 4096 64) test_storage = Some (-1, [], c1, test_storage) \<and>
    cache_read 130 4 c1 test_storage = Some (4, mem_get (device test_storage) 130 4, c2, test_storage)"
proof -
  have inv: "cache_inv (new_cache (\<lambda>_. 0) 4096 64)" by (rule new_cache_inv) (simp_all add: kMaxLines_def)
  have un: "\<not> cached 130 (new_cache (\<lambda>_. 0) 4096 64)" by (simp add: cached_def new_cache_def)
  show ?thesis
    using cache_miss_fails_then_hits [OF testflash.flash_device_axioms test_storage_simps(1) inv un, of 4 4]
    by (simp add: new_cache_def kMaxLines_def copy_len_def)
qed

text \<open>
  On a working flash device \<open>flush\<close> never gets past the first dirty line: it writes that
  line, takes the positive count for an error, returns -1 and leaves the line dirty, so every
  further \<open>flush\<close> writes the same line again and no other dirty line ever reaches the device.
\<close>
theorem cache_flush_stuck:
  assumes "flash_device b rd wr er cells cap sector" and "backend s = b" and "cache_inv c"
    and "i < entryCount c" and "ce_dirty (lines c ! i)" and "\<forall>j < i. \<not> ce_dirty (lines c ! j)"
    and "a = unat (ce_key (lines c ! i) * of_nat (lineSize c))" and "a + lineSize c \<le> cap"
  shows "\<exists>d'. cache_flush c s = Some (-1, c, s\<lparr>device := d'\<rparr>) \<and>
    cells d' = flash_store sector a (mem_get (pool c) (i * lineSize c) (lineSize c)) (cells (device s))"
proof -
  let ?d = "mem_get (pool c) (i * lineSize c) (lineSize c)"
  have "length ?d = lineSize c" by simp
  moreover have "?d \<noteq> []" using assms(3) by (auto simp: cache_inv_def mem_get_def)
  ultimately obtain d' where w: "storage_write (ce_key (lines c ! i) * of_nat (lineSize c)) ?d s =
      (int (lineSize c), s\<lparr>device := d'\<rparr>)" "cells d' = flash_store sector a ?d (cells (device s))"
    using flash_device.write_ok [OF assms(1,2), of ?d "ce_key (lines c ! i) * of_nat (lineSize c)"] assms(7,8) by auto
  have skip: "flush_lines (is @ i # js) c s = flush_lines (i # js) c s" if "\<forall>j\<in>set is. j < i" for "is" js
    using that assms(6) by (induction "is") (auto simp: Let_def)
  have "cache_flush c s = flush_lines (i # [Suc i..<entryCount c]) c s"
    unfolding cache_flush_def upt_split_at [OF assms(4)] by (rule skip) simp
  also have "\<dots> = Some (-1, c, s\<lparr>device := d'\<rparr>)"
    using assms(3,4,5) line_in_pool(1) [OF assms(3,4)] w(1) by (simp add: Let_def cache_inv_def)
  finally show ?thesis using w(2) by (intro exI [of _ d']) simp
qed


definition dirty_cache :: cache where
  "dirty_cache = (new_cache (\<lambda>_. 7) 4096 64)\<lparr>lines := (replicate 64 new_cache_entry)
     [0 := \<lparr>ce_key = 3, ce_size = 64, ce_lastAccess = 0, ce_dirty = True, ce_valid = True\<rparr>], entryCount := 1\<rparr>"

theorem cache_flush_stuck_witness:
  "\<exists>d'. cache_flush dirty_cache test_storage = Some (-1, dirty_cache, test_storage\<lparr>device := d'\<rparr>) \<and>
    d' = flash_store 4096 192 (mem_get (\<lambda>_. 7) 0 64) (device test_storage)"
proof -
  have inv: "cache_inv dirty_cache"
    by (simp add: cache_inv_def dirty_cache_def new_cache_def kMaxLines_def take_update_swap)
  have d: "0 < entryCount dirty_cache" "ce_dirty (lines dirty_cache ! 0)"
    and k: "ce_key (lines dirty_cache ! 0) = 3" "lineSize dirty_cache = 64" "pool dirty_cache = (\<lambda>_. 7)"
    by (simp_all add: dirty_cache_def new_cache_def)
  show ?thesis
    using cache_flush_stuck [OF testflash.flash_device_axioms test_storage_simps(1) inv d, of 192]
    by (simp add: k)
qed

end
