(* ===== verification/Dfu.thy ===== *)
theory Dfu
  imports Boot Event_Bus
begin

text \<open>
  Recovery and over-the-air update: \<open>recovery/include/takt/recovery_manager.hpp\<close>,
  \<open>recovery/src/recovery_manager.cpp\<close>, \<open>recovery/src/recovery_transports.cpp\<close> and
  \<open>services/src/ota_service.cpp\<close>.

  The recovery manager is a state machine in front of the firmware store; the OTA service is
  a client of both. What they tell the outside (publications on the bus, calls of the progress
  callbacks of the application, the restart) is the list \<open>outputs\<close>; what subscribers do with
  it is theirs. The result of the HTTP server start and the OTA functions of the vendor are the
  record \<open>dfu_env\<close>.
\<close>


section \<open>State\<close>

datatype recovery_channel = ChNone | ChBle | ChWiFi | ChUart

datatype ota_transport = ViaWiFi | ViaBle

datatype dfu_state =
  Idle | AwaitingImage | Receiving | Verifying | Installing | Complete | Failed | RollingBack

text \<open>The two callbacks that the program registers: of the recovery application and of the OTA service.\<close>

datatype progress_callback = ClientProgress | OtaServiceProgress

datatype dfu_output =
  Published event_name u32 u32
| DfuProgressed u32 u32 dfu_state
| OtaProgressed u32 u32
| Restarted

record transport_set =
  ble_active :: bool
  ble_handler :: bool
  wifi_active :: bool
  wifi_instance :: bool
  wifi_port :: u16
  wifi_handler :: bool
  uart_active :: bool
  uart_port :: int
  uart_handler :: bool

record ota_service =
  os_active :: bool
  os_transport :: ota_transport
  os_callback :: bool
  os_received :: u32
  os_total :: u32

record 'f dfu_sys = "'f boot_sys" +
  dfu_state :: dfu_state
  dfu_channel :: recovery_channel
  dfu_received :: u32
  dfu_total :: u32
  dfu_callback :: "progress_callback option"
  transports :: "transport_set option"
  ota :: ota_service
  outputs :: "dfu_output list"

record 'f dfu_env =
  env_ota :: "'f esp_ota"
  httpd_start_ok :: bool
  on_esp32 :: bool

definition emit :: "dfu_output \<Rightarrow> 'f dfu_sys \<Rightarrow> 'f dfu_sys" where
  "emit out s = s\<lparr>outputs := outputs s @ [out]\<rparr>"


section \<open>Transports\<close>

text \<open>
  The new transports with the data handler of the manager. No transport ever calls its
  handler: the HTTP handler drops what it receives, the BLE transport has no receive path and
  \<open>UartDfu::tick\<close> reads nothing. \<open>wifi_instance\<close> tells that the global pointer \<open>gInstance\<close> is set, which it is
  before the server starts, so that it stays set when that fails.
\<close>

definition new_transports :: transport_set where
  "new_transports = \<lparr>ble_active = False, ble_handler = True, wifi_active = False, wifi_instance = False,
     wifi_port = 8080, wifi_handler = True, uart_active = False, uart_port = 0, uart_handler = True\<rparr>"

definition wifi_ota_start :: "'f dfu_env \<Rightarrow> transport_set \<Rightarrow> bool \<times> transport_set" where
  "wifi_ota_start env t = (let t1 = t\<lparr>wifi_instance := True\<rparr> in
     if httpd_start_ok env then (True, t1\<lparr>wifi_active := True\<rparr>) else (False, t1))"

definition wifi_ota_stop :: "transport_set \<Rightarrow> transport_set" where
  "wifi_ota_stop t = t\<lparr>wifi_active := False, wifi_instance := False\<rparr>"

definition ble_dfu_start :: "transport_set \<Rightarrow> bool \<times> transport_set" where
  "ble_dfu_start t = (True, t\<lparr>ble_active := True\<rparr>)"

definition ble_dfu_stop :: "transport_set \<Rightarrow> transport_set" where
  "ble_dfu_stop t = t\<lparr>ble_active := False\<rparr>"

definition uart_dfu_start :: "transport_set \<Rightarrow> bool \<times> transport_set" where
  "uart_dfu_start t = (True, t\<lparr>uart_active := True\<rparr>)"

definition uart_dfu_tick :: "transport_set \<Rightarrow> transport_set" where
  "uart_dfu_tick t = t"

text \<open>
  The handler of the HTTP server. \<open>recv\<close> is
  \<open>httpd_req_recv\<close> of the vendor on a connection \<open>'q\<close>: the number of bytes it put into the local buffer,
  or an error. What is in the buffer goes nowhere: neither the transport nor the manager is an
  argument of the loop.
\<close>

function upload_loop :: "('q \<Rightarrow> int \<times> 'q) \<Rightarrow> nat \<Rightarrow> nat \<Rightarrow> 'q \<Rightarrow> bool \<times> 'q" where
  "upload_loop recv contentLen received q =
     (if received < contentLen
      then case recv q of (ret, q1) \<Rightarrow>
        if ret \<le> 0 then (False, q1) else upload_loop recv contentLen (received + nat ret) q1
      else (True, q))"
  by pat_completeness auto
termination by (relation "measure (\<lambda>(_, contentLen, received, _). contentLen - received)") auto

declare upload_loop.simps [simp del]

definition uploadHandler :: "('q \<Rightarrow> int \<times> 'q) \<Rightarrow> nat \<Rightarrow> transport_set \<Rightarrow> 'q \<Rightarrow> bool \<times> 'q" where
  "uploadHandler recv contentLen t q = (if \<not> wifi_instance t then (False, q) else upload_loop recv contentLen 0 q)"

lemma upload_acknowledged:
  assumes "\<And>q. 0 < fst (recv q)" and "wifi_instance t"
  shows "fst (uploadHandler recv contentLen t q)"
proof -
  have "fst (upload_loop recv contentLen n q)" for n q
    using assms(1)
  proof (induction recv contentLen n q rule: upload_loop.induct)
    case (1 recv contentLen received q)
    obtain ret q1 where r: "recv q = (ret, q1)" by fastforce
    then have "0 < ret" using "1.prems" [of q] by simp
    then show ?case using 1 r by (subst upload_loop.simps) simp
  qed
  then show ?thesis using assms(2) by (simp add: uploadHandler_def)
qed


section \<open>The recovery manager\<close>

text \<open>The lambda that \<open>OtaService::startUpdate\<close> installs.\<close>

definition ota_progress :: "u32 \<Rightarrow> u32 \<Rightarrow> 'f dfu_sys \<Rightarrow> 'f dfu_sys" where
  "ota_progress received tot s =
     (let s1 = s\<lparr>ota := (ota s)\<lparr>os_received := received, os_total := tot\<rparr>\<rparr>;
          s2 = (if os_callback (ota s1) then emit (OtaProgressed received tot) s1 else s1)
      in emit (Published OtaProgress received tot) s2)"

definition notifyProgress :: "'f dfu_sys \<Rightarrow> 'f dfu_sys" where
  "notifyProgress s =
     (case dfu_callback s of None \<Rightarrow> s
      | Some ClientProgress \<Rightarrow> emit (DfuProgressed (dfu_received s) (dfu_total s) (dfu_state s)) s
      | Some OtaServiceProgress \<Rightarrow> ota_progress (dfu_received s) (dfu_total s) s)"

definition setState :: "dfu_state \<Rightarrow> 'f dfu_sys \<Rightarrow> 'f dfu_sys" where
  "setState newState s = notifyProgress (s\<lparr>dfu_state := newState\<rparr>)"

definition recovery_init :: "recovery_channel \<Rightarrow> 'f dfu_sys \<Rightarrow> bool \<times> 'f dfu_sys" where
  "recovery_init channel s = (True, s\<lparr>dfu_channel := channel, transports := Some new_transports\<rparr>)"

text \<open>Before \<open>init\<close> the transports are null pointers: starting one has no defined result.\<close>

definition startDfuListener :: "'f dfu_env \<Rightarrow> 'f dfu_sys \<Rightarrow> (bool \<times> 'f dfu_sys) option" where
  "startDfuListener env s =
     (let s1 = setState AwaitingImage s in
      if dfu_channel s1 = ChNone then Some (False, s1)
      else do { t \<leftarrow> transports s1;
                let (ok, t1) = (case dfu_channel s1 of ChBle \<Rightarrow> ble_dfu_start t
                                | ChWiFi \<Rightarrow> wifi_ota_start env t | _ \<Rightarrow> uart_dfu_start t)
                in Some (ok, s1\<lparr>transports := Some t1\<rparr>) })"

definition receiveChunk :: "bytes \<Rightarrow> 'f dfu_sys \<Rightarrow> int \<times> 'f dfu_sys" where
  "receiveChunk data s =
     (if dfu_state s \<noteq> AwaitingImage \<and> dfu_state s \<noteq> Receiving then (-1, s)
      else let s1 = (if dfu_state s = AwaitingImage then setState Receiving s else s);
               (written, s2) = writeChunk data s1 in
        if 0 < written then
          let s3 = s2\<lparr>dfu_received := dfu_received s2 + of_int written\<rparr>;
              s4 = emit (Published OtaProgress (dfu_received s3) (dfu_total s3)) s3
          in (written, notifyProgress s4)
        else (written, s2))"

definition finalizeDfu :: "'f dfu_env \<Rightarrow> 'f dfu_sys \<Rightarrow> bool \<times> 'f dfu_sys" where
  "finalizeDfu env s =
     (let (ok, s1) = finalizeWrite (setState Verifying s) in
      if \<not> ok then (False, emit (Published OtaFailed 0 0) (setState Failed s1))
      else let s2 = setState Installing s1;
               slot = inactiveSlot (fw s2);
               (ok2, s3) = activateSlot (env_ota env) slot s2 in
        if \<not> ok2 then (False, setState Failed s3)
        else let s4 = emit (Published OtaComplete 0 0) (setState Complete s3);
                 s5 = requestOtaBoot slot s4
             in (True, if on_esp32 env then emit Restarted s5 else s5))"

definition recovery_rollback :: "'f dfu_env \<Rightarrow> 'f dfu_sys \<Rightarrow> bool \<times> 'f dfu_sys" where
  "recovery_rollback env s =
     (let (ok, s1) = rollback (env_ota env) (setState RollingBack s) in
      if \<not> ok then (False, setState Failed s1)
      else (True, emit (Published OtaRollback 0 0) (setState Complete s1)))"

definition recovery_abort :: "'f dfu_sys \<Rightarrow> 'f dfu_sys" where
  "recovery_abort s =
     (let s1 = setState Idle s in
      s1\<lparr>dfu_received := 0, dfu_total := 0,
         transports := map_option (\<lambda>t. wifi_ota_stop (ble_dfu_stop t)) (transports s1)\<rparr>)"

definition recovery_tick :: "'f dfu_sys \<Rightarrow> 'f dfu_sys" where
  "recovery_tick s =
     (if dfu_channel s = ChUart then s\<lparr>transports := map_option uart_dfu_tick (transports s)\<rparr> else s)"

partial_function (option) recovery_loop :: "'f dfu_sys \<Rightarrow> 'f dfu_sys option" where
  "recovery_loop s =
     (if dfu_state s \<noteq> Complete \<and> dfu_state s \<noteq> Failed then recovery_loop (recovery_tick s) else Some s)"

definition recovery_run :: "'f dfu_env \<Rightarrow> 'f dfu_sys \<Rightarrow> 'f dfu_sys option" where
  "recovery_run env s = do { (_, s1) \<leftarrow> startDfuListener env s; recovery_loop s1 }"


section \<open>The OTA service\<close>

definition ota_startUpdate :: "'f dfu_env \<Rightarrow> ota_transport \<Rightarrow> u32 \<Rightarrow> u32 \<Rightarrow> 'f dfu_sys \<Rightarrow> (bool \<times> 'f dfu_sys) option" where
  "ota_startUpdate env transport imageSize version s =
     (let s1 = s\<lparr>ota := (ota s)\<lparr>os_transport := transport, os_total := imageSize, os_received := 0\<rparr>\<rparr>;
          ch = (if transport = ViaBle then ChBle else ChWiFi);
          s2 = (snd (recovery_init ch s1))\<lparr>dfu_callback := Some OtaServiceProgress\<rparr>;
          (ok, s3) = beginWrite imageSize version s2 in
      if \<not> ok then Some (False, s3)
      else do { (_, s4) \<leftarrow> startDfuListener env s3;
                Some (True, emit (Published OtaStart imageSize (if transport = ViaBle then 1 else 0))
                              (s4\<lparr>ota := (ota s4)\<lparr>os_active := True\<rparr>\<rparr>)) })"

definition ota_feedChunk :: "bytes \<Rightarrow> 'f dfu_sys \<Rightarrow> int \<times> 'f dfu_sys" where
  "ota_feedChunk data s =
     (if \<not> os_active (ota s) then (-1, s)
      else let (n, s1) = receiveChunk data s in
        (n, if 0 < n then s1\<lparr>ota := (ota s1)\<lparr>os_received := os_received (ota s1) + of_int n\<rparr>\<rparr> else s1))"

definition ota_completeUpdate :: "'f dfu_env \<Rightarrow> 'f dfu_sys \<Rightarrow> bool \<times> 'f dfu_sys" where
  "ota_completeUpdate env s =
     (if \<not> os_active (ota s) then (False, s)
      else let (ok, s1) = finalizeDfu env s in
        if \<not> ok then (False, (emit (Published OtaFailed 0 0) s1)\<lparr>ota := (ota s1)\<lparr>os_active := False\<rparr>\<rparr>)
        else (True, s1\<lparr>ota := (ota s1)\<lparr>os_active := False\<rparr>\<rparr>))"

definition ota_tick :: "'f dfu_sys \<Rightarrow> 'f dfu_sys" where
  "ota_tick s = (if \<not> os_active (ota s) then s else recovery_tick s)"

definition ota_rollback :: "'f dfu_env \<Rightarrow> 'f dfu_sys \<Rightarrow> bool \<times> 'f dfu_sys" where
  "ota_rollback env s =
     (let (ok, s1) = rollback (env_ota env) (s\<lparr>ota := (ota s)\<lparr>os_active := False\<rparr>\<rparr>);
          s2 = emit (Published OtaRollback 0 0) s1
      in (ok, if ok \<and> on_esp32 env then emit Restarted s2 else s2))"

definition ota_shutdown :: "'f dfu_sys \<Rightarrow> 'f dfu_sys" where
  "ota_shutdown s = recovery_abort (s\<lparr>ota := (ota s)\<lparr>os_active := False\<rparr>\<rparr>)"


section \<open>The firmware store under the manager\<close>

text \<open>
  The part of the state that the operations of the firmware store see. They commute with this
  projection, so what is proved about the store carries over to sessions in which the manager
  and the service change their own fields in between.
\<close>

definition core :: "('f, 'z) fw_sys_scheme \<Rightarrow> 'f fw_sys" where
  "core s = \<lparr>backend = backend s, regions = regions s, regionCount = regionCount s, device = device s, fw = fw s\<rparr>"

definition on_core :: "'a \<times> ('f, 'z) fw_sys_scheme \<Rightarrow> 'a \<times> 'f fw_sys" where
  "on_core r = (fst r, core (snd r))"

lemma core_simps [simp]:
  "backend (core s) = backend s" "device (core s) = device s" "fw (core s) = fw s"
  "(core s)\<lparr>device := d\<rparr> = core (s\<lparr>device := d\<rparr>)" "(core s)\<lparr>fw := f\<rparr> = core (s\<lparr>fw := f\<rparr>)"
  by (simp_all add: core_def)

lemma on_core_pair [simp]: "on_core (a, s) = (a, core s)"
  by (simp add: on_core_def)

lemma core_read [simp]: "storage_read off len (core s) = storage_read off len s"
  by (simp add: storage_read_def split: option.split)

lemma core_write: "storage_write off buf (core s) = on_core (storage_write off buf s)"
  by (auto simp: storage_write_def Let_def split: option.split prod.split)

lemma core_getHeader [simp]: "getHeader slot (core s) = getHeader slot s"
  by (simp add: getHeader_def)

lemma core_verify_loop [simp]: "verify_loop off rem crc (core s) = verify_loop off rem crc s"
proof (induction off rem crc s rule: verify_loop.induct)
  case (1 off rem crc s)
  then show ?case by (subst (1 2) verify_loop.simps) (auto simp: Let_def split: prod.split)
qed

lemma core_verify [simp]: "verify slot (core s) = verify slot s"
  by (simp add: verify_def)

lemma core_beginWrite: "beginWrite n v (core s) = on_core (beginWrite n v s)"
  by (simp add: beginWrite_def)

lemma core_writeChunk: "writeChunk data (core s) = on_core (writeChunk data s)"
  by (simp add: writeChunk_def core_write Let_def on_core_def split: prod.split)

lemma core_finalizeWrite: "finalizeWrite (core s) = on_core (finalizeWrite s)"
  by (simp add: finalizeWrite_def core_write Let_def on_core_def)

lemma core_activateSlot: "activateSlot env slot (core s) = on_core (activateSlot env slot s)"
  by (simp add: activateSlot_def core_write Let_def on_core_def split: prod.split)

lemma core_rollback: "rollback env (core s) = on_core (rollback env s)"
  by (simp add: rollback_def core_activateSlot Let_def)

text \<open>The bookkeeping of the manager does not touch the store.\<close>

lemma core_frame [simp]:
  "core (s\<lparr>dfu_state := x\<rparr>) = core s" "core (s\<lparr>dfu_channel := ch\<rparr>) = core s"
  "core (s\<lparr>dfu_received := n\<rparr>) = core s" "core (s\<lparr>dfu_total := n\<rparr>) = core s"
  "core (s\<lparr>dfu_callback := cb\<rparr>) = core s" "core (s\<lparr>transports := tr\<rparr>) = core s"
  "core (s\<lparr>ota := os\<rparr>) = core s" "core (s\<lparr>outputs := out\<rparr>) = core s"
  "core (s\<lparr>bootConfig := bc\<rparr>) = core s"
  by (simp_all add: core_def)

lemma core_emit [simp]: "core (emit out s) = core s"
  by (simp add: emit_def)

lemma core_notify [simp]: "core (notifyProgress s) = core s"
  by (simp add: notifyProgress_def ota_progress_def Let_def split: option.split progress_callback.split)

lemma core_setState [simp]: "core (setState st s) = core s"
  by (simp add: setState_def)

lemma core_save [simp]: "core (saveBootConfig c s) = core s"
  by (simp add: saveBootConfig_def Let_def core_def)

lemma core_requestOtaBoot [simp]: "core (requestOtaBoot slot s) = core s"
  by (simp add: requestOtaBoot_def)

lemma fw_frame [simp]:
  "fw (emit out s) = fw s" "fw (notifyProgress s) = fw s" "fw (setState st s) = fw s"
  by (metis core_simps(3) core_emit, metis core_simps(3) core_notify, metis core_simps(3) core_setState)

lemma fw_requestOtaBoot [simp]: "fw (requestOtaBoot slot s) = fw s"
  by (simp add: requestOtaBoot_def)

text \<open>Reporting progress does not change the state machine or the counters of the manager.\<close>

lemma emit_frame [simp]:
  "dfu_state (emit out s) = dfu_state s" "dfu_received (emit out s) = dfu_received s"
  "dfu_total (emit out s) = dfu_total s" "dfu_callback (emit out s) = dfu_callback s"
  "dfu_channel (emit out s) = dfu_channel s" "transports (emit out s) = transports s" "ota (emit out s) = ota s"
  "bootConfig (emit out s) = bootConfig s"
  by (simp_all add: emit_def)

lemma notify_frame [simp]:
  "dfu_state (notifyProgress s) = dfu_state s" "dfu_received (notifyProgress s) = dfu_received s"
  "dfu_total (notifyProgress s) = dfu_total s" "dfu_callback (notifyProgress s) = dfu_callback s"
  "dfu_channel (notifyProgress s) = dfu_channel s" "transports (notifyProgress s) = transports s"
  "os_active (ota (notifyProgress s)) = os_active (ota s)" "bootConfig (notifyProgress s) = bootConfig s"
  by (simp_all add: notifyProgress_def ota_progress_def Let_def split: option.split progress_callback.split)

lemma setState_frame [simp]:
  "dfu_state (setState st s) = st" "dfu_received (setState st s) = dfu_received s"
  "dfu_total (setState st s) = dfu_total s" "dfu_callback (setState st s) = dfu_callback s"
  "dfu_channel (setState st s) = dfu_channel s" "transports (setState st s) = transports s"
  "os_active (ota (setState st s)) = os_active (ota s)" "bootConfig (setState st s) = bootConfig s"
  by (simp_all add: setState_def)


text \<open>The operations of the store leave the fields of the manager alone.\<close>

definition same_manager :: "'f dfu_sys \<Rightarrow> 'f dfu_sys \<Rightarrow> bool" where
  "same_manager s s' \<longleftrightarrow> s' = s\<lparr>device := device s', fw := fw s'\<rparr>"

lemma same_managerD:
  assumes "same_manager s s'"
  shows "dfu_state s' = dfu_state s" and "dfu_received s' = dfu_received s" and "dfu_total s' = dfu_total s"
    and "dfu_callback s' = dfu_callback s" and "dfu_channel s' = dfu_channel s" and "transports s' = transports s"
    and "ota s' = ota s" and "bootConfig s' = bootConfig s" and "outputs s' = outputs s"
  by (subst assms [unfolded same_manager_def], simp)+

lemma same_manager_refl [simp]: "same_manager s s"
  by (simp add: same_manager_def)

lemma writeChunk_manager: "writeChunk data s = (n, s') \<Longrightarrow> same_manager s s'"
  by (auto simp: writeChunk_def storage_write_def same_manager_def Let_def split: if_splits option.splits prod.splits)

lemma finalizeWrite_manager: "finalizeWrite s = (ok, s') \<Longrightarrow> same_manager s s'"
  by (auto simp: finalizeWrite_def storage_write_def same_manager_def Let_def split: if_splits option.splits prod.splits)

lemma activateSlot_manager: "activateSlot env slot s = (ok, s') \<Longrightarrow> same_manager s s'"
  by (auto simp: activateSlot_def storage_write_def same_manager_def Let_def split: if_splits option.splits prod.splits)

lemma rollback_manager: "rollback env s = (ok, s') \<Longrightarrow> same_manager s s'"
  by (auto simp: rollback_def Let_def dest: activateSlot_manager split: if_splits)

lemmas manager_frames = writeChunk_manager finalizeWrite_manager activateSlot_manager rollback_manager


section \<open>A session\<close>

text \<open>What a client of the OTA service does with an image: it stops at the first error.\<close>

primrec feed_chunks :: "bytes list \<Rightarrow> 'f dfu_sys \<Rightarrow> bool \<times> 'f dfu_sys" where
  "feed_chunks [] s = (True, s)"
| "feed_chunks (c # cs) s =
     (case ota_feedChunk c s of (rc, s1) \<Rightarrow> if rc = int (length c) then feed_chunks cs s1 else (False, s1))"

lemma core_prefix:
  "on_core (f s) = (a, c) \<Longrightarrow> \<exists>s'. f s = (a, s') \<and> core s' = c"
  by (cases "f s") simp

lemma receiveChunk_core:
  assumes "dfu_state s = AwaitingImage \<or> dfu_state s = Receiving" and "c \<noteq> []"
    and "writeChunk c (core s) = (int (length c), k)"
  shows "\<exists>s'. receiveChunk c s = (int (length c), s') \<and> core s' = k \<and> dfu_state s' = Receiving \<and>
    os_active (ota s') = os_active (ota s) \<and> dfu_callback s' = dfu_callback s \<and>
    dfu_received s' = dfu_received s + of_nat (length c) \<and> dfu_total s' = dfu_total s"
proof -
  define s1 where "s1 = (if dfu_state s = AwaitingImage then setState Receiving s else s)"
  have s1: "core s1 = core s" "dfu_state s1 = Receiving" "os_active (ota s1) = os_active (ota s)"
    "dfu_callback s1 = dfu_callback s" "dfu_received s1 = dfu_received s" "dfu_total s1 = dfu_total s"
    using assms(1) by (auto simp: s1_def)
  obtain s2 where w: "writeChunk c s1 = (int (length c), s2)" and k: "core s2 = k"
    using core_prefix [of "writeChunk c" s1] assms(3) s1(1) by (metis core_writeChunk)
  have pos: "0 < int (length c)" using assms(2) by simp
  note f = same_managerD [OF writeChunk_manager [OF w]]
  show ?thesis
    using assms(1) w k pos s1 f
    by (simp add: receiveChunk_def Let_def s1_def [symmetric])
qed

lemma feed_chunks_core:
  assumes "dfu_state s = AwaitingImage \<or> dfu_state s = Receiving" and "os_active (ota s)"
    and "\<forall>c\<in>set cs. c \<noteq> []" and "write_chunks cs (core s) = (True, k)"
  shows "\<exists>s'. feed_chunks cs s = (True, s') \<and> core s' = k \<and> os_active (ota s')"
  using assms
proof (induction cs arbitrary: s)
  case (Cons c cs)
  from Cons.prems(4) obtain k1 where k1: "writeChunk c (core s) = (int (length c), k1)" "write_chunks cs k1 = (True, k)"
    by (auto split: prod.splits if_splits)
  obtain s1 where s1: "receiveChunk c s = (int (length c), s1)" "core s1 = k1" "dfu_state s1 = Receiving" "os_active (ota s1)"
    using receiveChunk_core [OF Cons.prems(1) _ k1(1)] Cons.prems(2,3) by auto
  define s2 where "s2 = snd (ota_feedChunk c s)"
  have feed: "ota_feedChunk c s = (int (length c), s2)"
    using Cons.prems(2) s1(1) by (simp add: s2_def ota_feedChunk_def Let_def)
  have s2: "core s2 = k1" "dfu_state s2 = Receiving" "os_active (ota s2)"
    using Cons.prems(2) s1 by (simp_all add: s2_def ota_feedChunk_def Let_def)
  then show ?case using Cons.IH [of s2] Cons.prems(3) k1(2) feed by simp
qed simp


text \<open>The end of a session: what \<open>completeUpdate\<close> makes of a store that finalizes and activates.\<close>

lemma completeUpdate_core:
  assumes "os_active (ota s)" and "finalizeWrite (core s) = (True, k)"
    and "activateSlot (env_ota env) (inactiveSlot (fw k)) k = (True, k')"
  shows "\<exists>s'. ota_completeUpdate env s = (True, s') \<and> core s' = k' \<and> dfu_state s' = Complete \<and>
    (\<exists>cfg. loadBootConfig s' = (True, cfg) \<and> bc_mode cfg = boot_mode_code OtaPending \<and>
       bc_otaSlot cfg = inactiveSlot (fw k))"
proof -
  let ?slot = "inactiveSlot (fw k)"
  define s0 where "s0 = setState Verifying s"
  obtain s1 where s1: "finalizeWrite s0 = (True, s1)" "core s1 = k"
    using core_prefix [of finalizeWrite s0] assms(2) by (metis core_finalizeWrite core_setState s0_def)
  define s2 where "s2 = setState Installing s1"
  have fwk: "fw s1 = fw k" "fw s2 = fw k" using s1(2) core_simps(3) by (metis, metis fw_frame(3) s2_def)
  obtain s3 where s3: "activateSlot (env_ota env) ?slot s2 = (True, s3)" "core s3 = k'"
    using core_prefix [of "activateSlot (env_ota env) ?slot" s2] assms(3) s1(2)
    by (metis core_activateSlot core_setState s2_def)
  define s4 where "s4 = emit (Published OtaComplete 0 0) (setState Complete s3)"
  define s5 where "s5 = requestOtaBoot ?slot s4"
  define s6 where "s6 = (if on_esp32 env then emit Restarted s5 else s5)"
  define s7 where "s7 = s6\<lparr>ota := (ota s6)\<lparr>os_active := False\<rparr>\<rparr>"
  have fin: "finalizeDfu env s = (True, s6)"
    using s1(1) s3(1) fwk
    by (simp add: finalizeDfu_def Let_def s0_def [symmetric] s2_def [symmetric])
      (simp add: s6_def s5_def s4_def)
  have run: "ota_completeUpdate env s = (True, s7)"
    using assms(1) fin by (simp add: ota_completeUpdate_def Let_def s7_def)
  have core: "core s7 = k'" using s3(2) by (simp add: s7_def s6_def s5_def s4_def)
  have st: "dfu_state s7 = Complete"
    by (simp add: s7_def s6_def s5_def s4_def requestOtaBoot_def saveBootConfig_def Let_def)
  have "loadBootConfig s7 = loadBootConfig s5" by (simp add: s7_def s6_def loadBootConfig_def)
  also have "\<dots> = (True, ((snd (loadBootConfig s4))\<lparr>bc_mode := boot_mode_code OtaPending, bc_otaSlot := ?slot\<rparr>)\<lparr>bc_crc32 := 0\<rparr>)"
    unfolding s5_def requestOtaBoot_def by (rule load_save) simp
  finally show ?thesis using run core st by (intro exI [of _ s7]) simp
qed

lemma listener_started:
  assumes "transports s = Some t"
  shows "\<exists>ok s'. startDfuListener env s = Some (ok, s') \<and> core s' = core s \<and> dfu_state s' = AwaitingImage"
proof (cases "dfu_channel s = ChNone")
  case False
  obtain ok t1 where "(case dfu_channel s of ChBle \<Rightarrow> ble_dfu_start t
      | ChWiFi \<Rightarrow> wifi_ota_start env t | _ \<Rightarrow> uart_dfu_start t) = (ok, t1)" by fastforce
  then show ?thesis using False assms by (simp add: startDfuListener_def Let_def)
qed (auto simp: startDfuListener_def Let_def)

lemma startUpdate_core:
  assumes "beginWrite imageSize version (core s) = (True, k)"
  shows "\<exists>s'. ota_startUpdate env transport imageSize version s = Some (True, s') \<and> core s' = k \<and>
    dfu_state s' = AwaitingImage \<and> os_active (ota s')"
proof -
  define ch where "ch = (if transport = ViaBle then ChBle else ChWiFi)"
  define s1 where "s1 = s\<lparr>ota := (ota s)\<lparr>os_transport := transport, os_total := imageSize, os_received := 0\<rparr>\<rparr>"
  define s2 where "s2 = (snd (recovery_init ch s1))\<lparr>dfu_callback := Some OtaServiceProgress\<rparr>"
  have "core s2 = core s" by (simp add: s2_def s1_def recovery_init_def)
  then obtain s3 where s3: "beginWrite imageSize version s2 = (True, s3)" "core s3 = k"
    using core_prefix [of "beginWrite imageSize version" s2] assms by (metis core_beginWrite)
  have s3_eq: "s3 = s2\<lparr>fw := fw s3\<rparr>" using s3(1) by (auto simp: beginWrite_def split: if_splits)
  have tr: "transports s3 = Some new_transports"
    by (subst s3_eq) (simp add: s2_def recovery_init_def)
  obtain ok s4 where s4: "startDfuListener env s3 = Some (ok, s4)" and c4: "core s4 = k" "dfu_state s4 = AwaitingImage"
    using listener_started [OF tr(1)] s3(2) by blast
  show ?thesis
    using s3(1) s4 c4
    by (simp add: ota_startUpdate_def Let_def s1_def [symmetric] ch_def [symmetric] s2_def [symmetric])
qed


text \<open>The whole session, from start to installation.\<close>

lemma ota_session:
  assumes "flash_device b rd wr er cells cap sector" and "backend s = b" and "sector dvd 4096"
    and "base = unat (slotOffset (fw s) ! unat (inactiveSlot (fw s)))" and "sector dvd base"
    and "sector dvd unat (slotSize (fw s))" and "4096 \<le> unat (slotSize (fw s))"
    and "base + unat (slotSize (fw s)) \<le> cap"
    and "\<forall>c\<in>set cs. c \<noteq> []" and "\<forall>c\<in>set (butlast cs). sector dvd length c"
    and "length (concat cs) = unat imageSize" and "unat imageSize \<le> unat (slotSize (fw s)) - 4096"
    and "env_ota env = host_ota"
  shows "\<exists>s1 s2 s3. ota_startUpdate env transport imageSize version s = Some (True, s1) \<and>
    feed_chunks cs s1 = (True, s2) \<and> ota_completeUpdate env s2 = (True, s3) \<and>
    activeSlot (fw s3) = inactiveSlot (fw s) \<and> verify (inactiveSlot (fw s)) s3 \<and>
    mem_get (cells (device s3)) (base + 4096) (unat imageSize) = concat cs \<and>
    (\<forall>x. x < base \<or> base + unat (slotSize (fw s)) \<le> x \<longrightarrow> cells (device s3) x = cells (device s) x) \<and>
    dfu_state s3 = Complete \<and>
    (\<exists>cfg. loadBootConfig s3 = (True, cfg) \<and> bc_mode cfg = boot_mode_code OtaPending \<and>
       bc_otaSlot cfg = inactiveSlot (fw s))"
proof -
  let ?new = "inactiveSlot (fw s)"
  have core: "backend (core s) = b" "fw (core s) = fw s" "device (core s) = device s"
    using assms(2) by simp_all
  obtain k1 k2 k3 k4 where k: "beginWrite imageSize version (core s) = (True, k1)" "write_chunks cs k1 = (True, k2)"
      "finalizeWrite k2 = (True, k3)" "inactiveSlot (fw k3) = ?new" "activateSlot host_ota (inactiveSlot (fw k3)) k3 = (True, k4)"
    and k4: "activeSlot (fw k4) = ?new" "verify ?new k4" "mem_get (cells (device k4)) (base + 4096) (unat imageSize) = concat cs"
      "\<forall>x. x < base \<or> base + unat (slotSize (fw s)) \<le> x \<longrightarrow> cells (device k4) x = cells (device s) x"
    using flash_device.session_then_activate [OF assms(1) core(1) assms(3), of base cs imageSize version] assms(4-12)
    unfolding core by blast
  obtain s1 where s1: "ota_startUpdate env transport imageSize version s = Some (True, s1)" "core s1 = k1"
      "dfu_state s1 = AwaitingImage" "os_active (ota s1)"
    using startUpdate_core [OF k(1)] by blast
  obtain s2 where s2: "feed_chunks cs s1 = (True, s2)" "core s2 = k2" "os_active (ota s2)"
    using feed_chunks_core [of s1 cs k2] s1 assms(9) k(2) by auto
  obtain s3 where s3: "ota_completeUpdate env s2 = (True, s3)" "core s3 = k4" "dfu_state s3 = Complete"
      "\<exists>cfg. loadBootConfig s3 = (True, cfg) \<and> bc_mode cfg = boot_mode_code OtaPending \<and> bc_otaSlot cfg = ?new"
    using completeUpdate_core [OF s2(3), of k3 env k4] k(3-5) s2(2) assms(13) by auto
  have "verify ?new s3" using core_verify [of ?new s3] s3(2) k4(2) by simp
  moreover have "device s3 = device k4" "fw s3 = fw k4" using s3(2) core_simps by metis+
  ultimately show ?thesis using s1(1) s2(1) s3(1,3,4) k4 by auto
qed


section \<open>Properties\<close>

text \<open>
  C2: Over the air from beginning to end: on a working flash device with sector-aligned slots, an
  image that fits, fed to the OTA service in chunks all of which but the last are whole sectors,
  is accepted by \<open>startUpdate\<close>, every \<open>feedChunk\<close> and \<open>completeUpdate\<close>. Afterwards the other slot
  is the active one, it verifies and holds exactly the image, no byte outside it has changed, the
  manager is in state Complete and the boot configuration is valid and asks for that slot.
\<close>
theorem ota_update_installs:
  assumes "flash_device b rd wr er cells cap sector" and "backend s = b" and "sector dvd 4096"
    and "base = unat (slotOffset (fw s) ! unat (inactiveSlot (fw s)))" and "sector dvd base"
    and "sector dvd unat (slotSize (fw s))" and "4096 \<le> unat (slotSize (fw s))"
    and "base + unat (slotSize (fw s)) \<le> cap"
    and "\<forall>c\<in>set cs. c \<noteq> []" and "\<forall>c\<in>set (butlast cs). sector dvd length c"
    and "length (concat cs) = unat imageSize" and "unat imageSize \<le> unat (slotSize (fw s)) - 4096"
    and "env_ota env = host_ota"
  shows "\<exists>s1 s2 s3. ota_startUpdate env transport imageSize version s = Some (True, s1) \<and>
    feed_chunks cs s1 = (True, s2) \<and> ota_completeUpdate env s2 = (True, s3) \<and>
    activeSlot (fw s3) = inactiveSlot (fw s) \<and> verify (inactiveSlot (fw s)) s3 \<and>
    mem_get (cells (device s3)) (base + 4096) (unat imageSize) = concat cs \<and>
    (\<forall>x. x < base \<or> base + unat (slotSize (fw s)) \<le> x \<longrightarrow> cells (device s3) x = cells (device s) x) \<and>
    dfu_state s3 = Complete \<and>
    (\<exists>cfg. loadBootConfig s3 = (True, cfg) \<and> bc_mode cfg = boot_mode_code OtaPending \<and>
       bc_otaSlot cfg = inactiveSlot (fw s))"
  by (rule ota_session [OF assms])


text \<open>The store of the update examples behind the manager.\<close>

definition demo_dfu :: "memory dfu_sys" where
  "demo_dfu = \<lparr>backend = mem_backend 65536 4096, regions = replicate kMaxRegions new_region, regionCount = 0,
     device = (\<lambda>_. 0xFF), fw = fw demo_fw, bootConfig = default_config, dfu_state = Idle, dfu_channel = ChNone,
     dfu_received = 0, dfu_total = 0, dfu_callback = None, transports = None,
     ota = \<lparr>os_active = False, os_transport = ViaWiFi, os_callback = False, os_received = 0, os_total = 0\<rparr>,
     outputs = []\<rparr>"

definition demo_env :: "memory dfu_env" where
  "demo_env = \<lparr>env_ota = host_ota, httpd_start_ok = True, on_esp32 = False\<rparr>"

lemma demo_dfu_simps [simp]:
  "backend demo_dfu = mem_backend 65536 4096" "device demo_dfu = (\<lambda>_. 0xFF)" "fw demo_dfu = fw demo_fw"
  "dfu_received demo_dfu = 0" "dfu_total demo_dfu = 0" "core demo_dfu = demo_fw"
  by (simp_all add: demo_dfu_def core_def demo_fw_def)

theorem ota_update_installs_witness:
  "\<exists>s1 s2 s3. ota_startUpdate demo_env ViaWiFi 4100 7 demo_dfu = Some (True, s1) \<and>
     feed_chunks [replicate 4096 1, [1, 2, 3, 4]] s1 = (True, s2) \<and> ota_completeUpdate demo_env s2 = (True, s3) \<and>
     activeSlot (fw s3) = 1 \<and> verify 1 s3 \<and> dfu_state s3 = Complete"
  using ota_update_installs [OF testflash.flash_device_axioms, of demo_dfu "0x8000"
      "[replicate 4096 1, [1, 2, 3, 4]]" 4100 demo_env ViaWiFi 7]
  by (fastforce simp: demo_env_def)

lemma notify_ota:
  "dfu_callback s = Some OtaServiceProgress \<Longrightarrow>
   ota (notifyProgress s) = (ota s)\<lparr>os_received := dfu_received s, os_total := dfu_total s\<rparr>"
  by (simp add: notifyProgress_def ota_progress_def Let_def)

lemma listener_ota:
  assumes "startDfuListener env s = Some (ok, s')" and "dfu_callback s = Some OtaServiceProgress"
  shows "ota s' = (ota s)\<lparr>os_received := dfu_received s, os_total := dfu_total s\<rparr> \<and>
    dfu_received s' = dfu_received s \<and> dfu_total s' = dfu_total s \<and> dfu_callback s' = dfu_callback s"
proof -
  have "\<exists>t. s' = (setState AwaitingImage s)\<lparr>transports := t\<rparr>"
    using assms(1)
    by (auto simp: startDfuListener_def Let_def split: if_splits option.splits prod.splits bind_splits)
      (metis dfu_sys.surjective dfu_sys.update_convs(6))
  then show ?thesis using assms(2) notify_ota [of "s\<lparr>dfu_state := AwaitingImage\<rparr>"] by (auto simp: setState_def)
qed

text \<open>
  The progress the OTA service keeps is wrong from the start. The manager never learns the
  image size, so its first notification replaces the total size of the service by 0; and a chunk
  is counted twice, once by the notification and once by \<open>feedChunk\<close> itself.
\<close>
theorem ota_progress_miscounts:
  assumes "ota_startUpdate env transport imageSize version s = Some (True, s1)" and "dfu_total s = 0"
    and "ota_feedChunk data s1 = (n, s2)" and "0 < n"
  shows "os_total (ota s1) = 0 \<and> dfu_received s2 = dfu_received s + of_int n \<and>
    os_received (ota s2) = dfu_received s2 + of_int n"
proof -
  have a: "os_total (ota s1) = 0 \<and> dfu_total s1 = 0 \<and> dfu_received s1 = dfu_received s \<and>
      dfu_callback s1 = Some OtaServiceProgress \<and> os_active (ota s1)"
  proof -
    define s0 where "s0 = (snd (recovery_init (if transport = ViaBle then ChBle else ChWiFi)
      (s\<lparr>ota := (ota s)\<lparr>os_transport := transport, os_total := imageSize, os_received := 0\<rparr>\<rparr>)))
      \<lparr>dfu_callback := Some OtaServiceProgress\<rparr>"
    obtain ok ok' s2 s3 where b: "beginWrite imageSize version s0 = (ok, s2)"
      and l: "startDfuListener env s2 = Some (ok', s3)"
      and s1: "s1 = emit (Published OtaStart imageSize (if transport = ViaBle then 1 else 0)) (s3\<lparr>ota := (ota s3)\<lparr>os_active := True\<rparr>\<rparr>)"
      using assms(1) unfolding ota_startUpdate_def Let_def s0_def [symmetric]
      by (auto split: prod.splits if_splits bind_splits)
    have e: "s2 = s0\<lparr>fw := fw s2\<rparr>" using b by (auto simp: beginWrite_def split: if_splits)
    have s2: "dfu_callback s2 = Some OtaServiceProgress" "dfu_total s2 = dfu_total s" "dfu_received s2 = dfu_received s"
      by (subst e, simp add: s0_def recovery_init_def)+
    show ?thesis using listener_ota [OF l s2(1)] s2 assms(2) by (simp add: s1)
  qed
  obtain s3 where r: "receiveChunk data s1 = (n, s3)"
    and s2: "s2 = s3\<lparr>ota := (ota s3)\<lparr>os_received := os_received (ota s3) + of_int n\<rparr>\<rparr>"
    using assms(3,4) a by (auto simp: ota_feedChunk_def Let_def split: prod.splits)
  have "dfu_received s3 = dfu_received s1 + of_int n \<and> os_received (ota s3) = dfu_received s3"
  proof -
    have run: "dfu_state s1 = AwaitingImage \<or> dfu_state s1 = Receiving"
      using r assms(4) by (auto simp: receiveChunk_def split: if_splits)
    define s4 where "s4 = (if dfu_state s1 = AwaitingImage then setState Receiving s1 else s1)"
    have s4: "dfu_received s4 = dfu_received s1" "dfu_callback s4 = Some OtaServiceProgress"
      using a by (simp_all add: s4_def)
    obtain s5 where w: "writeChunk data s4 = (n, s5)"
      using r run assms(4) unfolding receiveChunk_def Let_def s4_def [symmetric] by (auto split: prod.splits if_splits)
    note f = same_managerD [OF writeChunk_manager [OF w]]
    have "s3 = notifyProgress (emit (Published OtaProgress (dfu_received s5 + of_int n) (dfu_total s5))
        (s5\<lparr>dfu_received := dfu_received s5 + of_int n\<rparr>))"
      using r run w assms(4) unfolding receiveChunk_def Let_def s4_def [symmetric] by auto
    then show ?thesis using f s4 by (simp add: notify_ota)
  qed
  then show ?thesis using a s2 by simp
qed


theorem ota_progress_miscounts_witness:
  "\<exists>s1 s2. ota_startUpdate demo_env ViaWiFi 4 7 demo_dfu = Some (True, s1) \<and> ota_feedChunk [1, 2, 3, 4] s1 = (4, s2) \<and>
     os_total (ota s1) = 0 \<and> dfu_received s2 = 4 \<and> os_received (ota s2) = 8"
proof -
  let ?k = "snd (beginWrite 4 7 demo_fw)"
  have b: "beginWrite 4 7 demo_fw = (True, ?k)" by (simp add: beginWrite_def kHeaderReserved_def)
  obtain s1 where s1: "ota_startUpdate demo_env ViaWiFi 4 7 demo_dfu = Some (True, s1)" "core s1 = ?k"
    "dfu_state s1 = AwaitingImage" "os_active (ota s1)"
    using startUpdate_core [of 4 7 demo_dfu ?k demo_env ViaWiFi] b by auto
  have k: "backend ?k = mem_backend 65536 4096" "writing (fw ?k)" "write_addr ?k = 0x9000"
    by (simp_all add: beginWrite_def write_addr_def kHeaderReserved_def)
  obtain k2 where "writeChunk [1, 2, 3, 4] ?k = (4, k2)"
    using testflash.writeChunk_ok [OF k(1,2), of "[1, 2, 3, 4]"] k(3) by auto
  then obtain s2 where "receiveChunk [1, 2, 3, 4] s1 = (4, s2)"
    using receiveChunk_core [of s1 "[1, 2, 3, 4]" k2] s1(2,3) by auto
  then have f: "\<exists>s3. ota_feedChunk [1, 2, 3, 4] s1 = (4, s3)" using s1(4) by (simp add: ota_feedChunk_def)
  then show ?thesis using ota_progress_miscounts [OF s1(1)] s1(1) by fastforce
qed


section \<open>The recovery application\<close>

text \<open>What can happen to the manager when only its own operations are used.\<close>

inductive dfu_step :: "'f dfu_env \<Rightarrow> 'f dfu_sys \<Rightarrow> 'f dfu_sys \<Rightarrow> bool" for env where
  step_init: "dfu_step env s (snd (recovery_init channel s))"
| step_onProgress: "dfu_step env s (s\<lparr>dfu_callback := Some ClientProgress\<rparr>)"
| step_start: "startDfuListener env s = Some (ok, s') \<Longrightarrow> dfu_step env s s'"
| step_chunk: "dfu_step env s (snd (receiveChunk data s))"
| step_finalize: "dfu_step env s (snd (finalizeDfu env s))"
| step_rollback: "dfu_step env s (snd (recovery_rollback env s))"
| step_abort: "dfu_step env s (recovery_abort s)"
| step_tick: "dfu_step env s (recovery_tick s)"

inductive dfu_reach :: "'f dfu_env \<Rightarrow> 'f dfu_sys \<Rightarrow> 'f dfu_sys \<Rightarrow> bool" for env s where
  reach_start: "dfu_reach env s s"
| reach_step: "dfu_reach env s s1 \<Longrightarrow> dfu_step env s1 s2 \<Longrightarrow> dfu_reach env s s2"

inductive_cases dfu_stepE: "dfu_step env s s'"

lemma writing_activate: "writing (fw (snd (activateSlot env slot s))) = writing (fw s)"
  by (auto simp: activateSlot_def storage_write_def Let_def split: option.splits prod.splits)

lemma writing_rollback: "writing (fw (snd (rollback env s))) = writing (fw s)"
  by (simp add: rollback_def Let_def writing_activate)

lemma chunk_refused: "\<not> writing (fw s) \<Longrightarrow> fst (receiveChunk data s) = -1 \<and> core (snd (receiveChunk data s)) = core s"
  by (simp add: receiveChunk_def writeChunk_def Let_def)

lemma finalize_refused:
  "\<not> writing (fw s) \<Longrightarrow> fst (finalizeDfu env s) = False \<and> core (snd (finalizeDfu env s)) = core s \<and>
     dfu_state (snd (finalizeDfu env s)) = Failed"
  by (simp add: finalizeDfu_def finalizeWrite_def Let_def)

lemma fw_of_core: "core s = core s' \<Longrightarrow> fw s = fw s'"
  by (metis core_simps(3))

lemma step_not_writing:
  assumes "dfu_step env s s'" and "\<not> writing (fw s)"
  shows "\<not> writing (fw s')"
  using assms
proof (cases rule: dfu_step.cases)
  case (step_start ok)
  then have "core s' = core s" by (auto simp: startDfuListener_def Let_def split: if_splits option.splits prod.splits bind_splits)
  then show ?thesis using assms(2) fw_of_core by metis
next
  case (step_chunk data)
  then show ?thesis using assms(2) chunk_refused fw_of_core by metis
next
  case step_finalize
  then show ?thesis using assms(2) finalize_refused fw_of_core by metis
next
  case step_rollback
  then show ?thesis using assms(2) writing_rollback [of "env_ota env" "setState RollingBack s"]
    by (auto simp: recovery_rollback_def Let_def split: prod.splits)
qed (auto simp: recovery_init_def recovery_abort_def recovery_tick_def Let_def)

text \<open>
  C36: The recovery manager on its own installs nothing: nobody but the OTA service calls
  \<open>beginWrite\<close>, so in every state that its operations reach from one where no image is being
  written, \<open>receiveChunk\<close> refuses the data with -1 without touching the flash, and \<open>finalizeDfu\<close>
  returns false and ends in Failed.
\<close>
theorem recovery_alone_installs_nothing:
  assumes "dfu_reach env s s'" and "\<not> writing (fw s)"
  shows "fst (receiveChunk data s') = -1 \<and> device (snd (receiveChunk data s')) = device s' \<and>
    fst (finalizeDfu env s') = False \<and> device (snd (finalizeDfu env s')) = device s' \<and>
    dfu_state (snd (finalizeDfu env s')) = Failed"
proof -
  have "\<not> writing (fw s')" using assms by (induction rule: dfu_reach.induct) (auto dest: step_not_writing)
  then show ?thesis using chunk_refused [of s' data] finalize_refused [of s' env] by (metis core_simps(2))
qed

theorem recovery_alone_installs_nothing_witness:
  "fst (receiveChunk [1, 2, 3] (recovery_abort demo_dfu)) = -1"
  using recovery_alone_installs_nothing [OF reach_step [OF reach_start step_abort], of demo_dfu] by simp

text \<open>
  The main loop of the recovery application never ends on its own: after \<open>startDfuListener\<close> the
  state is AwaitingImage, \<open>tick\<close> never changes it, and no transport hands data to the manager.
\<close>
theorem recovery_run_never_returns: "recovery_run env s = None"
proof -
  have tick: "dfu_state (recovery_tick s) = dfu_state s" for s :: "'a dfu_sys" by (simp add: recovery_tick_def)
  have start: "dfu_state s1 = AwaitingImage" if "startDfuListener env s = Some (ok, s1)" for ok s1
    using that by (auto simp: startDfuListener_def Let_def split: if_splits option.splits prod.splits bind_splits)
  have never: "recovery_loop s1 = Some s2 \<Longrightarrow> dfu_state s1 = AwaitingImage \<Longrightarrow> False" for s1 s2 :: "'a dfu_sys"
  proof (induction rule: recovery_loop.raw_induct [rotated, consumes 1])
    case (1 loop s1 s2)
    from 1(2,3) have "loop (recovery_tick s1) = Some s2" by simp
    then show ?case using 1(1,3) tick by metis
  qed
  show ?thesis
  proof (rule ccontr)
    assume "recovery_run env s \<noteq> None"
    then obtain ok s1 s2 where "startDfuListener env s = Some (ok, s1)" "recovery_loop s1 = Some s2"
      by (auto simp: recovery_run_def split: bind_splits)
    then show False using start never by blast
  qed
qed

end
