(* ===== verification/Kernel.thy ===== *)
theory Kernel
  imports Scheduler Nvs
begin

text \<open>
  The kernel: \<open>kernel/include/takt/kernel.hpp\<close>, \<open>kernel/src/kernel.cpp\<close>, its small variant
  \<open>lite/kernel_lite.cpp\<close>, the stack and heap checks of \<open>kernel/src/diagnostics.cpp\<close>, and the C
  interface \<open>sdk/src/takt_sdk.cpp\<close>. It is the host build, whose store of keys is in memory; the
  values the vendor SDK reports (time, heap, cause of reset) are the record \<open>kernel_env\<close>.
\<close>


section \<open>State\<close>

record heap_info =
  hi_totalFree :: nat
  hi_minFreeEver :: nat
  hi_largestBlock :: nat
  hi_allocated :: nat

record stack_entry =
  st_name :: "string option"
  st_top :: "ptr option"
  st_size :: nat

record diagnostics =
  stacks :: "stack_entry list"
  stackCount :: nat

record kernel_stats =
  ks_scheduler :: scheduler_stats
  ks_heapFree :: nat
  ks_heapMinFree :: nat
  ks_largestBlock :: nat
  ks_uptimeMs :: u32
  ks_resetReason :: u32

text \<open>
  \<open>sdk_adapter\<close> and \<open>sdk_ctx\<close> are the function-local static variables of the C interface: the
  descriptor, and the callback with its argument, that the first call copied.
\<close>

record kernel_sys = sched_sys +
  k_nvs :: nvs_host
  k_running :: bool
  k_shutdown :: bool
  k_bootTimeMs :: u32
  k_diag :: diagnostics
  sdk_adapter :: "ptr option"
  sdk_ctx :: "(ptr option \<times> ptr option) option"

record 'w kernel_env =
  ke_env :: "'w env"
  ke_nowMs :: "'w \<Rightarrow> u32"
  ke_heap :: "'w \<Rightarrow> heap_info"
  ke_resetReason :: u32
  ke_ram :: "'w \<Rightarrow> ptr \<Rightarrow> u32"

definition kMaxStacks :: nat where
  "kMaxStacks = 16"

definition STACK_CANARY :: u32 where
  "STACK_CANARY = 0xDEADBEEF"

definition new_diagnostics :: diagnostics where
  "new_diagnostics = \<lparr>stacks = replicate kMaxStacks \<lparr>st_name = None, st_top = None, st_size = 0\<rparr>, stackCount = 0\<rparr>"

definition host_heap :: heap_info where
  "host_heap = \<lparr>hi_totalFree = 256 * 1024, hi_minFreeEver = 200 * 1024, hi_largestBlock = 128 * 1024,
     hi_allocated = 56 * 1024\<rparr>"


section \<open>Diagnostics\<close>

definition registerStack :: "string option \<Rightarrow> ptr option \<Rightarrow> nat \<Rightarrow> diagnostics \<Rightarrow> diagnostics" where
  "registerStack name stackTop sz d =
     (if kMaxStacks \<le> stackCount d then d
      else d\<lparr>stacks := (stacks d)[stackCount d := \<lparr>st_name = name, st_top = stackTop, st_size = sz\<rparr>],
             stackCount := stackCount d + 1\<rparr>)"

definition checkStacks :: "(ptr \<Rightarrow> u32) \<Rightarrow> diagnostics \<Rightarrow> bool" where
  "checkStacks ram d = fold (\<lambda>i ok. case st_top (stacks d ! i) of None \<Rightarrow> ok
       | Some t \<Rightarrow> if ram t \<noteq> STACK_CANARY then False else ok) [0..<stackCount d] True"


section \<open>The life of the kernel\<close>

definition kernel_publish :: "'z kernel_sys_scheme kernel_env \<Rightarrow> event_name \<Rightarrow> 'z kernel_sys_scheme \<Rightarrow> 'z kernel_sys_scheme" where
  "kernel_publish ke e w = publish (e_handlers (ke_env ke)) (event_code e) 0 0 w"

definition kernel_boot :: "'z kernel_sys_scheme kernel_env \<Rightarrow> 'z kernel_sys_scheme \<Rightarrow> bool \<times> 'z kernel_sys_scheme" where
  "kernel_boot ke w =
     (let w1 = w\<lparr>k_bootTimeMs := ke_nowMs ke w\<rparr>;
          (ok, n) = nvs_init (str ''takt'') (k_nvs w1);
          w2 = w1\<lparr>k_nvs := if ok then snd (nvs_backup n) else n\<rparr>;
          w3 = kernel_publish ke SystemBoot w2;
          (ready, w4) = initAll (ke_env ke) w3 in
      if \<not> ready then (False, w4)
      else (True, (kernel_publish ke SystemReady w4)\<lparr>k_running := True\<rparr>))"

definition kernel_run :: "'z kernel_sys_scheme kernel_env \<Rightarrow> 'z kernel_sys_scheme \<Rightarrow> 'z kernel_sys_scheme option" where
  "kernel_run ke w = (if \<not> k_running w then Some w else run_scheduler (ke_env ke) w)"

definition requestShutdown :: "'z kernel_sys_scheme kernel_env \<Rightarrow> 'z kernel_sys_scheme \<Rightarrow> 'z kernel_sys_scheme" where
  "requestShutdown ke w =
     (let w1 = kernel_publish ke SystemShutdown (w\<lparr>k_shutdown := True\<rparr>);
          w2 = w1\<lparr>k_nvs := snd (nvs_backup (k_nvs w1))\<rparr>
      in (shutdownAll (ke_env ke) w2)\<lparr>k_running := False\<rparr>)"

definition updateMemoryStats :: "heap_info \<Rightarrow> kernel_stats \<Rightarrow> kernel_stats" where
  "updateMemoryStats h st = st\<lparr>ks_heapFree := hi_totalFree h, ks_heapMinFree := hi_minFreeEver h,
     ks_largestBlock := hi_largestBlock h\<rparr>"

definition detectStackOverflow :: "'z kernel_sys_scheme kernel_env \<Rightarrow> 'z kernel_sys_scheme \<Rightarrow> 'z kernel_sys_scheme" where
  "detectStackOverflow ke w =
     (if \<not> checkStacks (ke_ram ke w) (k_diag w) then kernel_publish ke StackOverflow w else w)"

definition collectStats :: "'z kernel_sys_scheme kernel_env \<Rightarrow> 'z kernel_sys_scheme \<Rightarrow> kernel_stats" where
  "collectStats ke w = (updateMemoryStats (ke_heap ke w)
     \<lparr>ks_scheduler = sched_stats (sched w), ks_heapFree = 0, ks_heapMinFree = 0, ks_largestBlock = 0,
      ks_uptimeMs = 0, ks_resetReason = 0\<rparr>)
     \<lparr>ks_uptimeMs := ke_nowMs ke w - k_bootTimeMs w, ks_resetReason := ke_resetReason ke\<rparr>"


section \<open>The small kernel\<close>

definition lite_boot :: "'z kernel_sys_scheme kernel_env \<Rightarrow> 'z kernel_sys_scheme \<Rightarrow> bool \<times> 'z kernel_sys_scheme" where
  "lite_boot ke w =
     (let (ready, w1) = initAll (ke_env ke) w in
      if \<not> ready then (False, w1) else (True, w1\<lparr>k_running := True\<rparr>))"

definition lite_run :: "'z kernel_sys_scheme kernel_env \<Rightarrow> 'z kernel_sys_scheme \<Rightarrow> 'z kernel_sys_scheme option" where
  "lite_run ke w = run_scheduler (ke_env ke) w"

definition lite_requestShutdown :: "'z kernel_sys_scheme kernel_env \<Rightarrow> 'z kernel_sys_scheme \<Rightarrow> 'z kernel_sys_scheme" where
  "lite_requestShutdown ke w = (shutdownAll (ke_env ke) w)\<lparr>k_running := False\<rparr>"

definition lite_collectStats :: "'z kernel_sys_scheme \<Rightarrow> kernel_stats" where
  "lite_collectStats w = \<lparr>ks_scheduler = sched_stats (sched w), ks_heapFree = 0, ks_heapMinFree = 0,
     ks_largestBlock = 0, ks_uptimeMs = 0, ks_resetReason = 0\<rparr>"



section \<open>The C interface\<close>

record 'w takt_module =
  tm_type :: int
  tm_init :: "('w \<Rightarrow> bool \<times> 'w) option"
  tm_tick :: "('w \<Rightarrow> 'w) option"
  tm_shutdown :: "('w \<Rightarrow> 'w) option"
  tm_has_work :: "('w \<Rightarrow> bool) option"
  tm_budget_us :: u32

text \<open>Where the linker put the static adapter, the static context and the bridge function.\<close>

record sdk_addresses =
  sa_adapter :: ptr
  sa_ctx :: ptr
  sa_bridge :: ptr

definition sdk_type :: "int \<Rightarrow> module_type" where
  "sdk_type t = (if t = 1 then Dynamic else if t = 2 then Background else Static)"

text \<open>
  The module that the scheduler sees behind the adapter: it reads the descriptor that the
  static variable holds. \<open>desc d\<close> is the descriptor that was copied from address \<open>d\<close>.
\<close>

definition sdk_desc :: "(ptr \<Rightarrow> 'z kernel_sys_scheme takt_module) \<Rightarrow> 'z kernel_sys_scheme \<Rightarrow> 'z kernel_sys_scheme takt_module option" where
  "sdk_desc desc w = map_option desc (sdk_adapter w)"

definition sdk_imodule :: "(ptr \<Rightarrow> 'z kernel_sys_scheme takt_module) \<Rightarrow> 'z kernel_sys_scheme imodule" where
  "sdk_imodule desc = \<lparr>
     m_init = (\<lambda>w. case sdk_desc desc w of None \<Rightarrow> (True, w)
        | Some m \<Rightarrow> (case tm_init m of None \<Rightarrow> (True, w) | Some f \<Rightarrow> f w)),
     m_tick = (\<lambda>w. case sdk_desc desc w of None \<Rightarrow> w
        | Some m \<Rightarrow> (case tm_tick m of None \<Rightarrow> w | Some f \<Rightarrow> f w)),
     m_shutdown = (\<lambda>w. case sdk_desc desc w of None \<Rightarrow> w
        | Some m \<Rightarrow> (case tm_shutdown m of None \<Rightarrow> w | Some f \<Rightarrow> f w)),
     m_type = (\<lambda>w. case sdk_desc desc w of None \<Rightarrow> Static | Some m \<Rightarrow> sdk_type (tm_type m)),
     m_budgetUs = (\<lambda>w. case sdk_desc desc w of None \<Rightarrow> 0 | Some m \<Rightarrow> tm_budget_us m),
     m_hasWork = (\<lambda>w. case sdk_desc desc w of None \<Rightarrow> True
        | Some m \<Rightarrow> (case tm_has_work m of None \<Rightarrow> True | Some f \<Rightarrow> f w))\<rparr>"

definition takt_register_module :: "sdk_addresses \<Rightarrow> ptr option \<Rightarrow> 'z kernel_sys_scheme \<Rightarrow> int \<times> 'z kernel_sys_scheme" where
  "takt_register_module a m w =
     (case m of None \<Rightarrow> (-1, w)
      | Some d \<Rightarrow>
          let w1 = (if sdk_adapter w = None then w\<lparr>sdk_adapter := Some d\<rparr> else w);
              (mid, s) = registerModule (Some (sa_adapter a)) (sched w1)
          in (uint mid, w1\<lparr>sched := s\<rparr>))"

definition sdkEventBridge ::
  "(ptr \<Rightarrow> u32 \<Rightarrow> u32 \<Rightarrow> u32 \<Rightarrow> ptr option \<Rightarrow> 'z kernel_sys_scheme \<Rightarrow> 'z kernel_sys_scheme) \<Rightarrow>
   event_data \<Rightarrow> ptr option \<Rightarrow> 'z kernel_sys_scheme \<Rightarrow> 'z kernel_sys_scheme" where
  "sdkEventBridge call d user w =
     (case user of None \<Rightarrow> w
      | Some _ \<Rightarrow> (case sdk_ctx w of
          Some (Some cb, usr) \<Rightarrow> call cb (ev_id d) (param1 d) (param2 d) usr w
        | _ \<Rightarrow> w))"

definition takt_subscribe ::
  "sdk_addresses \<Rightarrow> u32 \<Rightarrow> ptr option \<Rightarrow> ptr option \<Rightarrow> 'z kernel_sys_scheme \<Rightarrow> int \<times> 'z kernel_sys_scheme" where
  "takt_subscribe a event cb user w =
     (let w1 = (if sdk_ctx w = None then w\<lparr>sdk_ctx := Some (cb, user)\<rparr> else w);
          (h, b) = subscribe event (Some (sa_bridge a)) (Some (sa_ctx a)) (bus w1)
      in (h, w1\<lparr>bus := b\<rparr>))"

definition takt_publish ::
  "'z kernel_sys_scheme kernel_env \<Rightarrow> u32 \<Rightarrow> u32 \<Rightarrow> u32 \<Rightarrow> 'z kernel_sys_scheme \<Rightarrow> 'z kernel_sys_scheme" where
  "takt_publish ke event p1 p2 w = publish (e_handlers (ke_env ke)) event p1 p2 w"

definition takt_nvs_set_u32 :: "cstring \<Rightarrow> u32 \<Rightarrow> 'z kernel_sys_scheme \<Rightarrow> bool \<times> 'z kernel_sys_scheme" where
  "takt_nvs_set_u32 key v w = (let (ok, n) = setU32 key v 1 (k_nvs w) in (ok, w\<lparr>k_nvs := n\<rparr>))"

definition takt_nvs_get_u32 :: "cstring \<Rightarrow> u32 option \<Rightarrow> 'z kernel_sys_scheme \<Rightarrow> bool \<times> u32 option" where
  "takt_nvs_get_u32 key target w =
     (case target of None \<Rightarrow> (False, None)
      | Some v \<Rightarrow> (let (ok, v') = getU32 key v (k_nvs w) in (ok, Some v')))"


section \<open>Shutting down\<close>

definition shut :: "module_entry \<Rightarrow> module_entry" where
  "shut e = (if me_active e then set_state Shutdown e else e)"

lemma shut_simps [simp]:
  "me_module (shut e) = me_module e" "me_active (shut e) = me_active e"
  "ms_tickCount (me_stats (shut e)) = ms_tickCount (me_stats e)"
  by (simp_all add: shut_def)

lemma shutdown_entry_sched:
  assumes "sched_quiet env" and "wf_sched (sched w)" and "i < moduleCount (sched w)"
  shows "sched (shutdown_entry env i w) = update_entry i shut (sched w)"
proof -
  obtain p where p: "me_module (modules (sched w) ! i) = Some p" and len: "i < length (modules (sched w))"
    using assms(2,3) by (auto simp: wf_sched_def)
  then show ?thesis
    using sched_quiet_simps(7) [OF assms(1)]
    by (simp add: shutdown_entry_def Let_def shut_def update_entry_def)
qed

lemma shutdown_entries:
  assumes "sched_quiet env" and "wf_sched (sched w)" and "n \<le> moduleCount (sched w)"
  shows "wf_sched (sched (fold (shutdown_entry env) [0..<n] w)) \<and>
    moduleCount (sched (fold (shutdown_entry env) [0..<n] w)) = moduleCount (sched w) \<and>
    (\<forall>j. modules (sched (fold (shutdown_entry env) [0..<n] w)) ! j =
       (if j < n then shut (modules (sched w) ! j) else modules (sched w) ! j))"
  using assms(3)
proof (induction n)
  case (Suc n)
  let ?v = "fold (shutdown_entry env) [0..<n] w"
  have IH: "wf_sched (sched ?v)" "moduleCount (sched ?v) = moduleCount (sched w)"
    "\<And>j. modules (sched ?v) ! j = (if j < n then shut (modules (sched w) ! j) else modules (sched w) ! j)"
    using Suc by auto
  have lt: "n < moduleCount (sched ?v)" using IH(2) Suc.prems by simp
  have s: "sched (shutdown_entry env n ?v) = update_entry n shut (sched ?v)"
    by (rule shutdown_entry_sched [OF assms(1) IH(1) lt])
  have len: "n < length (modules (sched ?v))" using IH(1) lt by (simp add: wf_sched_def)
  show ?case
    using wf_update_entry [OF IH(1) lt] IH(2,3) len
    by (simp add: s nth_update_entry less_Suc_eq)
qed (use assms(2) in simp)

lemma shutdownAll_fold:
  assumes "sched_quiet env" and "wf_sched (sched w)"
  shows "shutdownAll env w = fold (shutdown_entry env) [0..<moduleCount (sched w)] w"
  unfolding shutdownAll_def
  by (rule for_modules_fold [where I = "\<lambda>w. wf_sched (sched w)"])
    (use assms in \<open>auto simp: wf_sched_le shutdown_entry_sched wf_update_entry\<close>)

lemma requestShutdown_entries:
  assumes "sched_quiet (ke_env ke)" and "wf_sched (sched w)"
  shows "\<not> k_running (requestShutdown ke w) \<and> wf_sched (sched (requestShutdown ke w)) \<and>
    moduleCount (sched (requestShutdown ke w)) = moduleCount (sched w) \<and>
    (\<forall>i < moduleCount (sched w). modules (sched (requestShutdown ke w)) ! i = shut (modules (sched w) ! i))"
proof -
  define w1 where "w1 = kernel_publish ke SystemShutdown (w\<lparr>k_shutdown := True\<rparr>)"
  define w2 where "w2 = w1\<lparr>k_nvs := snd (nvs_backup (k_nvs w1))\<rparr>"
  have s2: "sched w2 = sched w"
    using sched_publish [OF assms(1)] by (simp add: w2_def w1_def kernel_publish_def)
  have r: "requestShutdown ke w = (shutdownAll (ke_env ke) w2)\<lparr>k_running := False\<rparr>"
    by (simp add: requestShutdown_def Let_def w1_def w2_def)
  show ?thesis
    using shutdown_entries [OF assms(1), of w2 "moduleCount (sched w2)"] assms(2)
      shutdownAll_fold [OF assms(1), of w2] s2
    by (simp add: r)
qed


section \<open>The module table over the life of the system\<close>

text \<open>
  A table that is well formed and in which the ids that were given out before still denote
  the same modules.
\<close>

definition same_ids :: "scheduler \<Rightarrow> scheduler \<Rightarrow> bool" where
  "same_ids s s' \<longleftrightarrow> wf_sched s' \<and> moduleCount s \<le> moduleCount s' \<and>
     (\<forall>i < moduleCount s. me_module (modules s' ! i) = me_module (modules s ! i))"

lemma same_ids_refl: "wf_sched s \<Longrightarrow> same_ids s s"
  by (simp add: same_ids_def)

lemma same_ids_trans: "same_ids s s1 \<Longrightarrow> same_ids s1 s2 \<Longrightarrow> same_ids s s2"
  by (auto simp: same_ids_def)

lemma same_ids_register: "wf_sched s \<Longrightarrow> same_ids s (snd (registerModule m s))"
  using wf_registerModule [of s m]
  by (auto simp: same_ids_def registerModule_def nth_update_entry wf_sched_def split: option.splits)

lemma same_ids_update:
  assumes "wf_sched s" and "i < moduleCount s" and "\<And>e. me_module (f e) = me_module e"
  shows "same_ids s (update_entry i f s)"
  using wf_update_entry [OF assms] assms
  by (auto simp: same_ids_def wf_sched_def nth_update_entry)

lemma same_ids_initAll:
  assumes "sched_quiet env" and "wf_sched (sched w)"
  shows "same_ids (sched w) (sched (snd (initAll env w)))"
proof -
  obtain ok w' where i: "fold (init_entry env) [0..<moduleCount (sched w)] (True, w) = (ok, w')" by fastforce
  from init_entries [OF assms order.refl i] show ?thesis
    by (auto simp: initAll_fold [OF assms] i same_ids_def)
qed

lemma same_ids_takt:
  assumes "sched_quiet env" and "wf_sched (sched w)" and "runTakt env w = Some w'"
  shows "same_ids (sched w) (sched w')"
  using runTakt_modules [OF assms] by (auto simp: same_ids_def)

text \<open>Everything that the kernel, the scheduler and the C interface offer to the application.\<close>

inductive kernel_step :: "'z kernel_sys_scheme kernel_env \<Rightarrow> 'z kernel_sys_scheme \<Rightarrow> 'z kernel_sys_scheme \<Rightarrow> bool" for ke where
  kernel_step_register: "kernel_step ke w (w\<lparr>sched := snd (registerModule m (sched w))\<rparr>)"
| kernel_step_unregister: "kernel_step ke w (unregisterModule (ke_env ke) mid w)"
| kernel_step_boot: "kernel_step ke w (snd (kernel_boot ke w))"
| kernel_step_takt: "runTakt (ke_env ke) w = Some w' \<Longrightarrow> kernel_step ke w w'"
| kernel_step_delay: "kernel_step ke w (e_delay (ke_env ke) n w)"
| kernel_step_check: "kernel_step ke w (detectStackOverflow ke w)"
| kernel_step_shutdown: "kernel_step ke w (requestShutdown ke w)"
| kernel_step_sdk_register: "kernel_step ke w (snd (takt_register_module a d w))"
| kernel_step_sdk_subscribe: "kernel_step ke w (snd (takt_subscribe a e cb user w))"
| kernel_step_sdk_publish: "kernel_step ke w (takt_publish ke e p1 p2 w)"
| kernel_step_sdk_set: "kernel_step ke w (snd (takt_nvs_set_u32 key v w))"

inductive kernel_reach :: "'z kernel_sys_scheme kernel_env \<Rightarrow> 'z kernel_sys_scheme \<Rightarrow> 'z kernel_sys_scheme \<Rightarrow> bool" for ke w where
  kernel_reach_start: "kernel_reach ke w w"
| kernel_reach_step: "kernel_reach ke w w1 \<Longrightarrow> kernel_step ke w1 w2 \<Longrightarrow> kernel_reach ke w w2"

lemma sched_boot:
  assumes "sched_quiet (ke_env ke)" and "wf_sched (sched w)"
  shows "same_ids (sched w) (sched (snd (kernel_boot ke w)))"
proof -
  define w1 where "w1 = w\<lparr>k_bootTimeMs := ke_nowMs ke w\<rparr>"
  define w2 where "w2 = w1\<lparr>k_nvs := snd (nvs_init (str ''takt'') (k_nvs w1))\<rparr>"
  define w3 where "w3 = kernel_publish ke SystemBoot w2"
  have s3: "sched w3 = sched w" using sched_publish [OF assms(1)] by (simp add: w3_def w2_def w1_def kernel_publish_def)
  obtain ready w4 where i: "initAll (ke_env ke) w3 = (ready, w4)" by fastforce
  have "same_ids (sched w) (sched w4)" using same_ids_initAll [OF assms(1), of w3] assms(2) by (simp add: s3 i)
  moreover have "sched (snd (kernel_boot ke w)) = sched w4"
    using i sched_publish [OF assms(1)]
    by (simp add: kernel_boot_def Let_def kernel_publish_def nvs_init_def nvs_backup_def w1_def w2_def w3_def)
  ultimately show ?thesis by simp
qed

lemma sched_kernel_step:
  assumes "kernel_step ke w w'" and "sched_quiet (ke_env ke)" and "wf_sched (sched w)"
  shows "same_ids (sched w) (sched w')"
  using assms(1)
proof cases
  case (kernel_step_unregister mid)
  then show ?thesis
    using assms(3) by (simp add: sched_unregisterModule [OF assms(2)] same_ids_refl same_ids_update)
next
  case kernel_step_shutdown
  then show ?thesis using requestShutdown_entries [OF assms(2,3)] by (simp add: same_ids_def)
next
  case kernel_step_delay
  then show ?thesis using assms(2,3) by (simp add: sched_quiet_simps(5) same_ids_refl)
next
  case kernel_step_check
  then show ?thesis
    using assms(3) by (simp add: detectStackOverflow_def kernel_publish_def sched_publish [OF assms(2)] same_ids_refl)
next
  case (kernel_step_sdk_register a d)
  then show ?thesis
    using same_ids_register [OF assms(3)] same_ids_refl [OF assms(3)]
    by (auto simp: takt_register_module_def Let_def split: option.split prod.split) (metis snd_conv)+
next
  case kernel_step_sdk_publish
  then show ?thesis using assms(3) by (simp add: takt_publish_def sched_publish [OF assms(2)] same_ids_refl)
qed (use assms in \<open>auto simp: same_ids_register sched_boot same_ids_takt takt_subscribe_def takt_nvs_set_u32_def
       same_ids_refl Let_def split: prod.split\<close>)

section \<open>What the boot keeps\<close>

text \<open>A property that the modules keep when they initialize, and that the two events of the boot keep, holds after it.\<close>

lemma kernel_boot_inv:
  assumes init: "\<And>q w. J w \<Longrightarrow> J (snd (m_init (e_module (ke_env ke) q) w))"
    and events: "\<And>w. J w \<Longrightarrow> J (kernel_publish ke SystemBoot w) \<and> J (kernel_publish ke SystemReady w)"
    and frame: "\<And>w s. J (w\<lparr>sched := s\<rparr>) = J w" "\<And>w n. J (w\<lparr>k_nvs := n\<rparr>) = J w"
      "\<And>w m. J (w\<lparr>k_bootTimeMs := m\<rparr>) = J w" "\<And>w r. J (w\<lparr>k_running := r\<rparr>) = J w"
    and "J w"
  shows "J (snd (kernel_boot ke w))"
proof -
  have entry: "J (snd (init_entry (ke_env ke) i a))" if a: "J (snd a)" for i a
  proof -
    obtain ok v where a': "a = (ok, v)" by (cases a)
    have on: "J (on_entry i f v) = J v" for f v by (simp add: on_entry_def frame)
    show ?thesis
      using a init [of "on_entry i (set_state Initializing) v"]
      by (auto simp: a' init_entry_def Let_def on split: option.split prod.split)
        (metis on snd_conv)+
  qed
  have all: "J (snd (initAll (ke_env ke) v))" if "J v" for v
    unfolding initAll_def by (rule for_modules_inv [where I = "\<lambda>a. J (snd a)"]) (simp_all add: entry that)
  obtain ok n where n: "nvs_init (str ''takt'') (k_nvs w) = (ok, n)" by fastforce
  define w3 where "w3 = kernel_publish ke SystemBoot (w\<lparr>k_bootTimeMs := ke_nowMs ke w, k_nvs := if ok then snd (nvs_backup n) else n\<rparr>)"
  obtain r w4 where w4: "initAll (ke_env ke) w3 = (r, w4)" by fastforce
  have "J w3" unfolding w3_def using assms(7) events by (simp add: frame)
  then have "J w4" using all [of w3] w4 by simp
  then show ?thesis
    using n w4 events by (simp add: kernel_boot_def Let_def w3_def frame)
qed


section \<open>Properties\<close>

text \<open>
  C15: The module table is well formed over the whole life of the system, and module ids are stable.
  In every state that any sequence of kernel, scheduler and C interface operations reaches, the
  table has 48 entries of which the first \<open>moduleCount\<close> hold a module and the others are unused;
  the count never decreases, and an id that was given out denotes the same module for ever.
\<close>
theorem module_ids_stable:
  assumes "kernel_reach ke w w'" and "sched_quiet (ke_env ke)" and "wf_sched (sched w)"
  shows "wf_sched (sched w') \<and> moduleCount (sched w) \<le> moduleCount (sched w') \<and>
    (\<forall>i < moduleCount (sched w). me_module (modules (sched w') ! i) = me_module (modules (sched w) ! i))"
proof -
  have "same_ids (sched w) (sched w')"
    using assms
  proof (induction rule: kernel_reach.induct)
    case (kernel_reach_step w1 w2)
    then have "same_ids (sched w) (sched w1)" by blast
    then show ?case
      using sched_kernel_step [OF kernel_reach_step.hyps(2) assms(2)] same_ids_trans by (auto simp: same_ids_def)
  qed (simp add: same_ids_refl)
  then show ?thesis by (simp add: same_ids_def)
qed

text \<open>
  \<open>calling ke p\<close>: the application in which the module \<open>p\<close> asks for the shutdown, from its own \<open>tick\<close>. The loop of
  \<open>runTakt\<close> sets the state of the module it has just ticked to Ready, whatever the tick has done to it.
\<close>
definition calling :: "'z kernel_sys_scheme kernel_env \<Rightarrow> ptr \<Rightarrow> 'z kernel_sys_scheme env" where
  "calling ke p = (ke_env ke)\<lparr>e_module := (e_module (ke_env ke))(p := (e_module (ke_env ke) p)\<lparr>m_tick := requestShutdown ke\<rparr>)\<rparr>"

lemma shutdown_from_tick:
  assumes "sched_quiet (ke_env ke)" and "wf_sched (sched w)" and "i < moduleCount (sched w)"
    and p: "me_module (modules (sched w) ! i) = Some p" and run: "shouldRunModule (calling ke p) (modules (sched w) ! i) w"
  shows "ms_state (me_stats (modules (sched (run_entry (calling ke p) i w)) ! i)) = Ready \<and>
    (\<forall>j<moduleCount (sched w). j \<noteq> i \<longrightarrow>
       modules (sched (run_entry (calling ke p) i w)) ! j = shut (modules (sched w) ! j))"
proof -
  have now: "e_nowUs (calling ke p) = e_nowUs (ke_env ke)" and tick: "m_tick (e_module (calling ke p) p) = requestShutdown ke"
    by (simp_all add: calling_def)
  obtain t1 w1 where w1: "e_nowUs (ke_env ke) w = (t1, w1)" by (cases "e_nowUs (ke_env ke) w")
  let ?w2 = "on_entry i (set_state Running) w1"
  obtain t2 w4 where w4: "e_nowUs (ke_env ke) (requestShutdown ke ?w2) = (t2, w4)"
    by (cases "e_nowUs (ke_env ke) (requestShutdown ke ?w2)")
  have s1: "sched w1 = sched w" using sched_quiet_simps(1) [OF assms(1) w1] .
  have s4: "sched w4 = sched (requestShutdown ke ?w2)" using sched_quiet_simps(1) [OF assms(1) w4] .
  have wf2: "wf_sched (sched ?w2)" using assms(2,3) by (simp add: s1 wf_update_entry)
  note r = requestShutdown_entries [OF assms(1) wf2]
  have len: "i < length (modules (sched w4))" using r assms(3) by (simp add: s4 s1 wf_sched_def)
  have others: "modules (sched w4) ! j = shut (modules (sched w) ! j)" if "j < moduleCount (sched w)" "j \<noteq> i" for j
    using r that by (simp add: s4 s1)
  show ?thesis
    using p run w1 w4 len others by (simp add: run_entry_def Let_def now tick nth_update_entry)
qed


definition idle_env :: "'z sched_sys_scheme env" where
  "idle_env = \<lparr>e_handlers = (\<lambda>c d u w. w), e_timerCallbacks = (\<lambda>c w. w),
     e_module = (\<lambda>p. \<lparr>m_init = (\<lambda>w. (True, w)), m_tick = (\<lambda>w. w), m_shutdown = (\<lambda>w. w), m_type = (\<lambda>w. Static),
       m_budgetUs = (\<lambda>w. 0), m_hasWork = (\<lambda>w. True)\<rparr>),
     e_nowUs = (\<lambda>w. (0, w)), e_wdtReset = (\<lambda>w. w), e_delay = (\<lambda>n w. w)\<rparr>"

lemma quiet_idle [simp]: "sched_quiet idle_env"
  by (simp add: sched_quiet_def idle_env_def)

lemma tame_idle [simp]: "tame (\<lambda>d. 0) idle_env"
  by (auto simp: tame_def idle_env_def env_keeps_def careful_callbacks_def ranked_handlers_def appends_lower_def)

definition idle_kernel :: "'z kernel_sys_scheme kernel_env" where
  "idle_kernel = \<lparr>ke_env = idle_env, ke_nowMs = (\<lambda>w. 0), ke_heap = (\<lambda>w. host_heap), ke_resetReason = 0,
     ke_ram = (\<lambda>w p. STACK_CANARY)\<rparr>"

definition demo_kernel :: kernel_sys where
  "demo_kernel = \<lparr>bus = new_event_bus, timers = Map.empty, tmgr = new_timer_manager, sched = demo_sched,
     k_nvs = new_nvs_host, k_running = True, k_shutdown = False, k_bootTimeMs = 0, k_diag = new_diagnostics,
     sdk_adapter = None, sdk_ctx = None\<rparr>"

lemma sched_demo_kernel [simp]: "sched demo_kernel = demo_sched"
  by (simp add: demo_kernel_def)

lemma publish_idle [simp]: "publish (e_handlers idle_env) e p1 p2 w = w"
proof -
  have "dispatch_slot (e_handlers idle_env) d i w = w" for d i and w :: "'a sched_sys_scheme"
    by (simp add: dispatch_slot_def idle_env_def Let_def split: option.split)
  then have "fold (dispatch_slot (e_handlers idle_env) d) is w = w" for d "is" and w :: "'a sched_sys_scheme"
    by (induction "is") simp_all
  then show ?thesis by (simp add: publish_def dispatch_def)
qed

lemma sys_ok_shut_idle:
  assumes "sys_ok w"
  shows "sys_ok (requestShutdown idle_kernel w)"
proof -
  have step: "sys_ok v \<Longrightarrow> sys_ok (shutdown_entry idle_env i v)" for i and v :: "'a kernel_sys_scheme"
    by (auto simp: shutdown_entry_def Let_def sys_ok_def safe_timers_def idle_env_def split: option.split)
  have "sys_ok v \<Longrightarrow> sys_ok (shutdownAll idle_env v)" for v :: "'a kernel_sys_scheme"
    unfolding shutdownAll_def by (rule for_modules_inv [where I = sys_ok]) (simp_all add: step)
  moreover have "sys_ok (w\<lparr>k_shutdown := True, k_nvs := n\<rparr>)" for n
    using assms by (simp add: sys_ok_def safe_timers_def)
  ultimately have "sys_ok (shutdownAll idle_env (w\<lparr>k_shutdown := True, k_nvs := snd (nvs_backup (k_nvs w))\<rparr>))"
    by blast
  then show ?thesis
    by (simp add: requestShutdown_def kernel_publish_def idle_kernel_def sys_ok_def safe_timers_def)
qed


text \<open>
  The C interface serves only the first module and the first subscription. Its adapter and its
  callback context are function-local static variables, initialized once: a second module gets an
  id of its own, but both table entries hold the same adapter, which runs the functions of the
  first module; and the bridge hands the events of a second subscription to the first callback.
\<close>
theorem sdk_serves_only_first:
  assumes "sdk_adapter w = None" and "sdk_ctx w = None"
    and "length (modules (sched w)) = kMaxModules" and "moduleCount (sched w) + 2 \<le> kMaxModules"
    and "takt_register_module a (Some d1) w = (id1, w1)" and "takt_register_module a (Some d2) w1 = (id2, w2)"
    and "takt_subscribe a e1 (Some c1) u1 w = (h1, v1)" and "takt_subscribe a e2 (Some c2) u2 v1 = (h2, v2)"
  shows "id1 = int (moduleCount (sched w)) \<and> id2 = id1 + 1 \<and>
    me_module (modules (sched w2) ! nat id1) = Some (sa_adapter a) \<and>
    me_module (modules (sched w2) ! nat id2) = Some (sa_adapter a) \<and>
    sdk_desc desc w2 = Some (desc d1) \<and>
    sdkEventBridge call d (Some (sa_ctx a)) v2 = call c1 (ev_id d) (param1 d) (param2 d) u1 v2"
proof -
  let ?n = "moduleCount (sched w)"
  have n: "uint (of_nat ?n :: u16) = int ?n" "uint (of_nat (Suc ?n) :: u16) = int (Suc ?n)"
    using assms(4) of_nat_module_id [of ?n] of_nat_module_id [of "Suc ?n"] by (simp_all only: uint_nat)
  have r1: "id1 = int ?n" "sdk_adapter w1 = Some d1" "moduleCount (sched w1) = Suc ?n"
    "modules (sched w1) = (modules (sched w))[?n := set_state Registered
       ((modules (sched w) ! ?n)\<lparr>me_module := Some (sa_adapter a), me_active := True\<rparr>)]"
    using assms(1,4,5) n(1) by (auto simp: takt_register_module_def registerModule_def update_entry_def Let_def)
  have r2: "id2 = int (Suc ?n)" "sdk_adapter w2 = Some d1"
    "modules (sched w2) = (modules (sched w1))[Suc ?n := set_state Registered
       ((modules (sched w1) ! Suc ?n)\<lparr>me_module := Some (sa_adapter a), me_active := True\<rparr>)]"
    using assms(4,6) n(2) r1(2,3) by (auto simp: takt_register_module_def registerModule_def update_entry_def Let_def)
  have "sdk_ctx v1 = Some (Some c1, u1)"
    using assms(2,7) by (auto simp: takt_subscribe_def Let_def split: prod.splits)
  then have "sdk_ctx v2 = Some (Some c1, u1)"
    using assms(8) by (auto simp: takt_subscribe_def Let_def split: prod.splits)
  then show ?thesis
    using r1 r2 assms(3,4) by (simp add: sdk_desc_def sdkEventBridge_def nat_add_distrib)
qed

lemma demo_kernel_sdk [simp]: "sdk_adapter demo_kernel = None" "sdk_ctx demo_kernel = None"
  by (simp_all add: demo_kernel_def)

theorem sdk_serves_only_first_witness:
  "\<exists>w1 w2. takt_register_module \<lparr>sa_adapter = 700, sa_ctx = 701, sa_bridge = 702\<rparr> (Some 10) demo_kernel = (2, w1) \<and>
     takt_register_module \<lparr>sa_adapter = 700, sa_ctx = 701, sa_bridge = 702\<rparr> (Some 20) w1 = (3, w2) \<and>
     me_module (modules (sched w2) ! 2) = Some 700 \<and> me_module (modules (sched w2) ! 3) = Some 700 \<and>
     sdk_desc desc w2 = Some (desc 10)"
proof -
  let ?a = "\<lparr>sa_adapter = 700, sa_ctx = 701, sa_bridge = 702\<rparr>"
  have len: "length (modules (sched demo_kernel)) = kMaxModules" using wf_demo_sched by (simp add: wf_sched_def)
  have cnt: "moduleCount (sched demo_kernel) + 2 \<le> kMaxModules" by (simp add: kMaxModules_def)
  obtain id1 w1 where r1: "takt_register_module ?a (Some 10) demo_kernel = (id1, w1)" by fastforce
  obtain id2 w2 where r2: "takt_register_module ?a (Some 20) w1 = (id2, w2)" by fastforce
  obtain h1 v1 where s1: "takt_subscribe ?a 0 (Some 0) None demo_kernel = (h1, v1)" by fastforce
  obtain h2 v2 where s2: "takt_subscribe ?a 0 (Some 0) None v1 = (h2, v2)" by fastforce
  show ?thesis
    using sdk_serves_only_first [OF demo_kernel_sdk len cnt r1 r2 s1 s2, of desc "\<lambda>_ _ _ _ _ w. w" empty_event] r1 r2 by auto
qed

theorem module_ids_stable_witness:
  "wf_sched (sched (requestShutdown idle_kernel (snd (kernel_boot idle_kernel demo_kernel))))"
  using module_ids_stable [OF kernel_reach_step [OF kernel_reach_step [OF kernel_reach_start kernel_step_boot]
      kernel_step_shutdown], of idle_kernel demo_kernel] wf_demo_sched
  by (simp add: idle_kernel_def demo_kernel_def)

end
