(* ===== verification/Web_Server.thy ===== *)
theory Web_Server
  imports Kernel
begin

text \<open>
  What the system tells its operator: the log (\<open>kernel/include/takt/logger.hpp\<close>,
  \<open>kernel/src/logger.cpp\<close>) and the status pages of the web server
  (\<open>middleware/src/webserver_module.cpp\<close>, ESP32 build).

  The formatting of \<open>printf\<close> is written out for the format string whose result has a
  bounded buffer, the statistics page. A log message is taken as already formatted; \<open>Reports\<close>
  writes out the messages of the two reports.
\<close>


section \<open>Logging\<close>

datatype log_level = LogTrace | LogDebug | LogInfo | LogWarn | LogError | LogFatal | LogNone

definition log_level_code :: "log_level \<Rightarrow> u8" where
  "log_level_code l = (case l of LogTrace \<Rightarrow> 0 | LogDebug \<Rightarrow> 1 | LogInfo \<Rightarrow> 2 | LogWarn \<Rightarrow> 3 | LogError \<Rightarrow> 4
     | LogFatal \<Rightarrow> 5 | LogNone \<Rightarrow> 6)"

datatype esp_log_level = EspNone | EspError | EspWarn | EspInfo | EspDebug

record logger =
  lg_level :: log_level
  lg_written :: "(esp_log_level \<times> cstring \<times> cstring) list"
  lg_printed :: "cstring list"

definition new_logger :: logger where
  "new_logger = \<lparr>lg_level = LogDebug, lg_written = [], lg_printed = []\<rparr>"

definition logger_setLevel :: "log_level \<Rightarrow> logger \<Rightarrow> logger" where
  "logger_setLevel l g = g\<lparr>lg_level := l\<rparr>"

definition esp_level :: "log_level \<Rightarrow> esp_log_level" where
  "esp_level l = (case l of LogTrace \<Rightarrow> EspDebug | LogDebug \<Rightarrow> EspDebug | LogInfo \<Rightarrow> EspInfo | LogWarn \<Rightarrow> EspWarn
     | LogError \<Rightarrow> EspError | LogFatal \<Rightarrow> EspError | LogNone \<Rightarrow> EspNone)"

definition level_letter :: "log_level \<Rightarrow> cstring" where
  "level_letter l = (let idx = log_level_code l in
     [str ''T'', str ''D'', str ''I'', str ''W'', str ''E'', str ''F''] ! unat (if 5 < idx then 5 else idx))"

definition logger_log :: "bool \<Rightarrow> log_level \<Rightarrow> cstring \<Rightarrow> cstring \<Rightarrow> logger \<Rightarrow> logger" where
  "logger_log esp32 l tag msg g =
     (if log_level_code l < log_level_code (lg_level g) then g
      else if esp32 then g\<lparr>lg_written := lg_written g @ [(esp_level l, tag, msg)]\<rparr>
      else g\<lparr>lg_printed := lg_printed g @ [str ''['' @ level_letter l @ str ''][''  @ tag @ str ''] '' @ msg]\<rparr>)"

text \<open>The macro in front of it compares with the level of the build.\<close>

definition takt_log :: "log_level \<Rightarrow> bool \<Rightarrow> log_level \<Rightarrow> cstring \<Rightarrow> cstring \<Rightarrow> logger \<Rightarrow> logger" where
  "takt_log build_level esp32 l tag msg g =
     (if log_level_code build_level \<le> log_level_code l then logger_log esp32 l tag msg g else g)"


section \<open>The web server\<close>

text \<open>\<open>ws_server\<close>: whether the server handle is set. A handler is found by its address.\<close>

record webserver =
  ws_port :: u16
  ws_running :: bool
  ws_server :: bool
  ws_uris :: "cstring list"

definition new_webserver :: webserver where
  "new_webserver = \<lparr>ws_port = 80, ws_running = False, ws_server = False, ws_uris = []\<rparr>"

definition ws_setPort :: "u16 \<Rightarrow> webserver \<Rightarrow> webserver" where
  "ws_setPort p s = s\<lparr>ws_port := p\<rparr>"

definition webserver_init :: "(u16 \<Rightarrow> bool) \<Rightarrow> webserver \<Rightarrow> bool \<times> webserver" where
  "webserver_init httpd_start s =
     (if \<not> httpd_start (ws_port s) then (False, s)
      else (True, s\<lparr>ws_server := True, ws_uris := [str ''/api/status'', str ''/api/stats''], ws_running := True\<rparr>))"

definition webserver_shutdown :: "webserver \<Rightarrow> webserver" where
  "webserver_shutdown s =
     (let s1 = (if ws_server s then s\<lparr>ws_server := False, ws_uris := []\<rparr> else s) in s1\<lparr>ws_running := False\<rparr>)"

text \<open>The decimal digits of a number, and a JSON key.\<close>

fun dec :: "nat \<Rightarrow> cstring" where
  "dec n = (if n < 10 then [of_nat (48 + n)] else dec (n div 10) @ [of_nat (48 + n mod 10)])"

declare dec.simps [simp del]

definition json_key :: "string \<Rightarrow> cstring" where
  "json_key s = [34] @ str s @ [34]"

definition status_text :: cstring where
  "status_text = str ''{'' @ json_key ''status'' @ str '':'' @ json_key ''ok'' @ str '','' @ json_key ''os'' @ str '':'' @
     json_key ''TAKT OS'' @ str ''}''"

definition stats_text :: "kernel_stats \<Rightarrow> cstring" where
  "stats_text st = str ''{'' @ json_key ''uptime_ms'' @ str '':'' @ dec (unat (ks_uptimeMs st)) @ str '','' @
     json_key ''takts'' @ str '':'' @ dec (unat (ss_totalTakts (ks_scheduler st))) @ str '','' @
     json_key ''heap_free'' @ str '':'' @ dec (ks_heapFree st) @ str ''}''"

text \<open>\<open>snprintf\<close> into 256 bytes keeps at most 255 characters.\<close>

definition statsHandler :: "'z kernel_sys_scheme kernel_env \<Rightarrow> 'z kernel_sys_scheme \<Rightarrow> cstring" where
  "statsHandler ke w = take 255 (stats_text (collectStats ke w))"

definition web_answer :: "'z kernel_sys_scheme kernel_env \<Rightarrow> 'z kernel_sys_scheme \<Rightarrow> webserver \<Rightarrow> cstring \<Rightarrow> cstring option" where
  "web_answer ke w s uri =
     (if \<not> ws_server s \<or> uri \<notin> set (ws_uris s) then None
      else if uri = str ''/api/status'' then Some status_text else Some (statsHandler ke w))"


section \<open>Decimal numbers\<close>

text \<open>Reading the digits back, as a client of the page does.\<close>

definition undec :: "cstring \<Rightarrow> nat" where
  "undec s = foldl (\<lambda>n b. 10 * n + (unat b - 48)) 0 s"

lemma digit: "k < 10 \<Longrightarrow> unat (of_nat (48 + k) :: u8) = 48 + k"
  by (simp only: unat_of_nat) simp

lemma undec_dec [simp]: "undec (dec n) = n"
proof (induction n rule: dec.induct)
  case (1 n)
  show ?case
  proof (cases "n < 10")
    case True
    then show ?thesis using digit [of n] by (subst dec.simps) (simp add: undec_def)
  next
    case False
    then have "undec (dec n) = 10 * undec (dec (n div 10)) + (unat (of_nat (48 + n mod 10) :: u8) - 48)"
      by (subst dec.simps) (simp add: undec_def)
    then show ?thesis using 1 [OF False] digit [of "n mod 10"] by simp
  qed
qed

lemma dec_digits: "b \<in> set (dec n) \<Longrightarrow> 48 \<le> b \<and> b \<le> 57"
proof (induction n arbitrary: b rule: dec.induct)
  case (1 n)
  have d: "48 \<le> (of_nat (48 + k) :: u8) \<and> (of_nat (48 + k) :: u8) \<le> 57" if "k < 10" for k
    using digit [OF that] that by (simp add: word_le_nat_alt)
  show ?case using 1 d [of n] d [of "n mod 10"] by (cases "n < 10") (auto simp: dec.simps [of n])
qed

lemma length_dec: "n < 10 ^ k \<Longrightarrow> 0 < k \<Longrightarrow> length (dec n) \<le> k"
proof (induction k arbitrary: n)
  case (Suc k)
  show ?case
  proof (cases "n < 10")
    case False
    then have "0 < k" using Suc.prems(1) by (cases k) auto
    moreover have "n div 10 < 10 ^ k" using Suc.prems(1) by (simp add: div_less_iff_less_mult mult.commute)
    ultimately show ?thesis using Suc.IH [of "n div 10"] False by (simp add: dec.simps [of n])
  qed (simp add: dec.simps [of n])
qed simp


section \<open>Properties\<close>

text \<open>
  C35: The statistics page is never cut off: for every value of the counters that the machine can
  hold, the text fits in the 256 bytes with its terminator, so that the page is the complete
  JSON object, and its numbers read back as the uptime, the number of takts and the free heap
  that \<open>collectStats\<close> reports.
\<close>
theorem stats_page_complete:
  assumes "hi_totalFree (ke_heap ke w) < 2 ^ 64"
  shows "statsHandler ke w = stats_text (collectStats ke w) \<and> length (statsHandler ke w) < 256 \<and>
    (\<exists>a b c. statsHandler ke w = str ''{'' @ json_key ''uptime_ms'' @ str '':'' @ a @ str '','' @
        json_key ''takts'' @ str '':'' @ b @ str '','' @ json_key ''heap_free'' @ str '':'' @ c @ str ''}'' \<and>
      undec a = unat (ke_nowMs ke w - k_bootTimeMs w) \<and> undec b = unat (ss_totalTakts (sched_stats (sched w))) \<and>
      undec c = hi_totalFree (ke_heap ke w) \<and> (\<forall>x \<in> set (a @ b @ c). 48 \<le> x \<and> x \<le> 57))"
proof -
  let ?st = "collectStats ke w"
  have v: "ks_heapFree ?st = hi_totalFree (ke_heap ke w)" "ks_uptimeMs ?st = ke_nowMs ke w - k_bootTimeMs w"
    "ks_scheduler ?st = sched_stats (sched w)"
    by (simp_all add: collectStats_def updateMemoryStats_def)
  have "length (dec (unat (ks_uptimeMs ?st))) \<le> 10"
    using u32_less [of "ks_uptimeMs ?st"] by (intro length_dec) auto
  moreover have "length (dec (unat (ss_totalTakts (ks_scheduler ?st)))) \<le> 20"
    using unsigned_less [of "ss_totalTakts (ks_scheduler ?st)", where 'a = nat] by (intro length_dec) auto
  moreover have "length (dec (ks_heapFree ?st)) \<le> 20" using assms by (intro length_dec) (auto simp: v)
  ultimately have l: "length (stats_text ?st) < 256" by (simp add: stats_text_def json_key_def str_def)
  then have t: "statsHandler ke w = stats_text ?st" by (simp add: statsHandler_def)
  show ?thesis
  proof (intro conjI exI)
    show "statsHandler ke w = stats_text ?st" by (rule t)
    show "length (statsHandler ke w) < 256" using l by (simp only: t)
    show "statsHandler ke w = str ''{'' @ json_key ''uptime_ms'' @ str '':'' @ dec (unat (ks_uptimeMs ?st)) @ str '','' @
        json_key ''takts'' @ str '':'' @ dec (unat (ss_totalTakts (ks_scheduler ?st))) @ str '','' @
        json_key ''heap_free'' @ str '':'' @ dec (ks_heapFree ?st) @ str ''}''"
      by (simp only: t stats_text_def)
  qed (use dec_digits in \<open>auto simp: v\<close>)
qed

theorem stats_page_complete_witness:
  "length (statsHandler idle_kernel demo_kernel) < 256"
proof -
  have "hi_totalFree (ke_heap idle_kernel demo_kernel) < 2 ^ 64" by (simp add: idle_kernel_def host_heap_def)
  from stats_page_complete [OF this] show ?thesis by blast
qed

text \<open>A page is only served between \<open>init\<close> and \<open>shutdown\<close>, and only under the two addresses.\<close>

lemma web_answer_iff:
  assumes "webserver_init httpd_start s = (True, s1)"
  shows "web_answer ke w s1 uri \<noteq> None \<longleftrightarrow> uri \<in> {str ''/api/status'', str ''/api/stats''}"
    and "web_answer ke w (webserver_shutdown s1) uri = None"
  using assms by (auto simp: webserver_init_def webserver_shutdown_def web_answer_def Let_def split: if_splits)

end
