(* ===== verification/Drivers.thy ===== *)
theory Drivers
  imports Event_Bus Nvs Fw_Cache
begin

text \<open>
  The drivers of the ESP32 build: UART (\<open>drivers/src/uart.cpp\<close>), GPIO and platform start-up
  (\<open>drivers/src/platform.cpp\<close>) and the raw side of the ADC (\<open>drivers/src/adc.cpp\<close>).

  The functions of the vendor SDK that they call are the record \<open>driver_api\<close> on a hardware
  state \<open>'h\<close>. What the users of the drivers publish on the bus is the list \<open>published\<close>.
\<close>


section \<open>State\<close>

datatype gpio_mode = Input | Output | InputPullUp | InputPullDown

record 'h driver_api =
  ua_param_config :: "int \<Rightarrow> u32 \<Rightarrow> bool"
  ua_set_pin :: "int \<Rightarrow> int \<Rightarrow> int \<Rightarrow> bool"
  ua_driver_install :: "int \<Rightarrow> bool"
  ua_read_bytes :: "int \<Rightarrow> nat \<Rightarrow> 'h \<Rightarrow> int \<times> bytes \<times> 'h"
  ua_write_bytes :: "int \<Rightarrow> bytes \<Rightarrow> 'h \<Rightarrow> int \<times> 'h"
  ga_config :: "u64 \<Rightarrow> gpio_mode \<Rightarrow> bool"
  ga_get_level :: "int \<Rightarrow> 'h \<Rightarrow> int"
  aa_new_unit :: bool
  aa_line_fitting :: bool
  aa_create_scheme :: bool
  aa_oneshot_read :: "int \<Rightarrow> 'h \<Rightarrow> int option"
  pa_reset_reason :: int
  pa_timer_get_time :: "'h \<Rightarrow> int"
  pa_wdt_reset :: "'h \<Rightarrow> 'h"

record 'h dev_sys =
  installed :: "bool list"
  hardware :: 'h
  gpio_mode :: "int \<Rightarrow> gpio_mode option"
  gpio_level :: "int \<Rightarrow> bool"
  adcHandle :: bool
  caliEnabled :: bool
  published :: "(event_name \<times> u32 \<times> u32) list"


section \<open>UART\<close>

definition kMaxPorts :: nat where
  "kMaxPorts = 3"

definition uart_ready :: "int \<Rightarrow> 'h dev_sys \<Rightarrow> bool" where
  "uart_ready port d \<longleftrightarrow> 0 \<le> port \<and> port < int kMaxPorts \<and> installed d ! nat port"

definition uart_init :: "('h, 'a) driver_api_scheme \<Rightarrow> int \<Rightarrow> u32 \<Rightarrow> int \<Rightarrow> int \<Rightarrow> 'h dev_sys \<Rightarrow> bool \<times> 'h dev_sys" where
  "uart_init api port baudRate txPin rxPin d =
     (if port < 0 \<or> int kMaxPorts \<le> port then (False, d)
      else if \<not> ua_param_config api port baudRate then (False, d)
      else if 0 \<le> txPin \<and> 0 \<le> rxPin \<and> \<not> ua_set_pin api port txPin rxPin then (False, d)
      else if \<not> ua_driver_install api port then (False, d)
      else (True, d\<lparr>installed := (installed d)[nat port := True]\<rparr>))"

definition uart_read :: "('h, 'a) driver_api_scheme \<Rightarrow> int \<Rightarrow> nat \<Rightarrow> 'h dev_sys \<Rightarrow> int \<times> bytes \<times> 'h dev_sys" where
  "uart_read api port len d =
     (if \<not> uart_ready port d then (-1, [], d)
      else case ua_read_bytes api port len (hardware d) of (n, bs, h) \<Rightarrow>
        (if n < 0 then -1 else n, bs, d\<lparr>hardware := h\<rparr>))"

definition uart_write :: "('h, 'a) driver_api_scheme \<Rightarrow> int \<Rightarrow> bytes \<Rightarrow> 'h dev_sys \<Rightarrow> int \<times> 'h dev_sys" where
  "uart_write api port buf d =
     (if \<not> uart_ready port d then (-1, d)
      else case ua_write_bytes api port buf (hardware d) of (n, h) \<Rightarrow>
        (if n < 0 then -1 else n, d\<lparr>hardware := h\<rparr>))"


section \<open>GPIO\<close>

text \<open>The bit mask is \<open>1ULL << pin\<close>, which is undefined for a pin outside 0 to 63.\<close>

definition gpio_setMode :: "('h, 'a) driver_api_scheme \<Rightarrow> int \<Rightarrow> gpio_mode \<Rightarrow> 'h dev_sys \<Rightarrow> (bool \<times> 'h dev_sys) option" where
  "gpio_setMode api pin mode d =
     (if pin < 0 \<or> 64 \<le> pin then None
      else if ga_config api (push_bit (nat pin) 1) mode
      then Some (True, d\<lparr>gpio_mode := (gpio_mode d)(pin := Some mode)\<rparr>)
      else Some (False, d))"

definition gpio_read :: "('h, 'a) driver_api_scheme \<Rightarrow> int \<Rightarrow> 'h dev_sys \<Rightarrow> bool" where
  "gpio_read api pin d \<longleftrightarrow> ga_get_level api pin (hardware d) \<noteq> 0"

definition gpio_write :: "int \<Rightarrow> bool \<Rightarrow> 'h dev_sys \<Rightarrow> 'h dev_sys" where
  "gpio_write pin level d = d\<lparr>gpio_level := (gpio_level d)(pin := level)\<rparr>"


section \<open>ADC\<close>

text \<open>The conversion to volts is floating-point arithmetic and is left out.\<close>

definition adc_init :: "('h, 'a) driver_api_scheme \<Rightarrow> int \<Rightarrow> 'h dev_sys \<Rightarrow> bool \<times> 'h dev_sys" where
  "adc_init api channel d =
     (if adcHandle d then (True, d)
      else if \<not> aa_new_unit api then (False, d)
      else (True, d\<lparr>adcHandle := True, caliEnabled := aa_line_fitting api \<and> aa_create_scheme api\<rparr>))"

definition adc_readRaw :: "('h, 'a) driver_api_scheme \<Rightarrow> int \<Rightarrow> 'h dev_sys \<Rightarrow> int" where
  "adc_readRaw api channel d =
     (if \<not> adcHandle d then -1
      else case aa_oneshot_read api channel (hardware d) of None \<Rightarrow> -1 | Some raw \<Rightarrow> raw)"


section \<open>Platform\<close>

definition feedWatchdog :: "('h, 'a) driver_api_scheme \<Rightarrow> 'h dev_sys \<Rightarrow> 'h dev_sys" where
  "feedWatchdog api d = d\<lparr>hardware := pa_wdt_reset api (hardware d)\<rparr>"

definition getResetReason :: "('h, 'a) driver_api_scheme \<Rightarrow> u32" where
  "getResetReason api = of_int (pa_reset_reason api)"

definition getUptimeUs :: "('h, 'a) driver_api_scheme \<Rightarrow> 'h dev_sys \<Rightarrow> u64" where
  "getUptimeUs api d = of_int (pa_timer_get_time api (hardware d))"

text \<open>
  Start-up binds the storage manager to the partition \<open>storage\<close> and hands the flash addresses
  of the two OTA partitions to the firmware store. \<open>ota0\<close> and \<open>ota1\<close> are what the partition
  table of the vendor answers: address and size. (The watchdog set-up has no state here.)
\<close>

definition platform_init ::
  "(string \<Rightarrow> 'f esp_partition option) \<Rightarrow> (u32 \<times> u32) option \<Rightarrow> (u32 \<times> u32) option \<Rightarrow> 'f esp_ota \<Rightarrow>
   ('f, 'z) fw_sys_scheme \<Rightarrow> bool \<times> ('f, 'z) fw_sys_scheme" where
  "platform_init lookup ota0 ota1 eo s =
     (let s1 = snd (initStorageFromPartition lookup ''storage'' s) in
      case (ota0, ota1) of
        (Some (address0, size0), Some (address1, _)) \<Rightarrow> (True, snd (fw_init eo address0 address1 size0 s1))
      | _ \<Rightarrow> (True, s1))"


section \<open>Users of the drivers\<close>

definition dev_publish :: "event_name \<Rightarrow> u32 \<Rightarrow> u32 \<Rightarrow> 'h dev_sys \<Rightarrow> 'h dev_sys" where
  "dev_publish e p1 p2 d = d\<lparr>published := published d @ [(e, p1, p2)]\<rparr>"


section \<open>The firmware slots after start-up\<close>

text \<open>A read or write that starts at or beyond the end of the storage partition is refused.\<close>

lemma read_beyond:
  assumes "fb_totalSize (backend s) \<le> off" and "0 < len" and "unat off + unat len < 2 ^ 32"
  shows "storage_read off len s = (-1, [])"
proof -
  have "unat (off + len) = unat off + unat len" using assms(3) by (simp add: unat_u32_add)
  then have "fb_totalSize (backend s) < off + len"
    using assms(1,2) by (simp add: word_less_nat_alt word_le_nat_alt)
  then show ?thesis by (simp add: storage_read_def split: option.split)
qed

lemma write_beyond:
  assumes "fb_totalSize (backend s) < off" and "unat off + length buf < 2 ^ 32"
  shows "storage_write off buf s = (-1, s)"
proof -
  have l: "unat (of_nat (length buf) :: u32) = length buf" using assms(2) by (simp add: unat_u32_of_nat)
  have "unat (off + of_nat (length buf)) = unat off + length buf" using assms(2) l by (simp add: unat_u32_add)
  then have "fb_totalSize (backend s) < off + of_nat (length buf)"
    using assms(1) by (simp add: word_less_nat_alt)
  then show ?thesis by (simp add: storage_write_def Let_def split: option.split)
qed

lemma inactive_cases: "slotOffset c = [a, b] \<Longrightarrow> slotOffset c ! unat (inactiveSlot c) \<in> {a, b}"
  by (simp add: inactiveSlot_def)

lemma platform_init_state:
  assumes "lookup ''storage'' = Some part" and "snd (platform_init lookup (Some (a0, sz)) (Some (a1, sz1)) eo s) = s'"
  shows "fb_totalSize (backend s') = ep_size part \<and> slotOffset (fw s') = [a0, a1] \<and> slotSize (fw s') = sz"
  using assms
  by (auto simp: platform_init_def initStorageFromPartition_def createPartitionBackend_def storage_init_def
      no_backend_def fw_init_def Let_def split: option.splits prod.splits)

text \<open>
  C38: The firmware store cannot be used after \<open>Platform::init\<close> on a device whose OTA partitions lie
  behind the end of a storage partition as large as they are far: \<open>FirmwareCache::init\<close> gets their
  absolute flash addresses, but every access goes through the storage manager, where an offset
  counts from the start of the storage partition. No slot verifies, and although an update
  session can be begun, the first chunk is refused and nothing is written.
\<close>
theorem ota_slots_out_of_reach:
  assumes "lookup ''storage'' = Some part" and "platform_init lookup (Some (a0, sz)) (Some (a1, sz1)) eo s = (r, s')"
    and "ep_size part \<le> a0" and "ep_size part \<le> a1" and "a0 < 2 ^ 31" and "a1 < 2 ^ 31"
    and "beginWrite imageSize version s' = (True, s1)" and "length data < 2 ^ 30"
  shows "\<not> verify slot s' \<and> writeChunk data s1 = (-1, s1)"
proof
  have st: "fb_totalSize (backend s') = ep_size part" "slotOffset (fw s') = [a0, a1]"
    using platform_init_state [of lookup part a0 sz a1 sz1 eo s s'] assms(1,2) by auto
  have big: "unat a0 < 2 ^ 31" "unat a1 < 2 ^ 31" using assms(5,6) by (simp_all add: word_less_nat_alt)
  have "slot \<le> 1 \<Longrightarrow> storage_read (slotOffset (fw s') ! unat slot) 24 s' = (-1, [])"
  proof -
    assume "slot \<le> 1"
    then have "slot = 0 \<or> slot = 1" using word_le_nat_alt [of slot 1] by (auto simp: le_Suc_eq word_unat_eq_iff)
    then have "slotOffset (fw s') ! unat slot \<in> {a0, a1}" using st(2) by auto
    then show "storage_read (slotOffset (fw s') ! unat slot) 24 s' = (-1, [])"
      using assms(3,4) big by (intro read_beyond) (auto simp: st(1))
  qed
  then show "\<not> verify slot s'" by (simp add: verify_def getHeader_def)
  have s1: "backend s1 = backend s'" "slotOffset (fw s1) = [a0, a1]" "writing (fw s1)" "writeOffset (fw s1) = 0x1000"
    using assms(7) st(2) by (auto simp: beginWrite_def kHeaderReserved_def split: if_splits)
  obtain a where a: "slotOffset (fw s1) ! unat (inactiveSlot (fw s1)) = a" "a \<in> {a0, a1}"
    using inactive_cases [OF s1(2)] by blast
  have "unat (a + 0x1000) = unat a + 4096" using a(2) big by (subst unat_u32_add) auto
  then have "storage_write (a + 0x1000) data s1 = (-1, s1)"
    using assms(3,4,8) a(2) big
    by (intro write_beyond) (auto simp: s1(1) st(1) word_less_nat_alt word_le_nat_alt)
  then show "writeChunk data s1 = (-1, s1)" using s1(3,4) a(1) by (simp add: writeChunk_def)
qed

text \<open>
  The partition table of the repository, \<open>tools/partitions.csv\<close>: OTA partitions of 0x140000 bytes
  at 0x150000 and 0x290000, a storage partition of 0x30000 bytes.
\<close>

definition repo_storage :: "memory esp_partition" where
  "repo_storage = mem_partition\<lparr>ep_size := 0x30000\<rparr>"

theorem ota_slots_out_of_reach_witness:
  "\<exists>s' s1. platform_init (\<lambda>_. Some repo_storage) (Some (0x150000, 0x140000)) (Some (0x290000, 0x140000)) host_ota demo_fw =
      (True, s') \<and> beginWrite 4 7 s' = (True, s1) \<and> writeChunk [1, 2, 3, 4] s1 = (-1, s1)"
proof -
  obtain s' where p: "platform_init (\<lambda>_. Some repo_storage) (Some (0x150000, 0x140000)) (Some (0x290000, 0x140000))
      host_ota demo_fw = (True, s')"
    by (auto simp: platform_init_def Let_def)
  obtain s1 where b: "beginWrite 4 7 s' = (True, s1)"
    using platform_init_state [of "\<lambda>_. Some repo_storage" repo_storage "0x150000" "0x140000" "0x290000" "0x140000" host_ota demo_fw s'] p
    by (auto simp: beginWrite_def kHeaderReserved_def)
  show ?thesis
    using ota_slots_out_of_reach [OF _ p _ _ _ _ b, of repo_storage "[1, 2, 3, 4]"] p b by (simp add: repo_storage_def)
qed

end
