(* ===== verification/Field_Modules.thy ===== *)
theory Field_Modules
  imports Drivers
begin

text \<open>
  The modules of \<open>middleware/src\<close> that drive the field side, on the drivers of \<open>Drivers\<close>: relay,
  UART and Modbus, and the Modbus gateway of \<open>services/src/modbus_gateway.cpp\<close>.
\<close>


section \<open>Relay\<close>

record relay =
  rl_gpioPin :: int
  rl_relayOn :: bool
  rl_pending :: bool
  rl_target :: bool

definition new_relay :: "int \<Rightarrow> relay" where
  "new_relay pin = \<lparr>rl_gpioPin = pin, rl_relayOn = False, rl_pending = False, rl_target = False\<rparr>"

definition relay_init :: "('h, 'a) driver_api_scheme \<Rightarrow> relay \<Rightarrow> 'h dev_sys \<Rightarrow> (bool \<times> 'h dev_sys) option" where
  "relay_init api r d =
     do { (_, d1) \<leftarrow> gpio_setMode api (rl_gpioPin r) Output d; Some (True, gpio_write (rl_gpioPin r) False d1) }"

definition setRelay :: "bool \<Rightarrow> relay \<Rightarrow> relay" where
  "setRelay on r = r\<lparr>rl_target := on, rl_pending := True\<rparr>"

definition relay_tick :: "relay \<Rightarrow> 'h dev_sys \<Rightarrow> relay \<times> 'h dev_sys" where
  "relay_tick r d =
     (if \<not> rl_pending r then (r, d)
      else let r1 = r\<lparr>rl_pending := False, rl_relayOn := rl_target r\<rparr> in
        (r1, dev_publish (if rl_relayOn r1 then CycleStarted else CycleCompleted) 0 0
               (gpio_write (rl_gpioPin r1) (rl_relayOn r1) d)))"

definition relay_shutdown :: "relay \<Rightarrow> 'h dev_sys \<Rightarrow> relay \<times> 'h dev_sys" where
  "relay_shutdown r d = relay_tick (setRelay False r) d"


section \<open>UART\<close>

text \<open>
  \<open>tick\<close> reads up to \<open>bytesPerTick\<close> bytes into a buffer of 256: a larger number overruns it and has
  no defined result. The count is converted to an unsigned number, an error included.
\<close>

record uart_module =
  um_port :: int
  um_bytesPerTick :: nat
  um_rxCount :: u32
  um_rxBuf :: bytes

definition kRxBufSize :: nat where
  "kRxBufSize = 256"

definition new_uart_module :: "int \<Rightarrow> nat \<Rightarrow> uart_module" where
  "new_uart_module port n = \<lparr>um_port = port, um_bytesPerTick = n, um_rxCount = 0, um_rxBuf = replicate kRxBufSize 0\<rparr>"

definition uart_module_init :: "('h, 'a) driver_api_scheme \<Rightarrow> uart_module \<Rightarrow> 'h dev_sys \<Rightarrow> bool \<times> 'h dev_sys" where
  "uart_module_init api u d = (True, snd (uart_init api (um_port u) 115200 1 3 d))"

definition uart_module_tick ::
  "('h, 'a) driver_api_scheme \<Rightarrow> uart_module \<Rightarrow> 'h dev_sys \<Rightarrow> (uart_module \<times> 'h dev_sys) option" where
  "uart_module_tick api u d =
     (if kRxBufSize < um_bytesPerTick u then None
      else let (n, bs, d1) = uart_read api (um_port u) (um_bytesPerTick u) d;
               u1 = u\<lparr>um_rxCount := of_int n, um_rxBuf := overlay bs (um_rxBuf u)\<rparr>
           in Some (u1, if 0 < um_rxCount u1 then dev_publish UartDataReceived (um_rxCount u1) 0 d1 else d1))"


section \<open>Modbus\<close>

datatype modbus_mode = Rtu | Tcp

record modbus =
  mb_mode :: modbus_mode
  mb_uartPort :: int
  mb_requestPending :: bool
  mb_pendingSlave :: u8
  mb_pendingAddr :: u16

definition new_modbus :: "modbus_mode \<Rightarrow> int \<Rightarrow> modbus" where
  "new_modbus mode port = \<lparr>mb_mode = mode, mb_uartPort = port, mb_requestPending = False, mb_pendingSlave = 0,
     mb_pendingAddr = 0\<rparr>"

definition modbus_init :: "('h, 'a) driver_api_scheme \<Rightarrow> modbus \<Rightarrow> 'h dev_sys \<Rightarrow> bool \<times> 'h dev_sys" where
  "modbus_init api m d =
     (True, if mb_mode m = Rtu then snd (uart_init api (mb_uartPort m) 9600 17 16 d) else d)"

definition request_frame :: "u8 \<Rightarrow> u16 \<Rightarrow> bytes" where
  "request_frame slave addr =
     (let frame = [slave, 0x03, ucast (drop_bit 8 addr), ucast addr, 0x00, 0x01]; crc = crc16 frame
      in frame @ [ucast crc, ucast (drop_bit 8 crc)])"

definition readHoldingRegister ::
  "('h, 'a) driver_api_scheme \<Rightarrow> u8 \<Rightarrow> u16 \<Rightarrow> u16 \<Rightarrow> modbus \<Rightarrow> 'h dev_sys \<Rightarrow> bool \<times> u16 \<times> 'h dev_sys" where
  "readHoldingRegister api slave addr v m d =
     (let (v1, d1) =
        (if mb_mode m = Rtu then
           let d2 = snd (uart_write api (mb_uartPort m) (request_frame slave addr) d);
               (n, bs, d3) = uart_read api (mb_uartPort m) 7 d2;
               resp = overlay bs (replicate 7 0)
           in (if 5 \<le> n then push_bit 8 (ucast (resp ! 3)) OR ucast (resp ! 4) else v, d3)
         else (v, d))
      in (True, v1, dev_publish ModbusRequest (ucast slave) (ucast addr) d1))"

definition writeCoil :: "u8 \<Rightarrow> u16 \<Rightarrow> bool \<Rightarrow> modbus \<Rightarrow> bool \<times> modbus" where
  "writeCoil slave addr v m =
     (True, m\<lparr>mb_pendingSlave := slave, mb_pendingAddr := addr, mb_requestPending := True\<rparr>)"

definition processRequest :: "('h, 'a) driver_api_scheme \<Rightarrow> modbus \<Rightarrow> 'h dev_sys \<Rightarrow> modbus \<times> 'h dev_sys" where
  "processRequest api m d =
     (let m1 = m\<lparr>mb_requestPending := False\<rparr>
      in (m1, snd (snd (readHoldingRegister api (mb_pendingSlave m1) (mb_pendingAddr m1) 0 m1 d))))"

definition modbus_tick :: "('h, 'a) driver_api_scheme \<Rightarrow> modbus \<Rightarrow> 'h dev_sys \<Rightarrow> modbus \<times> 'h dev_sys" where
  "modbus_tick api m d = (if mb_requestPending m then processRequest api m d else (m, d))"

text \<open>The gateway of \<open>services/src/modbus_gateway.cpp\<close>, which polls ten registers in turn.\<close>

record modbus_gateway =
  gw_attached :: bool
  gw_pollPending :: bool
  gw_pollAddr :: u16

definition new_gateway :: modbus_gateway where
  "new_gateway = \<lparr>gw_attached = False, gw_pollPending = True, gw_pollAddr = 0\<rparr>"

definition gateway_tick ::
  "('h, 'a) driver_api_scheme \<Rightarrow> modbus \<Rightarrow> modbus_gateway \<Rightarrow> 'h dev_sys \<Rightarrow> modbus_gateway \<times> 'h dev_sys" where
  "gateway_tick api m g d =
     (if \<not> gw_pollPending g \<or> \<not> gw_attached g then (g, d)
      else let (_, _, d1) = readHoldingRegister api 1 (gw_pollAddr g) 0 m d
           in (g\<lparr>gw_pollAddr := (gw_pollAddr g + 1) mod 10\<rparr>, d1))"


section \<open>Properties\<close>

lemma lfsr_pow_0 [simp]: "(lfsr p ^^ n) 0 = 0"
  by (induction n) (simp_all add: lfsr_def)

text \<open>A CRC-16 appended low byte first makes the checksum of the whole zero.\<close>

lemma crc16_appended: "crc16 (data @ [ucast (crc16 data), ucast (drop_bit 8 (crc16 data))]) = 0"
proof -
  have "(s XOR ucast (ucast s :: u8)) XOR push_bit 8 (ucast (ucast (drop_bit 8 s) :: u8)) = 0" for s :: u16
    by (rule bit_word_eqI) (auto simp: bit_simps)
  then have "foldl (absorb 0xA001) s [ucast s, ucast (drop_bit 8 s)] = 0" for s :: u16
    by (simp only: absorb_2 lfsr_pow_0)
  moreover have "crc16_byte = absorb 0xA001" by (intro ext crc16_byte_absorb)
  ultimately have "foldl crc16_byte s [ucast s, ucast (drop_bit 8 s)] = 0" for s by (simp only:)
  then show ?thesis by (simp only: crc16_def foldl_append)
qed

text \<open>
  C32: The request frame of \<open>readHoldingRegister\<close> carries a correct checksum: it is eight bytes long,
  the CRC-16 over the whole frame is zero, and it is not zero for any frame that differs from
  it within two consecutive bytes, so a device that checks it refuses such a frame.
\<close>
theorem modbus_frame_checks:
  "length (request_frame slave addr) = 8 \<and> crc16 (request_frame slave addr) = 0 \<and>
   (\<forall>p xs ys q. request_frame slave addr = p @ xs @ q \<and> length ys = length xs \<and> length xs \<le> 2 \<and> ys \<noteq> xs \<longrightarrow>
      crc16 (p @ ys @ q) \<noteq> 0)"
proof (intro conjI allI impI)
  show "length (request_frame slave addr) = 8" by (simp add: request_frame_def Let_def)
  show zero: "crc16 (request_frame slave addr) = 0"
    unfolding request_frame_def Let_def by (rule crc16_appended)
  fix p xs ys q
  assume "request_frame slave addr = p @ xs @ q \<and> length ys = length xs \<and> length xs \<le> 2 \<and> ys \<noteq> xs"
  then show "crc16 (p @ ys @ q) \<noteq> 0"
    using modbuscrc.burst_detected [of ys xs "0xFFFF" p q] zero by (simp add: crc16_def)
qed

theorem modbus_frame_checks_witness:
  "crc16 ([1, 7] @ drop 2 (request_frame 1 0x0203)) \<noteq> 0"
proof -
  have "request_frame 1 0x0203 = [1] @ [3] @ drop 2 (request_frame 1 0x0203)"
    by (simp add: request_frame_def Let_def)
  moreover have "length [7 :: u8] = length [3 :: u8]" "length [3 :: u8] \<le> 2" "[7 :: u8] \<noteq> [3]" by simp_all
  ultimately have "crc16 ([1] @ [7] @ drop 2 (request_frame 1 0x0203)) \<noteq> 0"
    using modbus_frame_checks [of 1 "0x0203"] by blast
  then show ?thesis by simp
qed

text \<open>
  A response is taken at face value. With the port installed, \<open>readHoldingRegister\<close> returns true
  whatever the bus answers; the register is bytes 3 and 4 of any response of at least five
  bytes (the sender, the function code, the exception bit and the checksum are not looked at),
  and keeps its old value after a shorter one.
\<close>
theorem modbus_response_unchecked:
  assumes "mb_mode m = Rtu" and "uart_ready (mb_uartPort m) d"
    and "ua_write_bytes api (mb_uartPort m) (request_frame slave addr) (hardware d) = (w, h1)"
    and "ua_read_bytes api (mb_uartPort m) 7 h1 = (int (length resp), resp, h2)" and "length resp \<le> 7"
  shows "readHoldingRegister api slave addr v m d =
    (True, if 5 \<le> length resp then push_bit 8 (ucast (resp ! 3)) OR ucast (resp ! 4) else v,
     dev_publish ModbusRequest (ucast slave) (ucast addr) (d\<lparr>hardware := h2\<rparr>))"
proof -
  have wr: "uart_write api (mb_uartPort m) (request_frame slave addr) d = (if w < 0 then -1 else w, d\<lparr>hardware := h1\<rparr>)"
    using assms(2,3) by (simp add: uart_write_def)
  have "uart_ready (mb_uartPort m) (d\<lparr>hardware := h1\<rparr>)" using assms(2) by (simp add: uart_ready_def)
  then have rd: "uart_read api (mb_uartPort m) 7 (d\<lparr>hardware := h1\<rparr>) = (int (length resp), resp, d\<lparr>hardware := h2\<rparr>)"
    using assms(4) by (simp add: uart_read_def)
  have "overlay resp (replicate 7 0) ! i = resp ! i" if "i < length resp" for i
    using that by (simp add: overlay_def nth_append)
  then show ?thesis by (simp add: readHoldingRegister_def assms(1) wr rd Let_def)
qed

text \<open>A line that answers every request with an exception response with a wrong checksum.\<close>

definition echo_api :: "bytes driver_api" where
  "echo_api = \<lparr>ua_param_config = (\<lambda>_ _. True), ua_set_pin = (\<lambda>_ _ _. True), ua_driver_install = (\<lambda>_. True),
     ua_read_bytes = (\<lambda>_ _ h. (5, [1, 0x83, 2, 0xC0, 0xF2], h)), ua_write_bytes = (\<lambda>_ bs h. (int (length bs), h @ bs)),
     ga_config = (\<lambda>_ _. True), ga_get_level = (\<lambda>_ _. 0), aa_new_unit = True, aa_line_fitting = False,
     aa_create_scheme = False, aa_oneshot_read = (\<lambda>_ _. Some 2048), pa_reset_reason = 1, pa_timer_get_time = (\<lambda>_. 0),
     pa_wdt_reset = id\<rparr>"

definition demo_dev :: "bytes dev_sys" where
  "demo_dev = \<lparr>installed = [False, True, False], hardware = [], gpio_mode = (\<lambda>_. None), gpio_level = (\<lambda>_. False),
     adcHandle = False, caliEnabled = False, published = []\<rparr>"

theorem modbus_response_unchecked_witness:
  "fst (snd (readHoldingRegister echo_api 1 7 0 (new_modbus Rtu 1) demo_dev)) = 0xC0F2"
  using modbus_response_unchecked [of "new_modbus Rtu 1" demo_dev echo_api 1 7 8 "request_frame 1 7"
      "[1, 0x83, 2, 0xC0, 0xF2]" "request_frame 1 7" 0] modbus_frame_checks [of 1 7]
  by (simp add: new_modbus_def uart_ready_def kMaxPorts_def demo_dev_def echo_api_def)

text \<open>
  A read error of the UART is published as data: on a port that is not installed (as after the
  failed initialization that \<open>init\<close> tolerates), each tick stores -1 as the unsigned count
  0xFFFFFFFF and announces that many received bytes.
\<close>
theorem uart_error_published_as_data:
  assumes "\<not> uart_ready (um_port u) d" and "um_bytesPerTick u \<le> kRxBufSize"
  shows "\<exists>u'. uart_module_tick api u d =
      Some (u', d\<lparr>published := published d @ [(UartDataReceived, 0xFFFFFFFF, 0)]\<rparr>) \<and>
    um_rxCount u' = 0xFFFFFFFF \<and> um_rxBuf u' = um_rxBuf u"
proof -
  have m1: "(- 1 :: u32) = 0xFFFFFFFF" by simp
  let ?u = "u\<lparr>um_rxCount := 0xFFFFFFFF, um_rxBuf := overlay [] (um_rxBuf u)\<rparr>"
  have "uart_module_tick api u d = Some (?u, dev_publish UartDataReceived 0xFFFFFFFF 0 d)"
    using assms by (simp add: uart_module_tick_def uart_read_def Let_def m1)
  then show ?thesis by (intro exI [of _ ?u]) (simp add: dev_publish_def overlay_def)
qed

theorem uart_error_published_as_data_witness:
  "\<exists>u'. uart_module_tick echo_api (new_uart_module 0 16) demo_dev =
      Some (u', demo_dev\<lparr>published := [(UartDataReceived, 0xFFFFFFFF, 0)]\<rparr>)"
  using uart_error_published_as_data [of "new_uart_module 0 16" demo_dev echo_api]
  by (auto simp: new_uart_module_def uart_ready_def demo_dev_def kRxBufSize_def)

end
