(* ===== verification/Net_Modules.thy ===== *)
theory Net_Modules
  imports Drivers
begin

text \<open>
  The network modules of \<open>middleware/src\<close>: BLE, WiFi and MQTT, in both builds.

  What the network functions of the vendor SDK answer during a call is a parameter of the call
  (the records \<open>wifi_env\<close> and \<open>mqtt_env\<close>); the string getter of the key-value store is the function
  \<open>stored\<close> of a key and a buffer size. What the modules publish is the list \<open>published\<close>.
\<close>


section \<open>BLE\<close>

record ble_module =
  bm_eventPending :: bool

definition ble_processEvents :: "ble_module \<Rightarrow> ble_module" where
  "ble_processEvents b = b\<lparr>bm_eventPending := False\<rparr>"

definition ble_tick :: "ble_module \<Rightarrow> ble_module" where
  "ble_tick b = (if \<not> bm_eventPending b then b else ble_processEvents b)"


section \<open>WiFi\<close>

text \<open>
  \<open>wm_timer\<close>: whether the reconnect timer runs with its callback; \<open>wm_station\<close>: the credentials
  given to the driver; \<open>wm_connects\<close>: how often \<open>esp_wifi_connect\<close> was called. The strings of the
  configuration are the characters before the terminator.
\<close>

record wifi_config =
  wc_ssid :: cstring
  wc_password :: cstring

record wifi_module =
  wm_connected :: bool
  wm_reconnectPending :: bool
  wm_eventPending :: bool
  wm_initialized :: bool
  wm_config :: wifi_config
  wm_timer :: bool
  wm_station :: "(cstring \<times> cstring) option"
  wm_connects :: nat

record wifi_env =
  we_esp32 :: bool
  we_connect :: bool
  we_ap_info :: bool

definition default_wifi_config :: wifi_config where
  "default_wifi_config = \<lparr>wc_ssid = str ''TAKT-OS'', wc_password = []\<rparr>"

definition new_wifi :: wifi_module where
  "new_wifi = \<lparr>wm_connected = False, wm_reconnectPending = True, wm_eventPending = False, wm_initialized = False,
     wm_config = default_wifi_config, wm_timer = False, wm_station = None, wm_connects = 0\<rparr>"

definition wifi_setConfig :: "wifi_config \<Rightarrow> wifi_module \<Rightarrow> wifi_module" where
  "wifi_setConfig cfg w = w\<lparr>wm_config := cfg\<rparr>"

definition stored_config :: "(cstring \<Rightarrow> nat \<Rightarrow> cstring option) \<Rightarrow> wifi_config \<Rightarrow> wifi_config" where
  "stored_config stored c =
     (let c1 = (case stored (str ''wifi_ssid'') 32 of Some v \<Rightarrow> c\<lparr>wc_ssid := take 31 v\<rparr> | None \<Rightarrow> c)
      in case stored (str ''wifi_pass'') 64 of Some v \<Rightarrow> c1\<lparr>wc_password := take 63 v\<rparr> | None \<Rightarrow> c1)"

definition wifi_init :: "wifi_env \<Rightarrow> (cstring \<Rightarrow> nat \<Rightarrow> cstring option) \<Rightarrow> wifi_module \<Rightarrow> bool \<times> wifi_module" where
  "wifi_init env stored w =
     (let w1 = (if we_esp32 env
                then let c = stored_config stored (wm_config w)
                     in w\<lparr>wm_config := c, wm_station := Some (take 32 (wc_ssid c), take 64 (wc_password c)),
                          wm_initialized := True\<rparr>
                else w)
      in (True, w1\<lparr>wm_timer := True\<rparr>))"

text \<open>The callback of the reconnect timer.\<close>

definition wifi_on_timeout :: "wifi_module \<Rightarrow> wifi_module" where
  "wifi_on_timeout w = (if \<not> wm_connected w then w\<lparr>wm_reconnectPending := True\<rparr> else w)"

definition wifi_connect :: "wifi_env \<Rightarrow> wifi_module \<Rightarrow> bool \<times> wifi_module" where
  "wifi_connect env w =
     (if we_esp32 env then
        if \<not> wm_initialized w then (False, w)
        else (we_connect env, w\<lparr>wm_connects := wm_connects w + 1\<rparr>)
      else (True, w\<lparr>wm_connected := True\<rparr>))"

definition wifi_processEvents :: "wifi_module \<Rightarrow> wifi_module" where
  "wifi_processEvents w = w\<lparr>wm_eventPending := False\<rparr>"

definition wifi_tick :: "wifi_env \<Rightarrow> wifi_module \<Rightarrow> 'h dev_sys \<Rightarrow> wifi_module \<times> 'h dev_sys" where
  "wifi_tick env w d =
     (let w1 = (if wm_reconnectPending w then
                  let (ok, w') = wifi_connect env (w\<lparr>wm_reconnectPending := False\<rparr>)
                  in if ok then w'\<lparr>wm_eventPending := True\<rparr> else w'
                else w);
          (w2, d2) = (if (\<not> we_esp32 env \<or> we_ap_info env) \<and> \<not> wm_connected w1
                      then (w1\<lparr>wm_connected := True\<rparr>, dev_publish WiFiConnected 0 0 d) else (w1, d))
      in (if wm_eventPending w2 then wifi_processEvents w2 else w2, d2))"

definition wifi_hasWork :: "wifi_module \<Rightarrow> bool" where
  "wifi_hasWork w \<longleftrightarrow> wm_reconnectPending w \<or> wm_eventPending w"

definition wifi_shutdown :: "wifi_module \<Rightarrow> wifi_module" where
  "wifi_shutdown w = w\<lparr>wm_connected := False\<rparr>"

datatype wifi_event = StaDisconnected | StaGotIp | OtherWifiEvent

definition onWifiEvent :: "wifi_env \<Rightarrow> wifi_event \<Rightarrow> wifi_module \<Rightarrow> 'h dev_sys \<Rightarrow> wifi_module \<times> 'h dev_sys" where
  "onWifiEvent env e w d = (if e = StaDisconnected then wifi_tick env w d else (w, d))"

text \<open>What happens to the module between start and shutdown: ticks, timer expiries and driver events.\<close>

datatype wifi_input = WTick wifi_env | WTimeout | WEvent wifi_env wifi_event

fun wifi_step :: "wifi_input \<Rightarrow> wifi_module \<times> 'h dev_sys \<Rightarrow> wifi_module \<times> 'h dev_sys" where
  "wifi_step (WTick env) (w, d) = wifi_tick env w d"
| "wifi_step WTimeout (w, d) = (wifi_on_timeout w, d)"
| "wifi_step (WEvent env e) (w, d) = onWifiEvent env e w d"


section \<open>MQTT\<close>

text \<open>
  \<open>mq_client\<close>: whether the global client handle is set; \<open>mq_module\<close>: whether the event handler knows
  the module. Messages that are handed to the client are collected in \<open>mq_sent\<close>, the topics it is asked to
  subscribe to in \<open>mq_asked\<close>.
\<close>

record mqtt_module =
  mq_msgPending :: bool
  mq_connected :: bool
  mq_brokerUri :: cstring
  mq_pendingTopic :: cstring
  mq_pendingPayload :: cstring
  mq_client :: bool
  mq_module :: bool
  mq_sent :: "(cstring \<times> cstring) list"
  mq_asked :: "cstring list"

record mqtt_env =
  mqe_esp32 :: bool
  mqe_client_ok :: bool
  mqe_outbox_size :: int
  mqe_publish_ok :: bool
  mqe_subscribe_ok :: bool

definition default_broker :: cstring where
  "default_broker = str ''mqtt://broker.hivemq.com:1883''"

definition new_mqtt :: mqtt_module where
  "new_mqtt = \<lparr>mq_msgPending = False, mq_connected = False, mq_brokerUri = default_broker, mq_pendingTopic = [],
     mq_pendingPayload = [], mq_client = False, mq_module = False, mq_sent = [], mq_asked = []\<rparr>"

definition setBroker :: "cstring \<Rightarrow> mqtt_module \<Rightarrow> mqtt_module" where
  "setBroker uri m = m\<lparr>mq_brokerUri := take 127 uri\<rparr>"

definition mqtt_init :: "mqtt_env \<Rightarrow> (cstring \<Rightarrow> nat \<Rightarrow> cstring option) \<Rightarrow> mqtt_module \<Rightarrow> bool \<times> mqtt_module" where
  "mqtt_init env stored m =
     (let m1 = (case stored (str ''mqtt_broker'') 128 of Some uri \<Rightarrow> setBroker uri m | None \<Rightarrow> m)
      in (True, if mqe_esp32 env then m1\<lparr>mq_module := True, mq_client := mqe_client_ok env\<rparr> else m1))"

definition mqtt_publish :: "mqtt_env \<Rightarrow> cstring \<Rightarrow> cstring \<Rightarrow> mqtt_module \<Rightarrow> bool \<times> mqtt_module" where
  "mqtt_publish env topic payload m =
     (if mqe_esp32 env then
        if \<not> mq_client m \<or> \<not> mq_connected m
        then (False, m\<lparr>mq_pendingTopic := take 63 topic, mq_pendingPayload := take 255 payload, mq_msgPending := True\<rparr>)
        else (mqe_publish_ok env, m\<lparr>mq_sent := mq_sent m @ [(topic, payload)]\<rparr>)
      else (mq_connected m, m))"

definition mqtt_tick :: "mqtt_env \<Rightarrow> mqtt_module \<Rightarrow> 'h dev_sys \<Rightarrow> mqtt_module \<times> 'h dev_sys" where
  "mqtt_tick env m d =
     (let (m1, d1) = (if mqe_esp32 env \<and> mq_client m \<and> 0 \<le> mqe_outbox_size env \<and> \<not> mq_connected m
                      then (m\<lparr>mq_connected := True\<rparr>, dev_publish MqttConnected 0 0 d) else (m, d));
          m2 = (if mq_msgPending m1 then
                  let m3 = m1\<lparr>mq_msgPending := False\<rparr> in
                  if mq_pendingTopic m3 \<noteq> []
                  then (snd (mqtt_publish env (mq_pendingTopic m3) (mq_pendingPayload m3) m3))\<lparr>mq_pendingTopic := []\<rparr>
                  else m3
                else m1)
      in (m2, d1))"

definition mqtt_subscribe :: "mqtt_env \<Rightarrow> cstring \<Rightarrow> mqtt_module \<Rightarrow> bool \<times> mqtt_module" where
  "mqtt_subscribe env topic m =
     (if mqe_esp32 env then
        if \<not> mq_client m then (False, m) else (mqe_subscribe_ok env, m\<lparr>mq_asked := mq_asked m @ [topic]\<rparr>)
      else (True, m))"

definition mqtt_hasWork :: "mqtt_module \<Rightarrow> bool" where
  "mqtt_hasWork m \<longleftrightarrow> mq_msgPending m"

definition mqtt_shutdown :: "mqtt_env \<Rightarrow> mqtt_module \<Rightarrow> mqtt_module" where
  "mqtt_shutdown env m =
     (let m1 = (if mqe_esp32 env then m\<lparr>mq_client := False, mq_module := False\<rparr> else m)
      in m1\<lparr>mq_connected := False\<rparr>)"

datatype mqtt_event = MqttEventConnected | MqttEventData | OtherMqttEvent

definition onMqttEvent :: "mqtt_env \<Rightarrow> mqtt_event \<Rightarrow> mqtt_module \<Rightarrow> 'h dev_sys \<Rightarrow> mqtt_module \<times> 'h dev_sys" where
  "onMqttEvent env e m d =
     (if mq_module m \<and> (e = MqttEventConnected \<or> e = MqttEventData) then mqtt_tick env m d else (m, d))"


section \<open>The WiFi state machine\<close>

text \<open>The inputs that run \<open>tick\<close>, with what the vendor answers in them.\<close>

fun tick_env :: "wifi_input \<Rightarrow> wifi_env option" where
  "tick_env (WTick env) = Some env"
| "tick_env WTimeout = None"
| "tick_env (WEvent env e) = (if e = StaDisconnected then Some env else None)"

definition sees_ap :: "wifi_input \<Rightarrow> bool" where
  "sees_ap i \<longleftrightarrow> (case tick_env i of Some env \<Rightarrow> we_ap_info env | None \<Rightarrow> False)"

definition on_esp :: "wifi_input \<Rightarrow> bool" where
  "on_esp i \<longleftrightarrow> (case tick_env i of Some env \<Rightarrow> we_esp32 env | None \<Rightarrow> True)"

lemmas wifi_tick_defs = wifi_tick_def wifi_connect_def wifi_processEvents_def dev_publish_def

text \<open>One step on the ESP32: the module is connected from the first tick that sees an access point.\<close>

lemma wifi_step_esp:
  assumes "on_esp i"
  shows "wm_connected (fst (wifi_step i (w, d))) = (wm_connected w \<or> sees_ap i) \<and>
    snd (wifi_step i (w, d)) =
      (if \<not> wm_connected w \<and> sees_ap i then dev_publish WiFiConnected 0 0 d else d)"
  using assms
  by (cases i) (auto simp: wifi_tick_defs onWifiEvent_def wifi_on_timeout_def sees_ap_def on_esp_def Let_def)

text \<open>A connected module with no pending reconnection stays like that, whatever happens.\<close>

lemma wifi_step_idle:
  assumes "wm_connected w" and "\<not> wm_reconnectPending w"
  shows "\<exists>w'. wifi_step i (w, d) = (w', d) \<and> wm_connected w' \<and> \<not> wm_reconnectPending w' \<and>
    wm_connects w' = wm_connects w"
  using assms
  by (cases i) (auto simp: wifi_tick_defs onWifiEvent_def wifi_on_timeout_def Let_def)

lemma wifi_idle_run:
  assumes "wm_connected w" and "\<not> wm_reconnectPending w"
  shows "\<exists>w'. fold wifi_step is (w, d) = (w', d) \<and> wm_connected w' \<and> \<not> wm_reconnectPending w' \<and>
    wm_connects w' = wm_connects w"
  using assms
proof (induction "is" arbitrary: w)
  case (Cons i "is")
  then obtain w1 where "wifi_step i (w, d) = (w1, d)" "wm_connected w1" "\<not> wm_reconnectPending w1"
    "wm_connects w1 = wm_connects w"
    using wifi_step_idle [of w i d] by blast
  then show ?case using Cons.IH [of w1] by simp
qed simp


text \<open>
  On the host \<open>connect\<close> sets the flag that the announcement looks at: a new module connects in its first tick
  and never announces it.
\<close>

lemma host_never_announces:
  assumes "\<forall>i\<in>set is. case tick_env i of Some env \<Rightarrow> \<not> we_esp32 env | None \<Rightarrow> True" and "wm_reconnectPending w \<or> wm_connected w"
  shows "snd (fold wifi_step is (w, d)) = d"
  using assms
proof (induction "is" arbitrary: w)
  case (Cons i "is")
  let ?s = "wifi_step i (w, d)"
  have s: "snd ?s = d \<and> (wm_reconnectPending (fst ?s) \<or> wm_connected (fst ?s))"
    using Cons.prems
    by (cases i) (auto simp: wifi_tick_defs onWifiEvent_def wifi_on_timeout_def Let_def split: if_splits)
  then show ?case using Cons.IH [of "fst ?s"] Cons.prems(1) by (cases ?s) simp
qed simp


section \<open>Properties\<close>

text \<open>
  C33: The announcement of the connection on the ESP32: starting without a connection, any sequence
  of ticks, timer expiries and driver events publishes WiFiConnected exactly once if one of
  the ticks finds an access point, and not at all otherwise; the module is connected afterwards
  exactly in the first case.
\<close>
theorem wifi_announces_once:
  assumes "\<forall>i\<in>set is. on_esp i" and "\<not> wm_connected w" and "fold wifi_step is (w, d) = (w', d')"
  shows "(wm_connected w' \<longleftrightarrow> (\<exists>i\<in>set is. sees_ap i)) \<and>
    published d' = published d @ (if \<exists>i\<in>set is. sees_ap i then [(WiFiConnected, 0, 0)] else [])"
proof -
  have "wm_connected (fst (fold wifi_step is (w, d))) = (wm_connected w \<or> (\<exists>i\<in>set is. sees_ap i)) \<and>
      published (snd (fold wifi_step is (w, d))) =
        published d @ (if \<not> wm_connected w \<and> (\<exists>i\<in>set is. sees_ap i) then [(WiFiConnected, 0, 0)] else [])"
    for w and d :: "'a dev_sys"
    using assms(1)
  proof (induction "is" arbitrary: w d)
    case (Cons i "is")
    obtain w1 d1 where s: "wifi_step i (w, d) = (w1, d1)" by fastforce
    then show ?case
      using wifi_step_esp [of i w d] Cons.IH [of w1 d1] Cons.prems by (auto simp: dev_publish_def)
  qed simp
  from this [of w d] assms(2,3) show ?thesis by simp
qed

text \<open>
  C37: The module never reconnects. Nothing but \<open>shutdown\<close> clears the connected flag: once the
  first connection is made, no sequence of ticks, timer expiries and driver events, not even
  disconnections with no access point in sight, ever calls \<open>esp_wifi_connect\<close> again, and the
  module goes on to report that it is connected.
\<close>
theorem wifi_never_reconnects:
  assumes "wm_connected w" and "\<not> wm_reconnectPending w" and "fold wifi_step is (w, d) = (w', d')"
  shows "wm_connects w' = wm_connects w \<and> wm_connected w' \<and> d' = d \<and> (\<not> wm_eventPending w' \<longrightarrow> \<not> wifi_hasWork w')"
  using wifi_idle_run [OF assms(1,2), of "is" d] assms(3) by (auto simp: wifi_hasWork_def)

text \<open>
  C34: Settings in the key-value store of the ESP32, for any vendor store that behaves as documented:
  credentials stored under \<open>wifi_ssid\<close> and \<open>wifi_pass\<close> that fit are the ones that WiFi gives to the
  driver; a broker stored under \<open>mqtt_broker\<close> is never used, whatever was stored when, since this
  key is too long for its metadata: MQTT always starts with the broker it was built with.
\<close>
theorem stored_network_settings:
  assumes "nvs_api_ok api spaces view" and "length ns \<le> 15" and "plain 32 ssid" and "plain 64 pass"
    and "n1 = snd (esp_setString api ns ver (str ''wifi_pass'') pass (snd (esp_setString api ns ver (str ''wifi_ssid'') ssid n)))"
    and "n2 = snd (esp_setString api ns ver (str ''mqtt_broker'') uri n1)"
    and "we_esp32 wenv"
  shows "wm_station (snd (wifi_init wenv (\<lambda>k m. esp_getString api ns m k n1) w)) = Some (ssid, pass) \<and>
    mq_brokerUri (snd (mqtt_init menv (\<lambda>k m. esp_getString api ns m k n2) q)) = mq_brokerUri q"
proof
  note facts = esp_string_facts [OF assms(1,2)]
  have keys: "short_key (str ''wifi_ssid'')" "short_key (str ''wifi_pass'')" "str ''wifi_ssid'' \<noteq> str ''wifi_pass''"
    by (simp_all add: short_key_def str_def of_char_def)
  have "esp_getString api ns 64 (str ''wifi_pass'') n1 = Some pass"
    using facts [OF keys(2,2) assms(4)] by (simp add: assms(5))
  moreover have "esp_getString api ns 32 (str ''wifi_ssid'') n1 = Some ssid"
  proof -
    define n0 where "n0 = snd (esp_setString api ns ver (str ''wifi_ssid'') ssid n)"
    have "esp_getString api ns 32 (str ''wifi_ssid'') n0 = Some ssid"
      using facts [OF keys(1,1) assms(3)] by (simp add: n0_def)
    then show ?thesis
      using esp_string_other [OF assms(1,2) keys(1,2,3)] by (simp add: assms(5) n0_def [symmetric])
  qed
  ultimately show "wm_station (snd (wifi_init wenv (\<lambda>k m. esp_getString api ns m k n1) w)) = Some (ssid, pass)"
    using assms(3,4,7) by (simp add: wifi_init_def stored_config_def Let_def plain_def)
  have "15 < length (meta_key (str ''mqtt_broker''))" by (simp add: meta_key_def str_def)
  then have "view n2 ns (meta_key (str ''mqtt_broker'')) = None" using api_absent [OF assms(1)] by blast
  then have "esp_getString api ns 128 (str ''mqtt_broker'') n2 = None"
    by (simp add: esp_getString_def esp_readEntry_blob [OF assms(1)] answer_def)
  then show "mq_brokerUri (snd (mqtt_init menv (\<lambda>k m. esp_getString api ns m k n2) q)) = mq_brokerUri q"
    by (simp add: mqtt_init_def Let_def)
qed

text \<open>An access point that answers, and one that does not; a working broker.\<close>

definition ap_env :: wifi_env where
  "ap_env = \<lparr>we_esp32 = True, we_connect = True, we_ap_info = True\<rparr>"

definition no_ap_env :: wifi_env where
  "no_ap_env = \<lparr>we_esp32 = True, we_connect = True, we_ap_info = False\<rparr>"

definition quiet_dev :: "unit dev_sys" where
  "quiet_dev = \<lparr>installed = [False, False, False], hardware = (), gpio_mode = (\<lambda>_. None), gpio_level = (\<lambda>_. False),
     adcHandle = False, caliEnabled = False, published = []\<rparr>"

definition online_env :: mqtt_env where
  "online_env = \<lparr>mqe_esp32 = True, mqe_client_ok = True, mqe_outbox_size = 0, mqe_publish_ok = True, mqe_subscribe_ok = True\<rparr>"

theorem wifi_announces_once_witness:
  "published (snd (fold wifi_step [WTick no_ap_env, WTimeout, WTick ap_env, WEvent ap_env StaDisconnected] (new_wifi, quiet_dev))) =
     [(WiFiConnected, 0, 0)]"
proof -
  obtain w' d' where f: "fold wifi_step [WTick no_ap_env, WTimeout, WTick ap_env, WEvent ap_env StaDisconnected]
    (new_wifi, quiet_dev) = (w', d')" by fastforce
  show ?thesis
    using wifi_announces_once [OF _ _ f] f
    by (simp add: on_esp_def sees_ap_def ap_env_def no_ap_env_def new_wifi_def quiet_dev_def)
qed

theorem wifi_never_reconnects_witness:
  "\<exists>w'. fold wifi_step [WEvent no_ap_env StaDisconnected, WTimeout, WTick no_ap_env]
      (new_wifi\<lparr>wm_connected := True, wm_reconnectPending := False\<rparr>, quiet_dev) = (w', quiet_dev) \<and>
    wm_connects w' = 0 \<and> wm_connected w'"
proof -
  obtain w' d' where f: "fold wifi_step [WEvent no_ap_env StaDisconnected, WTimeout, WTick no_ap_env]
      (new_wifi\<lparr>wm_connected := True, wm_reconnectPending := False\<rparr>, quiet_dev) = (w', d')" by fastforce
  show ?thesis using wifi_never_reconnects [OF _ _ f] f by (simp add: new_wifi_def)
qed

theorem stored_network_settings_witness:
  "wm_station (snd (wifi_init ap_env (\<lambda>k m. esp_getString sim_api (str ''takt'') m k
      (snd (esp_setString sim_api (str ''takt'') 1 (str ''wifi_pass'') (str ''secret'')
        (snd (esp_setString sim_api (str ''takt'') 1 (str ''wifi_ssid'') (str ''lab'') empty_sim))))) new_wifi)) =
   Some (str ''lab'', str ''secret'')"
proof -
  have "length (str ''takt'') \<le> 15" "plain 32 (str ''lab'')" "plain 64 (str ''secret'')" "we_esp32 ap_env"
    by (simp_all add: str_def plain_def of_char_def ap_env_def)
  from stored_network_settings [OF sim_api_ok this(1-3) refl refl this(4)] show ?thesis by blast
qed

text \<open>
  Of the messages that are published while the broker is not connected only the last one is
  ever sent: each replaces the one pending before it, and the tick that finds the connection
  sends it, cut to 63 and 255 characters, and leaves nothing pending.
\<close>
theorem mqtt_only_last_pending_survives:
  assumes "mqe_esp32 env" and "0 \<le> mqe_outbox_size env" and "mq_client m" and "\<not> mq_connected m" and "ms \<noteq> []" and "fst (last ms) \<noteq> []"
    and "m' = fold (\<lambda>(t, p) m. snd (mqtt_publish env t p m)) ms m"
  shows "mq_sent (fst (mqtt_tick env m' d)) = mq_sent m @ [(take 63 (fst (last ms)), take 255 (snd (last ms)))] \<and>
    \<not> mq_msgPending (fst (mqtt_tick env m' d)) \<and> mq_connected (fst (mqtt_tick env m' d))"
proof -
  let ?f = "fold (\<lambda>(t, p) m. snd (mqtt_publish env t p m))"
  have fold: "ms = [] \<or> (mq_client (?f ms m) \<and> \<not> mq_connected (?f ms m) \<and> mq_msgPending (?f ms m) \<and>
      mq_sent (?f ms m) = mq_sent m \<and> mq_pendingTopic (?f ms m) = take 63 (fst (last ms)) \<and>
      mq_pendingPayload (?f ms m) = take 255 (snd (last ms)))"
    using assms(3,4)
  proof (induction ms arbitrary: m)
    case (Cons x ms)
    obtain t p where x: "x = (t, p)" by (cases x)
    let ?m = "m\<lparr>mq_pendingTopic := take 63 t, mq_pendingPayload := take 255 p, mq_msgPending := True\<rparr>"
    have "snd (mqtt_publish env t p m) = ?m" using Cons.prems assms(1) by (simp add: mqtt_publish_def)
    then show ?case using Cons.IH [of ?m] Cons.prems by (cases "ms = []") (simp_all add: x)
  qed simp
  have "take 63 (fst (last ms)) \<noteq> []" using assms(6) by simp
  then show ?thesis
    using fold assms(1,2,5) by (simp add: assms(7) mqtt_tick_def Let_def mqtt_publish_def)
qed

definition demo_mqtt :: mqtt_module where
  "demo_mqtt = new_mqtt\<lparr>mq_client := True\<rparr>"

theorem mqtt_only_last_pending_survives_witness:
  "mq_sent (fst (mqtt_tick online_env
     (fold (\<lambda>(t, p) m. snd (mqtt_publish online_env t p m))
       [([1], [2]), ([3], [4])] demo_mqtt) quiet_dev)) = [([3], [4])]"
  using mqtt_only_last_pending_survives [of "online_env"
      demo_mqtt "[([1], [2]), ([3], [4])]" _ quiet_dev, OF _ _ _ _ _ _ refl]
  by (simp add: demo_mqtt_def new_mqtt_def online_env_def)

end
