(* ===== verification/Script_Engine.thy ===== *)
theory Script_Engine
  imports Ring_Queue
begin

text \<open>
  The script engine: \<open>middleware/include/takt/modules/script_engine_module.hpp\<close> and
  \<open>middleware/src/script_engine_module.cpp\<close>, a second provider of the queue contract of
  \<open>Ring_Queue\<close>. Executing an instruction only logs it; the model returns the executed ones.
\<close>

type_synonym instruction = "u32 \<times> u32"

record script_engine =
  se_queue :: "instruction list"
  se_head :: nat
  se_tail :: nat
  se_count :: nat
  se_workPending :: bool

definition kQueueSize :: nat where
  "kQueueSize = 64"

definition new_script_engine :: script_engine where
  "new_script_engine = \<lparr>se_queue = replicate kQueueSize (0, 0), se_head = 0, se_tail = 0, se_count = 0,
     se_workPending = False\<rparr>"

definition enqueueInstruction :: "u32 \<Rightarrow> u32 \<Rightarrow> script_engine \<Rightarrow> script_engine" where
  "enqueueInstruction opcode operand e =
     (if kQueueSize \<le> se_count e then e
      else e\<lparr>se_queue := (se_queue e)[se_tail e := (opcode, operand)],
             se_tail := (se_tail e + 1) mod kQueueSize, se_count := se_count e + 1, se_workPending := True\<rparr>)"

definition executeNextInstruction :: "script_engine \<Rightarrow> instruction option \<times> script_engine" where
  "executeNextInstruction e =
     (if se_count e = 0 then (None, e)
      else let instr = se_queue e ! se_head e;
               e1 = e\<lparr>se_head := (se_head e + 1) mod kQueueSize, se_count := se_count e - 1\<rparr>
           in (Some instr, if se_count e1 = 0 then e1\<lparr>se_workPending := False\<rparr> else e1))"

function script_tick :: "script_engine \<Rightarrow> instruction list \<times> script_engine" where
  "script_tick e =
     (if se_workPending e then
        (case executeNextInstruction e of
           (None, e1) \<Rightarrow> ([], e1)
         | (Some i, e1) \<Rightarrow> (let (is, e2) = script_tick e1 in (i # is, e2)))
      else ([], e))"
  by pat_completeness auto
termination
  by (relation "measure se_count") (auto simp: executeNextInstruction_def Let_def split: if_splits)

declare script_tick.simps [simp del]

definition script_shutdown :: "script_engine \<Rightarrow> script_engine" where
  "script_shutdown e = e\<lparr>se_count := 0, se_workPending := False\<rparr>"


section \<open>The queue\<close>

definition wf_engine :: "script_engine \<Rightarrow> bool" where
  "wf_engine e \<longleftrightarrow> length (se_queue e) = kQueueSize \<and> se_head e < kQueueSize \<and> se_count e \<le> kQueueSize \<and>
     se_tail e = (se_head e + se_count e) mod kQueueSize \<and> (se_workPending e \<longleftrightarrow> 0 < se_count e)"

definition pending :: "script_engine \<Rightarrow> instruction list" where
  "pending e = ring (se_queue e) (se_head e) (se_count e)"

lemma wf_new_script_engine [takt_inv]: "wf_engine new_script_engine"
  by (simp add: wf_engine_def new_script_engine_def kQueueSize_def)

lemma length_pending [simp]: "length (pending e) = se_count e"
  by (simp add: pending_def)

lemma pending_enqueue:
  assumes "wf_engine e" and "se_count e < kQueueSize"
  shows "pending (enqueueInstruction op arg e) = pending e @ [(op, arg)]"
  using assms ring_push [of "se_count e" "se_queue e" "se_tail e" "se_head e" "(op, arg)"]
  by (simp add: wf_engine_def pending_def enqueueInstruction_def)

lemma wf_enqueueInstruction [takt_inv]: "wf_engine e \<Longrightarrow> wf_engine (enqueueInstruction op arg e)"
  by (auto simp: wf_engine_def enqueueInstruction_def mod_simps)

lemma execute_pending:
  assumes "wf_engine e" and "pending e \<noteq> []"
  shows "fst (executeNextInstruction e) = Some (hd (pending e)) \<and>
    pending (snd (executeNextInstruction e)) = tl (pending e)"
proof -
  have c: "0 < se_count e" using assms(2) by (metis gr0I length_0_conv length_pending)
  have "pending e = se_queue e ! se_head e # ring (se_queue e) ((se_head e + 1) mod kQueueSize) (se_count e - 1)"
    using ring_pop [OF c, of "se_queue e" "se_head e"] assms(1) by (simp add: pending_def wf_engine_def)
  then show ?thesis using c by (simp add: executeNextInstruction_def Let_def pending_def)
qed

lemma wf_execute [takt_inv]:
  assumes "wf_engine e"
  shows "wf_engine (snd (executeNextInstruction e))"
proof (cases "se_count e = 0")
  case False
  then have "(se_head e + 1) + (se_count e - 1) = se_head e + se_count e" by simp
  then have "((se_head e + 1) mod kQueueSize + (se_count e - 1)) mod kQueueSize = (se_head e + se_count e) mod kQueueSize"
    by (metis mod_add_left_eq)
  then show ?thesis
    using assms False
    by (cases "se_count e = 1") (auto simp: wf_engine_def executeNextInstruction_def Let_def)
qed (use assms in \<open>simp add: executeNextInstruction_def\<close>)

lemma wf_bound: "wf_engine e \<Longrightarrow> se_count e \<le> kQueueSize"
  by (simp add: wf_engine_def)

interpretation script_queue: fifo
  "\<lambda>(op, arg) e. (se_count e < kQueueSize, enqueueInstruction op arg e)"
  "\<lambda>e. (the (fst (executeNextInstruction e)), snd (executeNextInstruction e))" pending wf_engine kQueueSize
proof
  show "(case x of (op, arg) \<Rightarrow> \<lambda>e. (se_count e < kQueueSize, enqueueInstruction op arg e)) q = (False, q)"
    if "wf_engine q" "length (pending q) = kQueueSize" for q x
    using that by (simp add: enqueueInstruction_def split: prod.split)
qed (auto simp: pending_enqueue wf_enqueueInstruction execute_pending wf_execute wf_bound)


section \<open>Properties\<close>

lemma tick_drains:
  assumes "wf_engine e"
  shows "fst (script_tick e) = pending e \<and> wf_engine (snd (script_tick e)) \<and> se_count (snd (script_tick e)) = 0"
  using assms
proof (induction e rule: script_tick.induct)
  case (1 e)
  show ?case
  proof (cases "se_workPending e")
    case True
    then have ne: "pending e \<noteq> []" using 1(2) by (metis length_0_conv length_pending less_numeral_extra(3) wf_engine_def)
    obtain i e1 where x: "executeNextInstruction e = (Some i, e1)"
      using execute_pending [OF 1(2) ne] by (metis prod.collapse)
    have "i = hd (pending e)" "pending e1 = tl (pending e)" "wf_engine e1"
      using execute_pending [OF 1(2) ne] wf_execute [OF 1(2)] x by simp_all
    then show ?thesis
      using 1(1) [OF True x [symmetric] refl] True ne x
      by (subst (1 2 3) script_tick.simps) (auto simp: Let_def split: prod.split)
  next
    case False
    then show ?thesis using 1(2) by (subst (1 2 3) script_tick.simps) (simp add: wf_engine_def pending_def)
  qed
qed

text \<open>
  C31: The script engine is lossless up to its 64 places: instructions that are enqueued, in any
  number of calls, are executed by the next \<open>tick\<close> in the order of the calls, each once, as far as
  there was room; what does not fit is dropped silently. The tick ends with an empty queue.
\<close>
theorem script_runs_in_order:
  assumes "wf_engine e" and "e' = fold (\<lambda>(op, arg). enqueueInstruction op arg) is e"
  shows "fst (script_tick e') = pending e @ take (kQueueSize - length (pending e)) is \<and>
    wf_engine (snd (script_tick e')) \<and> pending (snd (script_tick e')) = []"
proof -
  have "fold (\<lambda>(op, arg). enqueueInstruction op arg) is e =
      fold (\<lambda>x q. snd ((case x of (op, arg) \<Rightarrow> \<lambda>e. (se_count e < kQueueSize, enqueueInstruction op arg e)) q)) is e"
    by (intro arg_cong [where f = "\<lambda>f. fold f is e"]) (auto simp: fun_eq_iff)
  then have "wf_engine e' \<and> pending e' = pending e @ take (kQueueSize - length (pending e)) is"
    using script_queue.enq_list [OF assms(1), of "is"] assms(2) by simp
  then show ?thesis using tick_drains [of e'] by (simp add: pending_def)
qed

theorem script_runs_in_order_witness:
  "fst (script_tick (fold (\<lambda>(op, arg). enqueueInstruction op arg) [(7, 1), (8, 2)] new_script_engine)) = [(7, 1), (8, 2)]"
  using script_runs_in_order [OF wf_new_script_engine refl, of "[(7, 1), (8, 2)]"]
  by (simp add: pending_def new_script_engine_def kQueueSize_def)

text \<open>
  \<open>shutdown\<close> with instructions still queued corrupts the queue for the next start: it resets the
  count and not the indices, so that afterwards an enqueued instruction is not the one that runs;
  the first of the discarded ones runs in its place.
\<close>
theorem shutdown_replays_stale_instruction:
  assumes "wf_engine e" and "0 < se_count e" and "se_count e < kQueueSize"
  shows "fst (script_tick (enqueueInstruction op arg (script_shutdown e))) = [hd (pending e)]"
proof -
  define e1 where "e1 = enqueueInstruction op arg (script_shutdown e)"
  have ne: "se_tail e \<noteq> se_head e"
  proof
    assume "se_tail e = se_head e"
    then have "(se_head e + se_count e) mod kQueueSize = (se_head e + 0) mod kQueueSize"
      using assms(1) by (simp add: wf_engine_def)
    from ring_mod_inj [OF assms(3) _ this] assms(2) show False by (simp add: kQueueSize_def)
  qed
  have hd: "hd (pending e) = se_queue e ! se_head e"
    using ring_pop [OF assms(2), of "se_queue e" "se_head e"] assms(1) by (simp add: pending_def wf_engine_def)
  have e1: "se_workPending e1" "se_count e1 = 1" "se_queue e1 ! se_head e1 = hd (pending e)"
    using ne assms(1) by (simp_all add: e1_def enqueueInstruction_def script_shutdown_def kQueueSize_def hd)
  obtain e2 where x: "executeNextInstruction e1 = (Some (hd (pending e)), e2)" and "\<not> se_workPending e2"
    using e1 by (auto simp: executeNextInstruction_def Let_def)
  then have "script_tick e2 = ([], e2)" by (subst script_tick.simps) simp
  then show ?thesis using e1(1) x by (subst script_tick.simps) (simp add: e1_def [symmetric])
qed

theorem shutdown_replays_stale_instruction_witness:
  "fst (script_tick (enqueueInstruction 9 9 (script_shutdown (enqueueInstruction 7 1 new_script_engine)))) = [(7, 1)]"
proof -
  have w: "wf_engine (enqueueInstruction 7 1 new_script_engine)" by (simp add: takt_inv)
  have c: "se_count (enqueueInstruction 7 1 new_script_engine) = 1"
    by (simp add: enqueueInstruction_def new_script_engine_def kQueueSize_def)
  have p: "pending (enqueueInstruction 7 1 new_script_engine) = [(7, 1)]"
    using pending_enqueue [OF wf_new_script_engine, of 7 1]
    by (simp add: new_script_engine_def kQueueSize_def pending_def)
  show ?thesis using shutdown_replays_stale_instruction [OF w, of 9 9] c p by (simp add: kQueueSize_def)
qed

end
