(* ===== verification/Services.thy ===== *)
theory Services
  imports Cache_Mgr Nvs Event_Bus
begin

text \<open>
  Two services on top of the kernel: the telemetry service, a client of the cache
  (\<open>services/src/telemetry_service.cpp\<close>), and the configuration manager, a client of the
  key-value store (\<open>services/src/config_manager.cpp\<close>), in the host build.
\<close>


section \<open>Telemetry\<close>

record telemetry_record =
  tr_timestamp :: u32
  tr_sensorValue :: u32
  tr_relayState :: u8
  tr_reserved :: bytes

definition record_bytes :: "telemetry_record \<Rightarrow> bytes" where
  "record_bytes r = u32_bytes (tr_timestamp r) @ u32_bytes (tr_sensorValue r) @ [tr_relayState r] @ tr_reserved r"

record telemetry =
  tl_cache :: cache
  tl_uploadIntervalMs :: u32
  tl_lastUploadMs :: u32
  tl_flushPending :: bool
  tl_buffer :: "telemetry_record list"
  tl_recordCount :: nat

definition kMaxRecords :: nat where
  "kMaxRecords = 64"

definition kTelemetryFlashOffset :: u32 where
  "kTelemetryFlashOffset = 0"

definition new_telemetry :: "memory \<Rightarrow> nat \<Rightarrow> telemetry" where
  "new_telemetry mem size_pool = \<lparr>tl_cache = new_cache mem size_pool 256, tl_uploadIntervalMs = 60000,
     tl_lastUploadMs = 0, tl_flushPending = False,
     tl_buffer = replicate kMaxRecords \<lparr>tr_timestamp = 0, tr_sensorValue = 0, tr_relayState = 0, tr_reserved = [0, 0, 0]\<rparr>,
     tl_recordCount = 0\<rparr>"

definition record_telemetry :: "telemetry_record \<Rightarrow> telemetry \<Rightarrow> telemetry" where
  "record_telemetry r t =
     (let t1 = (if tl_recordCount t < kMaxRecords
                then t\<lparr>tl_buffer := (tl_buffer t)[tl_recordCount t := r], tl_recordCount := tl_recordCount t + 1\<rparr> else t)
      in t1\<lparr>tl_flushPending := True\<rparr>)"

definition recorded_bytes :: "telemetry \<Rightarrow> bytes" where
  "recorded_bytes t = concat (map record_bytes (take (tl_recordCount t) (tl_buffer t)))"

text \<open>The results of \<open>write\<close> and \<open>flush\<close> are not looked at.\<close>

definition flushToFlash :: "telemetry \<Rightarrow> ('f, 'z) storage_sys_scheme \<Rightarrow> (telemetry \<times> ('f, 'z) storage_sys_scheme) option" where
  "flushToFlash t s =
     (if tl_recordCount t = 0 then Some (t, s)
      else do { (_, c1, s1) \<leftarrow> cache_write kTelemetryFlashOffset (recorded_bytes t) (tl_cache t) s;
                (_, c2, s2) \<leftarrow> cache_flush c1 s1;
                Some (t\<lparr>tl_cache := c2, tl_recordCount := 0\<rparr>, s2) })"

definition uploadBatch :: "telemetry \<Rightarrow> ('f, 'z) storage_sys_scheme \<Rightarrow> (telemetry \<times> ('f, 'z) storage_sys_scheme) option" where
  "uploadBatch t s = do { (t1, s1) \<leftarrow> flushToFlash t s; Some (t1\<lparr>tl_flushPending := False\<rparr>, s1) }"

definition uptime_ms :: "u64 \<Rightarrow> u32" where
  "uptime_ms us = ucast (us div 1000)"

definition upload_due :: "u64 \<Rightarrow> telemetry \<Rightarrow> bool" where
  "upload_due us t \<longleftrightarrow> tl_flushPending t \<and> tl_uploadIntervalMs t \<le> uptime_ms us - tl_lastUploadMs t"

definition telemetry_tick :: "u64 \<Rightarrow> telemetry \<Rightarrow> ('f, 'z) storage_sys_scheme \<Rightarrow> (telemetry \<times> ('f, 'z) storage_sys_scheme) option" where
  "telemetry_tick us t s =
     (if upload_due us t
      then do { (t1, s1) \<leftarrow> uploadBatch t s; Some (t1\<lparr>tl_lastUploadMs := uptime_ms us\<rparr>, s1) }
      else Some (t, s))"

definition telemetry_shutdown :: "telemetry \<Rightarrow> ('f, 'z) storage_sys_scheme \<Rightarrow> (telemetry \<times> ('f, 'z) storage_sys_scheme) option" where
  "telemetry_shutdown t s = flushToFlash t s"


section \<open>Remote configuration\<close>

record config_sys =
  cf_applyPending :: bool
  cf_pendingJson :: cstring
  cf_changeCb :: bool
  cf_changed :: "cstring list"
  cf_nvs :: nvs_host
  cf_published :: "event_name list"

definition config_setString :: "cstring \<Rightarrow> cstring \<Rightarrow> config_sys \<Rightarrow> bool \<times> config_sys" where
  "config_setString key v c =
     (let (ok, n) = nvs_setString key v 1 (cf_nvs c); c1 = c\<lparr>cf_nvs := n\<rparr> in
      if \<not> ok then (False, c1)
      else (True, if cf_changeCb c1 then c1\<lparr>cf_changed := cf_changed c1 @ [key]\<rparr> else c1))"

definition config_getString :: "cstring \<Rightarrow> bytes \<Rightarrow> config_sys \<Rightarrow> bool \<times> bytes" where
  "config_getString key buf c = nvs_getString key buf (cf_nvs c)"

text \<open>\<open>json\<close> is the text before its terminator, so \<open>strncpy\<close> copies its first 511 characters.\<close>

definition applyRemoteConfig :: "cstring \<Rightarrow> config_sys \<Rightarrow> config_sys" where
  "applyRemoteConfig json c = c\<lparr>cf_pendingJson := take 511 json, cf_applyPending := True\<rparr>"

text \<open>
  The tokens that the \<open>strtok_r\<close> loop yields: the longest runs without the delimiter.
  \<open>cut_at\<close> is \<open>strchr\<close> and the terminator stored there.
\<close>

function strtok :: "u8 \<Rightarrow> cstring \<Rightarrow> cstring list" where
  "strtok d s =
     (let s1 = dropWhile (\<lambda>x. x = d) s in
      if s1 = [] then [] else takeWhile (\<lambda>x. x \<noteq> d) s1 # strtok d (dropWhile (\<lambda>x. x \<noteq> d) s1))"
  by pat_completeness auto
termination
proof (relation "measure (\<lambda>(d, s). length s)", goal_cases)
  case (2 d s s1)
  then have "hd s1 \<noteq> d" using hd_dropWhile [of "\<lambda>x. x = d" s] by simp
  then have "length (dropWhile (\<lambda>x. x \<noteq> d) s1) < length s1"
    using 2(2) by (cases s1) (simp_all add: length_dropWhile_le le_imp_less_Suc)
  also have "length s1 \<le> length s" using 2(1) by (simp add: length_dropWhile_le)
  finally show ?case by simp
qed simp

declare strtok.simps [simp del]

definition cut_at :: "u8 \<Rightarrow> cstring \<Rightarrow> (cstring \<times> cstring) option" where
  "cut_at eq tok = (if eq \<in> set tok then Some (takeWhile (\<lambda>x. x \<noteq> eq) tok, tl (dropWhile (\<lambda>x. x \<noteq> eq) tok)) else None)"

definition semicolon :: u8 where
  "semicolon = 59"

definition equals_sign :: u8 where
  "equals_sign = 61"

definition apply_token :: "cstring \<Rightarrow> config_sys \<Rightarrow> config_sys" where
  "apply_token tok c = (case cut_at equals_sign tok of None \<Rightarrow> c | Some (k, v) \<Rightarrow> snd (config_setString k v c))"

text \<open>The text itself is not read again before the next \<open>applyRemoteConfig\<close> replaces it.\<close>

definition applyPending :: "config_sys \<Rightarrow> config_sys" where
  "applyPending c =
     (let c1 = fold apply_token (strtok semicolon (cf_pendingJson c)) (c\<lparr>cf_applyPending := False\<rparr>)
      in c1\<lparr>cf_published := cf_published c1 @ [SystemReady]\<rparr>)"

definition config_tick :: "config_sys \<Rightarrow> config_sys" where
  "config_tick c = (if cf_applyPending c then applyPending c else c)"

definition config_shutdown :: "config_sys \<Rightarrow> config_sys" where
  "config_shutdown c = c\<lparr>cf_nvs := snd (nvs_backup (cf_nvs c))\<rparr>"


section \<open>Parsing a configuration\<close>

text \<open>The text of a list of pairs, and the pairs for which it is unambiguous.\<close>

definition print_config :: "(cstring \<times> cstring) list \<Rightarrow> cstring" where
  "print_config kvs = concat (map (\<lambda>(k, v). k @ [equals_sign] @ v @ [semicolon]) kvs)"

definition pair_ok :: "cstring \<times> cstring \<Rightarrow> bool" where
  "pair_ok kv \<longleftrightarrow> equals_sign \<notin> set (fst kv) \<and> semicolon \<notin> set (fst kv) \<and> semicolon \<notin> set (snd kv)"

lemma strtok_token:
  assumes "semicolon \<notin> set tok" and "tok \<noteq> []"
  shows "strtok semicolon (tok @ semicolon # rest) = tok # strtok semicolon (semicolon # rest)"
proof -
  have "dropWhile (\<lambda>x. x = semicolon) (tok @ semicolon # rest) = tok @ semicolon # rest"
    using assms by (cases tok) auto
  moreover have "takeWhile (\<lambda>x. x \<noteq> semicolon) (tok @ semicolon # rest) = tok"
    and "dropWhile (\<lambda>x. x \<noteq> semicolon) (tok @ semicolon # rest) = semicolon # rest"
    using assms(1) by (auto simp: takeWhile_append dropWhile_append)
  ultimately show ?thesis by (subst strtok.simps) (simp add: Let_def)
qed

lemma strtok_delimiter: "strtok d (d # rest) = strtok d rest"
  by (subst (1 2) strtok.simps) simp

lemma strtok_print:
  assumes "\<forall>kv\<in>set kvs. pair_ok kv"
  shows "strtok semicolon (print_config kvs) = map (\<lambda>(k, v). k @ equals_sign # v) kvs"
  using assms
proof (induction kvs)
  case Nil
  show ?case by (subst strtok.simps) (simp add: print_config_def)
next
  case (Cons kv kvs)
  obtain k v where kv: "kv = (k, v)" by (cases kv)
  have "semicolon \<noteq> equals_sign" by (simp add: semicolon_def equals_sign_def)
  then have "semicolon \<notin> set (k @ equals_sign # v)" using Cons.prems by (simp add: kv pair_ok_def)
  from strtok_token [OF this, of "print_config kvs"] show ?case
    using Cons by (simp add: kv print_config_def strtok_delimiter)
qed

lemma cut_at_pair: "eq \<notin> set k \<Longrightarrow> cut_at eq (k @ eq # v) = Some (k, v)"
  by (auto simp: cut_at_def takeWhile_append dropWhile_append)

lemma apply_tokens:
  assumes "\<forall>kv\<in>set kvs. pair_ok kv"
  shows "fold apply_token (map (\<lambda>(k, v). k @ equals_sign # v) kvs) c =
    c\<lparr>cf_nvs := host_strings.put_all 1 kvs (cf_nvs c),
      cf_changed := cf_changed c @ (if cf_changeCb c then map fst kvs else [])\<rparr>"
  using assms
proof (induction kvs arbitrary: c)
  case (Cons kv kvs)
  obtain k v where kv: "kv = (k, v)" by (cases kv)
  have "apply_token (k @ equals_sign # v) c =
      c\<lparr>cf_nvs := snd (host_put_string 1 k v (cf_nvs c)), cf_changed := cf_changed c @ (if cf_changeCb c then [k] else [])\<rparr>"
    using cut_at_pair [of equals_sign k v] Cons.prems
    by (simp add: kv pair_ok_def apply_token_def config_setString_def host_put_string_def nvs_setString_def
        writeEntry_def Let_def)
  then show ?case using Cons by (simp add: kv host_strings.put_all_def)
qed (simp add: host_strings.put_all_def)


section \<open>Properties\<close>

text \<open>
  C20: Remote configuration round trip: a configuration text made of key=value pairs that fits in
  the 511 characters of the buffer is parsed back to exactly these pairs. After \<open>applyRemoteConfig\<close>
  and the next \<open>tick\<close> every key holds its last value in the key-value store, all other keys keep
  theirs, and the change callback was called for each pair in order.
\<close>
theorem config_text_applied:
  assumes "\<forall>kv\<in>set kvs. pair_ok kv \<and> plain m (snd kv)" and "length (print_config kvs) \<le> 511"
    and "c' = config_tick (applyRemoteConfig (print_config kvs) c)"
  shows "host_get_string m key (cf_nvs c') =
      (case map_of (rev kvs) key of Some v \<Rightarrow> Some v | None \<Rightarrow> host_get_string m key (cf_nvs c)) \<and>
    cf_changed c' = cf_changed c @ (if cf_changeCb c then map fst kvs else []) \<and> \<not> cf_applyPending c'"
proof -
  have ok: "\<forall>kv\<in>set kvs. pair_ok kv" and vals: "\<forall>(k, v)\<in>set kvs. True \<and> plain m v" using assms(1) by auto
  have "cf_nvs c' = host_strings.put_all 1 kvs (cf_nvs c) \<and>
      cf_changed c' = cf_changed c @ (if cf_changeCb c then map fst kvs else []) \<and> \<not> cf_applyPending c'"
    using assms(2)
    by (simp add: assms(3) config_tick_def applyRemoteConfig_def applyPending_def Let_def strtok_print [OF ok]
        apply_tokens [OF ok])
  then show ?thesis using host_strings.get_put_all [OF TrueI vals, of key 1 "cf_nvs c"] by simp
qed

definition demo_config :: config_sys where
  "demo_config = \<lparr>cf_applyPending = False, cf_pendingJson = [], cf_changeCb = True, cf_changed = [],
     cf_nvs = new_nvs_host, cf_published = []\<rparr>"

theorem config_text_applied_witness:
  "host_get_string 32 (str ''ssid'') (cf_nvs (config_tick (applyRemoteConfig
     (print_config [(str ''ssid'', str ''lab''), (str ''pass'', str ''x=y'')]) demo_config))) = Some (str ''lab'')"
proof -
  let ?kvs = "[(str ''ssid'', str ''lab''), (str ''pass'', str ''x=y'')]"
  have a: "\<forall>kv\<in>set ?kvs. pair_ok kv \<and> plain 32 (snd kv)"
    by (simp add: pair_ok_def plain_def str_def semicolon_def equals_sign_def)
  have b: "length (print_config ?kvs) \<le> 511" by (simp add: print_config_def str_def)
  show ?thesis
    using config_text_applied [OF a b refl, of "str ''ssid''" demo_config] by (simp add: str_def)
qed

text \<open>
  A telemetry batch of more than 21 records is truncated: \<open>flushToFlash\<close> hands all recorded bytes
  to one cache write, which takes what fits in the first line of 256 bytes; the shorter result is
  ignored and the records are dropped from memory. A read through the cache then returns the
  first 256 bytes of the batch, and nothing holds the rest.
\<close>
theorem telemetry_batch_truncated:
  assumes "cache_inv (tl_cache t)" and "lineSize (tl_cache t) = 256" and "0 < tl_recordCount t"
    and "256 < length (recorded_bytes t)"
  shows "\<exists>t' s' c2. flushToFlash t s = Some (t', s') \<and> tl_recordCount t' = 0 \<and>
    cache_read kTelemetryFlashOffset (length (recorded_bytes t)) (tl_cache t') s' =
      Some (256, take 256 (recorded_bytes t), c2, s')"
proof -
  let ?b = "recorded_bytes t" and ?c = "tl_cache t"
  have n: "copy_len kTelemetryFlashOffset (length ?b) c = 256" if "lineSize c = 256" for c
    using that assms(4) by (simp add: copy_len_def kTelemetryFlashOffset_def)
  obtain c1 i s1 where w: "cache_write kTelemetryFlashOffset ?b ?c s = Some (256, c1, s1)" and inv1: "cache_inv c1"
    and i: "i < entryCount c1" "ce_key (lines c1 ! i) = line_key kTelemetryFlashOffset c1"
    and z: "lineSize c1 = 256" and p: "pool c1 = mem_put (pool ?c) (i * 256) (take 256 ?b)"
    using cache_write_line [OF assms(1), of kTelemetryFlashOffset ?b s] n [OF assms(2)] assms(2)
    by (auto simp: kTelemetryFlashOffset_def)
  obtain rc c2 s2 where f: "cache_flush c1 s1 = Some (rc, c2, s2)" using flush_defined [OF inv1] by blast
  note same = flush_same [OF f, THEN conjunct1] and p2 = flush_same [OF f, THEN conjunct2]
  have inv2: "cache_inv c2" by (rule same_keys_inv [OF same inv1])
  have z2: "lineSize c2 = 256" using same z by (simp add: same_keys_def)
  have i2: "i < entryCount c2" "ce_key (lines c2 ! i) = line_key kTelemetryFlashOffset c2"
    using same i inv1 same_keys_nth(1) [OF same, of i] line_key_same [OF same]
    by (auto simp: same_keys_def cache_inv_def)
  have "length (take 256 ?b) = 256" using assms(4) by simp
  then have "mem_get (pool c2) (i * lineSize c2 + unat kTelemetryFlashOffset mod lineSize c2) 256 = take 256 ?b"
    unfolding p2 p z2 by (metis kTelemetryFlashOffset_def mem_get_put mod_0 add_0_right unsigned_0)
  then obtain c3 where "cache_read kTelemetryFlashOffset (length ?b) c2 s2 = Some (256, take 256 ?b, c3, s2)"
    using cache_read_hit [OF inv2 i2, of "length ?b" s2] n [OF z2] by auto
  then show ?thesis
    using w f assms(3) by (simp add: flushToFlash_def)
qed

definition demo_telemetry :: telemetry where
  "demo_telemetry = (new_telemetry (\<lambda>_. 0) 16384)\<lparr>tl_recordCount := 64\<rparr>"

theorem telemetry_batch_truncated_witness:
  "\<exists>t' s'. flushToFlash demo_telemetry (new_storage ()) = Some (t', s') \<and> tl_recordCount t' = 0"
proof -
  have inv: "cache_inv (tl_cache demo_telemetry)"
    unfolding demo_telemetry_def new_telemetry_def by (simp add: new_cache_inv kMaxLines_def)
  have len: "length (recorded_bytes demo_telemetry) = 768"
    by (simp add: demo_telemetry_def new_telemetry_def recorded_bytes_def kMaxRecords_def length_concat
        record_bytes_def sum_list_replicate)
  show ?thesis
    using telemetry_batch_truncated [OF inv, of "new_storage ()"] len
    by (fastforce simp: demo_telemetry_def new_telemetry_def new_cache_def)
qed

text \<open>
  The upload interval is measured correctly across the wrap of the millisecond counter: if the
  last upload was at \<open>us0\<close> and less than 2^32 ms have passed, an upload with pending records is due
  exactly when the interval has passed.
\<close>
theorem upload_due_across_wrap:
  assumes "tl_lastUploadMs t = uptime_ms us0" and "unat us0 div 1000 \<le> unat us div 1000"
    and "unat us div 1000 - unat us0 div 1000 < 2 ^ 32"
  shows "upload_due us t \<longleftrightarrow>
    tl_flushPending t \<and> unat (tl_uploadIntervalMs t) \<le> unat us div 1000 - unat us0 div 1000"
proof -
  have u: "uptime_ms x = of_nat (unat x div 1000)" for x :: u64
    by (simp add: uptime_ms_def unsigned_ucast_eq unat_div word_unat_eq_iff unat_of_nat take_bit_eq_mod)
  obtain k where k: "unat us div 1000 = unat us0 div 1000 + k" using assms(2) le_Suc_ex by blast
  have "uptime_ms us - tl_lastUploadMs t = of_nat k" by (simp add: assms(1) u k)
  moreover have "k < 4294967296" using assms(3) k by simp
  ultimately show ?thesis by (simp add: upload_due_def word_le_nat_alt unat_u32_of_nat k)
qed

theorem upload_due_across_wrap_witness:
  "upload_due 4295000000000 (demo_telemetry\<lparr>tl_flushPending := True, tl_uploadIntervalMs := 40000,
     tl_lastUploadMs := uptime_ms 4294960000000\<rparr>)"
  using upload_due_across_wrap [of "demo_telemetry\<lparr>tl_flushPending := True, tl_uploadIntervalMs := 40000,
     tl_lastUploadMs := uptime_ms 4294960000000\<rparr>" 4294960000000 4295000000000]
  by simp

end
