(* ===== verification/Sensor.thy ===== *)
theory Sensor
  imports Drivers "HOL-Library.Log_Nat"
begin

text \<open>
  The sensor module (\<open>middleware/src/sensor_module.cpp\<close>) and the conversion of ADC readings to volts
  (\<open>Adc::readVoltage\<close> of \<open>drivers/src/adc.cpp\<close>). A \<open>float\<close> is the rational number it stands for, and each
  operation rounds its exact result to 24 significant bits, to nearest with ties to even. The numbers that
  occur here are 0 or of a magnitude between 1/10000 and the square of the largest \<open>int\<close>, so that neither
  overflow nor subnormal numbers arise.
\<close>


section \<open>Single precision\<close>

definition round_even :: "rat \<Rightarrow> int" where
  "round_even x = (let n = \<lfloor>x\<rfloor>; r = x - of_int n in
     if r < 1 / 2 then n else if 1 / 2 < r then n + 1 else if even n then n else n + 1)"

text \<open>The exponent \<open>e\<close> of a positive number: \<open>2 powi e \<le> x < 2 powi (e + 1)\<close>.\<close>

definition f32_exponent :: "rat \<Rightarrow> int" where
  "f32_exponent x = (case quotient_of x of (p, q) \<Rightarrow>
     let e = bitlen p - bitlen q in if x < 2 powi e then e - 1 else e)"

definition f32_round :: "rat \<Rightarrow> rat" where
  "f32_round x = (if x = 0 then 0
     else let u = 2 powi (f32_exponent \<bar>x\<bar> - 23) in of_int (round_even (x / u)) * u)"


section \<open>Reading volts\<close>

text \<open>\<open>cali\<close> is \<open>adc_cali_raw_to_voltage\<close> of the vendor, which may fail.\<close>

definition adc_readVoltage :: "('h, 'a) driver_api_scheme \<Rightarrow> (int \<Rightarrow> int option) \<Rightarrow> int \<Rightarrow> 'h dev_sys \<Rightarrow> rat" where
  "adc_readVoltage api cali channel d =
     (let raw = adc_readRaw api channel d;
          uncalibrated = f32_round (f32_round (f32_round (of_int raw) * f32_round (33 / 10)) / 4095)
      in if raw < 0 then -1
         else if caliEnabled d
         then (case cali raw of Some mv \<Rightarrow> f32_round (f32_round (of_int mv) / 1000) | None \<Rightarrow> uncalibrated)
         else uncalibrated)"


section \<open>The module\<close>

record sensor =
  sn_lastValue :: rat
  sn_sampleCount :: u32

definition new_sensor :: sensor where
  "new_sensor = \<lparr>sn_lastValue = 0, sn_sampleCount = 0\<rparr>"

definition sensor_init :: "('h, 'a) driver_api_scheme \<Rightarrow> 'h dev_sys \<Rightarrow> bool \<times> 'h dev_sys" where
  "sensor_init api d = (True, snd (adc_init api 0 d))"

definition processOneSample :: "('h, 'a) driver_api_scheme \<Rightarrow> (int \<Rightarrow> int option) \<Rightarrow> 'h dev_sys \<Rightarrow> sensor \<Rightarrow> sensor" where
  "processOneSample api cali d s =
     (let v = adc_readVoltage api cali 0 d
      in s\<lparr>sn_lastValue := if v < 0 then 0 else v, sn_sampleCount := sn_sampleCount s + 1\<rparr>)"

definition sensor_tick ::
  "('h, 'a) driver_api_scheme \<Rightarrow> (int \<Rightarrow> int option) \<Rightarrow> sensor \<Rightarrow> 'h dev_sys \<Rightarrow> sensor \<times> 'h dev_sys" where
  "sensor_tick api cali s d =
     (let s1 = processOneSample api cali d s
      in (s1, dev_publish SensorDataReady (of_int \<lfloor>f32_round (sn_lastValue s1 * 100)\<rfloor>) 0 d))"


section \<open>The rounding error\<close>

lemma round_even_error: "\<bar>of_int (round_even x) - x\<bar> \<le> 1 / 2"
proof -
  have "of_int \<lfloor>x\<rfloor> \<le> x" "x < of_int \<lfloor>x\<rfloor> + 1" by linarith+
  then show ?thesis by (auto simp: round_even_def Let_def abs_le_iff)
qed

lemma f32_exponent_bounds:
  assumes "0 < x"
  shows "2 powi f32_exponent x \<le> x" and "x < 2 powi (f32_exponent x + 1)"
proof -
  obtain p q where pq: "quotient_of x = (p, q)" by fastforce
  then have q: "0 < q" and x: "x = of_int p / of_int q" by (simp_all add: quotient_of_denom_pos quotient_of_div)
  with assms have p: "0 < p" by (simp add: zero_less_divide_iff)
  have bounds: "2 powi (bitlen k - 1) \<le> (of_int k :: rat)" "(of_int k :: rat) < 2 powi bitlen k" if "0 < k" for k
  proof -
    have b: "2 ^ nat (bitlen k - 1) \<le> k" "k < 2 ^ nat (bitlen k)" "0 < bitlen k"
      using that bitlen_bounds [of k] bitlen_nonneg [of k] bitlen_eq_zero_iff [of k] by auto
    have "(of_int (2 ^ nat (bitlen k - 1)) :: rat) \<le> of_int k" "(of_int k :: rat) < of_int (2 ^ nat (bitlen k))"
      using b(1,2) by (simp_all only: of_int_le_iff of_int_less_iff)
    then show "2 powi (bitlen k - 1) \<le> (of_int k :: rat)" "(of_int k :: rat) < 2 powi bitlen k"
      using b(3) by (simp_all add: power_int_def)
  qed
  let ?e = "bitlen p - bitlen q"
  have "2 powi (?e - 1) = (2 powi (bitlen p - 1) :: rat) / 2 powi bitlen q"
    by (simp add: power_int_diff)
  also have "\<dots> \<le> of_int p / of_int q"
    using bounds [OF p] bounds [OF q] q p by (intro frac_le) auto
  finally have lower: "2 powi (?e - 1) \<le> x" by (simp add: x)
  have "of_int p / of_int q < (2 powi bitlen p :: rat) / 2 powi (bitlen q - 1)"
    using bounds [OF p] bounds [OF q] q p by (intro frac_less) auto
  also have "\<dots> = 2 powi (?e + 1)" by (simp add: power_int_diff power_int_add)
  finally have upper: "x < 2 powi (?e + 1)" by (simp add: x)
  show "2 powi f32_exponent x \<le> x" "x < 2 powi (f32_exponent x + 1)"
    using lower upper by (auto simp: f32_exponent_def pq Let_def)
qed

lemma f32_round_error: "\<bar>f32_round x - x\<bar> \<le> \<bar>x\<bar> / 2 ^ 24"
proof (cases "x = 0")
  case False
  define e where "e = f32_exponent \<bar>x\<bar>"
  define u :: rat where "u = 2 powi (e - 23)"
  have u: "0 < u" by (simp add: u_def)
  have "f32_round x - x = (of_int (round_even (x / u)) - x / u) * u"
    using False u by (simp add: f32_round_def e_def u_def Let_def algebra_simps)
  then have "\<bar>f32_round x - x\<bar> \<le> 1 / 2 * u"
    using u round_even_error [of "x / u"] by (simp only: abs_mult) (intro mult_mono, auto)
  also have "\<dots> = 2 powi e / 2 ^ 24" by (simp add: u_def power_int_diff)
  also have "\<dots> \<le> \<bar>x\<bar> / 2 ^ 24"
    using f32_exponent_bounds(1) [of "\<bar>x\<bar>"] False by (intro divide_right_mono) (simp_all add: e_def)
  finally show ?thesis .
qed (simp add: f32_round_def)


section \<open>Properties\<close>

lemma f32_round_near:
  assumes "0 \<le> y"
  shows "f32_round y \<le> y + y / 2 ^ 24" and "y - y / 2 ^ 24 \<le> f32_round y" and "0 \<le> f32_round y"
proof -
  have "\<bar>f32_round y - y\<bar> \<le> y / 2 ^ 24" using f32_round_error [of y] assms by simp
  then show "f32_round y \<le> y + y / 2 ^ 24" "y - y / 2 ^ 24 \<le> f32_round y" by (simp_all only: abs_le_iff) linarith+
  moreover have "0 \<le> y - y / 2 ^ 24" using assms by simp
  ultimately show "0 \<le> f32_round y" by linarith
qed

lemma three_roundings:
  assumes "0 \<le> x" and "x \<le> 100000"
  defines "z \<equiv> f32_round (f32_round (f32_round x / 1000) * 100)"
  shows "\<bar>z - x / 10\<bar> < 1 / 10" and "0 \<le> z"
proof -
  define a b where "a = f32_round x" and "b = f32_round (a / 1000)"
  have a: "0 \<le> a" "a \<le> x + x / 2 ^ 24" "x - x / 2 ^ 24 \<le> a" using f32_round_near [OF assms(1)] by (simp_all add: a_def)
  have b: "0 \<le> b" "b \<le> a / 1000 + a / 1000 / 2 ^ 24" "a / 1000 - a / 1000 / 2 ^ 24 \<le> b"
    using f32_round_near [of "a / 1000"] a(1) by (simp_all add: b_def)
  have z: "0 \<le> z" "z \<le> b * 100 + b * 100 / 2 ^ 24" "b * 100 - b * 100 / 2 ^ 24 \<le> z"
    using f32_round_near [of "b * 100"] b(1) by (simp_all add: z_def a_def b_def)
  show "0 \<le> z" by (rule z(1))
  have p: "(2 :: rat) ^ 24 = 16777216" by simp
  have "z < x / 10 + 1 / 10" using a b z assms(2) unfolding p by linarith
  moreover have "x / 10 - 1 / 10 < z" using a b z assms(2) unfolding p by linarith
  ultimately show "\<bar>z - x / 10\<bar> < 1 / 10" unfolding abs_less_iff by linarith
qed

text \<open>Rounding down what is near a number of tenths.\<close>

lemma floor_near_tenth:
  assumes "\<bar>z - of_int m / 10\<bar> < (1 / 10 :: rat)"
  shows "\<lfloor>z\<rfloor> = m div 10 \<or> (10 dvd m \<and> \<lfloor>z\<rfloor> = m div 10 - 1)"
proof -
  define k r where "k = m div 10" and "r = m mod 10"
  have m: "of_int m = 10 * of_int k + (of_int r :: rat)"
    by (metis k_def r_def mult_div_mod_eq of_int_add of_int_mult of_int_numeral)
  have r: "0 \<le> r" "r \<le> 9" using pos_mod_bound [of 10 m] by (simp_all add: r_def)
  have up: "z < of_int k + (of_int r + 1) / 10" and low: "of_int k + (of_int r - 1) / 10 < z"
    using assms m by (simp_all add: abs_less_iff field_simps)
  show ?thesis
  proof (cases "r = 0")
    case True
    then have "10 dvd m" by (simp add: r_def dvd_eq_mod_eq_0)
    moreover have "\<lfloor>z\<rfloor> = k \<or> \<lfloor>z\<rfloor> = k - 1" using up low True by (cases "of_int k \<le> z") (auto simp: floor_eq_iff)
    ultimately show ?thesis by (auto simp: k_def)
  next
    case False
    then have "(1 :: rat) \<le> of_int r" "(of_int r :: rat) \<le> 9" using r by simp_all
    then have "(of_int k :: rat) \<le> of_int k + (of_int r - 1) / 10" by simp
    also note low
    finally have "of_int k \<le> z" by (rule less_imp_le)
    moreover have "z < of_int k + 1" by (rule less_le_trans [OF up]) (use r in simp)
    ultimately have "\<lfloor>z\<rfloor> = k" by (rule floor_unique)
    then show ?thesis by (simp add: k_def)
  qed
qed

text \<open>
  C39: What the sensor module publishes. With a calibrated ADC that reads \<open>mv\<close> millivolts, a tick counts
  one sample and publishes hundredths of a volt, rounded down, in spite of three roundings to
  single precision; only for a whole number of hundredths it may publish one too few.
\<close>
theorem sensor_publishes_hundredths:
  assumes "adcHandle d" and "caliEnabled d" and "aa_oneshot_read api 0 (hardware d) = Some raw" and "0 \<le> raw"
    and "cali raw = Some mv" and "0 \<le> mv" and "mv \<le> 100000"
  shows "\<exists>v. sensor_tick api cali s d =
      (s\<lparr>sn_lastValue := f32_round (f32_round (of_int mv) / 1000), sn_sampleCount := sn_sampleCount s + 1\<rparr>,
       d\<lparr>published := published d @ [(SensorDataReady, v, 0)]\<rparr>) \<and>
    (uint v = mv div 10 \<or> (10 dvd mv \<and> uint v = mv div 10 - 1))"
proof -
  let ?v = "f32_round (f32_round (of_int mv) / 1000)"
  define n where "n = \<lfloor>f32_round (?v * 100)\<rfloor>"
  note z = three_roundings [of "of_int mv"]
  have n: "n = mv div 10 \<or> (10 dvd mv \<and> n = mv div 10 - 1)" "0 \<le> n"
    using z assms(6,7) floor_near_tenth [of "f32_round (?v * 100)" mv] by (simp_all add: n_def)
  have "mv div 10 \<le> 10000" using assms(7) by simp
  then have "n \<le> 10000" using n(1) by auto
  then have u: "uint (of_int n :: u32) = n" using n(2) by (simp add: uint_word_of_int_eq take_bit_int_eq_self)
  have "0 \<le> ?v" using f32_round_near(3) assms(6) by simp
  then have "sensor_tick api cali s d =
      (s\<lparr>sn_lastValue := ?v, sn_sampleCount := sn_sampleCount s + 1\<rparr>,
       d\<lparr>published := published d @ [(SensorDataReady, of_int n, 0)]\<rparr>)"
    using assms(1-5)
    by (simp add: sensor_tick_def processOneSample_def adc_readVoltage_def adc_readRaw_def Let_def dev_publish_def n_def)
  then show ?thesis using n(1) u by metis
qed

definition adc_api :: "unit driver_api" where
  "adc_api = \<lparr>ua_param_config = (\<lambda>_ _. True), ua_set_pin = (\<lambda>_ _ _. True), ua_driver_install = (\<lambda>_. True),
     ua_read_bytes = (\<lambda>_ _ h. (0, [], h)), ua_write_bytes = (\<lambda>_ _ h. (0, h)), ga_config = (\<lambda>_ _. True),
     ga_get_level = (\<lambda>_ _. 0), aa_new_unit = True, aa_line_fitting = True, aa_create_scheme = True,
     aa_oneshot_read = (\<lambda>_ _. Some 1531), pa_reset_reason = 1, pa_timer_get_time = (\<lambda>_. 0), pa_wdt_reset = id\<rparr>"

definition adc_dev :: "unit dev_sys" where
  "adc_dev = \<lparr>installed = replicate 3 False, hardware = (), gpio_mode = Map.empty, gpio_level = (\<lambda>_. False),
     adcHandle = True, caliEnabled = True, published = []\<rparr>"

theorem sensor_publishes_hundredths_witness:
  "\<exists>v. published (snd (sensor_tick adc_api (\<lambda>_. Some 1234) new_sensor adc_dev)) = [(SensorDataReady, v, 0)] \<and> uint v = 123"
  using sensor_publishes_hundredths [of adc_dev adc_api 1531 "\<lambda>_. Some 1234" 1234 new_sensor]
  by (auto simp: adc_api_def adc_dev_def)

text \<open>The exception occurs: 1050 millivolts are published as 104 hundredths.\<close>

lemma sensor_loses_a_hundredth: "\<lfloor>f32_round (f32_round (f32_round 1050 / 1000) * 100)\<rfloor> = 104"
  by code_simp

end
