(* ===== verification/Reports.thy ===== *)
theory Reports
  imports Web_Server
begin

text \<open>
  The reports in the log: \<open>Kernel::printStatistics\<close> (\<open>kernel/src/kernel.cpp\<close>), which the demo controller
  calls every 30 seconds, \<open>Diagnostics::printReport\<close> and \<open>Diagnostics::recordSample\<close>
  (\<open>kernel/src/diagnostics.cpp\<close>). Their formats are written out; the numbers are shown to be recoverable
  from the text.
\<close>


section \<open>The code\<close>

text \<open>\<open>build\<close> is the level of the build, \<open>esp32\<close> the target. A conversion \<open>%u\<close> of a \<open>size_t\<close> is cast to 32 bits.\<close>

definition unsigned_dec :: "nat \<Rightarrow> cstring" where
  "unsigned_dec n = dec (n mod 2 ^ 32)"

definition kernel_info :: "log_level \<Rightarrow> bool \<Rightarrow> cstring \<Rightarrow> logger \<Rightarrow> logger" where
  "kernel_info build esp32 = takt_log build esp32 LogInfo (str ''Kernel'')"

definition stats_head :: "kernel_stats \<Rightarrow> cstring list" where
  "stats_head st =
     [str ''=== TAKT OS Statistics ==='',
      str ''Uptime: '' @ dec (unat (ks_uptimeMs st)) @ str '' ms, reset: '' @ dec (unat (ks_resetReason st)),
      str ''Takts: '' @ dec (unat (ss_totalTakts (ks_scheduler st))) @ str '', max: '' @
        dec (unat (ss_maxTaktUs (ks_scheduler st))) @ str '' us, overruns: '' @ dec (unat (ss_overrunCount (ks_scheduler st))),
      str ''Heap free: '' @ unsigned_dec (ks_heapFree st) @ str '', min: '' @ unsigned_dec (ks_heapMinFree st) @
        str '', largest block: '' @ unsigned_dec (ks_largestBlock st),
      str ''Modules: '' @ dec (unat (ss_registeredModules (ks_scheduler st)))]"

definition module_line :: "nat \<Rightarrow> module_stats \<Rightarrow> cstring" where
  "module_line i ms = str ''  ['' @ unsigned_dec i @ str ''] ticks='' @ dec (unat (ms_tickCount ms)) @ str '' last='' @
     dec (unat (ms_lastUs ms)) @ str '' us max='' @ dec (unat (ms_maxUs ms)) @ str '' us overruns='' @
     dec (unat (ms_overrunCount ms)) @ str '' skips='' @ dec (unat (ms_skipCount ms))"

definition printStatistics ::
  "log_level \<Rightarrow> bool \<Rightarrow> 'z kernel_sys_scheme kernel_env \<Rightarrow> 'z kernel_sys_scheme \<Rightarrow> logger \<Rightarrow> logger" where
  "printStatistics build esp32 ke w g =
     (let stats = collectStats ke w;
          g1 = fold (kernel_info build esp32) (stats_head stats) g;
          g2 = fold (\<lambda>i. kernel_info build esp32 (module_line i (moduleStats (of_nat i) (sched w)))) [0..<moduleCount (sched w)] g1
      in kernel_info build esp32 (str ''=== End Statistics ==='') g2)"

definition printReport :: "log_level \<Rightarrow> bool \<Rightarrow> heap_info \<Rightarrow> diagnostics \<Rightarrow> logger \<Rightarrow> logger" where
  "printReport build esp32 heap d = fold (takt_log build esp32 LogInfo (str ''Diagnostics''))
     [str ''=== Diagnostics Report ==='',
      str ''Heap: free='' @ unsigned_dec (hi_totalFree heap) @ str '' min='' @ unsigned_dec (hi_minFreeEver heap) @
        str '' largest='' @ unsigned_dec (hi_largestBlock heap) @ str '' allocated='' @ unsigned_dec (hi_allocated heap),
      str ''Monitored stacks: '' @ unsigned_dec (stackCount d),
      str ''=== End Report ==='']"

definition recordSample :: "log_level \<Rightarrow> bool \<Rightarrow> cstring \<Rightarrow> u64 \<Rightarrow> logger \<Rightarrow> logger" where
  "recordSample build esp32 label durationUs =
     takt_log build esp32 LogDebug (str ''Diagnostics'') (str ''Profile ['' @ label @ str '']: '' @ dec (unat durationUs) @ str '' us'')"


section \<open>What reaches the log\<close>

text \<open>Messages of one level and tag appear in order on the channel of the target, or not at all.\<close>

definition shown :: "log_level \<Rightarrow> log_level \<Rightarrow> logger \<Rightarrow> bool" where
  "shown build l g \<longleftrightarrow> log_level_code build \<le> log_level_code l \<and> log_level_code (lg_level g) \<le> log_level_code l"

lemma takt_log_all:
  "fold (takt_log build esp32 l tag) ms g =
     (if \<not> shown build l g then g
      else if esp32 then g\<lparr>lg_written := lg_written g @ map (\<lambda>m. (esp_level l, tag, m)) ms\<rparr>
      else g\<lparr>lg_printed := lg_printed g @ map (\<lambda>m. str ''['' @ level_letter l @ str ''][''  @ tag @ str ''] '' @ m) ms\<rparr>)"
proof (induction ms arbitrary: g)
  case (Cons m ms)
  then show ?case by (simp add: takt_log_def logger_log_def shown_def not_less)
qed simp

definition stats_lines :: "'z kernel_sys_scheme kernel_env \<Rightarrow> 'z kernel_sys_scheme \<Rightarrow> cstring list" where
  "stats_lines ke w = stats_head (collectStats ke w) @
     map (\<lambda>i. module_line i (me_stats (modules (sched w) ! i))) [0..<moduleCount (sched w)] @ [str ''=== End Statistics ==='']"

lemma printStatistics_log:
  assumes "wf_sched (sched w)"
  shows "printStatistics build esp32 ke w = fold (takt_log build esp32 LogInfo (str ''Kernel'')) (stats_lines ke w)"
proof -
  have "moduleStats (of_nat i) (sched w) = me_stats (modules (sched w) ! i)" if "i < moduleCount (sched w)" for i
  proof -
    have "i < 2 ^ 16" using that assms by (simp add: wf_sched_def kMaxModules_def)
    then have "unat (of_nat i :: u16) = i" by (simp add: unat_of_nat)
    then show ?thesis using that by (simp add: moduleStats_def)
  qed
  then have "fold (\<lambda>i. kernel_info build esp32 (module_line i (moduleStats (of_nat i) (sched w)))) [0..<moduleCount (sched w)] g =
      fold (\<lambda>i. kernel_info build esp32 (module_line i (me_stats (modules (sched w) ! i)))) [0..<moduleCount (sched w)] g" for g
    by (intro fold_cong) simp_all
  then show ?thesis
    by (simp add: fun_eq_iff printStatistics_def stats_lines_def Let_def fold_map comp_def kernel_info_def)
qed


section \<open>Reading a report\<close>

text \<open>A number ends where the digits end, so that the fields of a line are determined by its text.\<close>

definition digit_byte :: "u8 \<Rightarrow> bool" where
  "digit_byte b \<longleftrightarrow> 48 \<le> b \<and> b \<le> 57"

lemma dec_inj [simp]: "dec m = dec n \<longleftrightarrow> m = n"
  using undec_dec by metis

lemma dec_then:
  assumes "\<not> digit_byte x"
  shows "dec m @ x # r = dec n @ x # s \<longleftrightarrow> m = n \<and> r = s"
proof -
  have d: "takeWhile digit_byte (dec k @ x # t) = dec k" for k t
    using assms dec_digits [of _ k] by (auto simp: takeWhile_append digit_byte_def)
  show ?thesis using d [of m r] d [of n s] by (metis dec_inj same_append_eq list.inject)
qed

lemma module_line_inj:
  assumes "i < 2 ^ 32" and "j < 2 ^ 32" and "module_line i a = module_line j b"
  shows "i = j \<and> ms_tickCount a = ms_tickCount b \<and> ms_lastUs a = ms_lastUs b \<and> ms_maxUs a = ms_maxUs b \<and>
    ms_overrunCount a = ms_overrunCount b \<and> ms_skipCount a = ms_skipCount b"
  using assms by (simp add: module_line_def unsigned_dec_def str_def dec_then digit_byte_def of_char_def word_unat_eq_iff)

lemma stats_head_inj:
  assumes "stats_head a = stats_head b"
  shows "ks_uptimeMs a = ks_uptimeMs b \<and> ss_totalTakts (ks_scheduler a) = ss_totalTakts (ks_scheduler b) \<and>
    ss_maxTaktUs (ks_scheduler a) = ss_maxTaktUs (ks_scheduler b) \<and>
    ss_overrunCount (ks_scheduler a) = ss_overrunCount (ks_scheduler b)"
  using assms by (simp add: stats_head_def str_def dec_then digit_byte_def of_char_def word_unat_eq_iff)

text \<open>
  The report is complete: when the level lets it through, the log gets the five lines of the kernel, one line for each
  module in the order of registration and the last line, and two states with the same report have the same counters.
\<close>

theorem report_is_complete:
  assumes "wf_sched (sched w)" and "shown build LogInfo g"
  shows "lg_written (printStatistics build True ke w g) = lg_written g @ map (\<lambda>m. (EspInfo, str ''Kernel'', m)) (stats_lines ke w)"
    and "length (stats_lines ke w) = moduleCount (sched w) + 6"
  by (simp add: printStatistics_log [OF assms(1)] takt_log_all assms(2) esp_level_def)
    (simp add: stats_lines_def stats_head_def)

theorem report_determines_counters:
  assumes "wf_sched (sched w)" and "wf_sched (sched v)" and "stats_lines ke w = stats_lines ke v"
  shows "moduleCount (sched v) = moduleCount (sched w)"
    and "i < moduleCount (sched w) \<Longrightarrow>
      ms_tickCount (me_stats (modules (sched w) ! i)) = ms_tickCount (me_stats (modules (sched v) ! i)) \<and>
      ms_skipCount (me_stats (modules (sched w) ! i)) = ms_skipCount (me_stats (modules (sched v) ! i)) \<and>
      ms_overrunCount (me_stats (modules (sched w) ! i)) = ms_overrunCount (me_stats (modules (sched v) ! i))"
    and "ss_totalTakts (sched_stats (sched w)) = ss_totalTakts (sched_stats (sched v))"
proof -
  have len: "length (stats_head st) = 5" for st by (simp add: stats_head_def)
  have "length (stats_lines ke w) = length (stats_lines ke v)" using assms(3) by simp
  then show n: "moduleCount (sched v) = moduleCount (sched w)" by (simp add: stats_lines_def len)
  have "stats_head (collectStats ke w) = stats_head (collectStats ke v)"
    using arg_cong [OF assms(3), of "take 5"] by (simp add: stats_lines_def len)
  then show "ss_totalTakts (sched_stats (sched w)) = ss_totalTakts (sched_stats (sched v))"
    by (auto dest: stats_head_inj simp: collectStats_def updateMemoryStats_def)
  assume i: "i < moduleCount (sched w)"
  have "stats_lines ke w ! (5 + i) = module_line i (me_stats (modules (sched w) ! i))"
    "stats_lines ke v ! (5 + i) = module_line i (me_stats (modules (sched v) ! i))"
    using i n by (simp_all add: stats_lines_def nth_append len)
  then have "module_line i (me_stats (modules (sched w) ! i)) = module_line i (me_stats (modules (sched v) ! i))"
    using assms(3) by simp
  moreover have "i < 2 ^ 32" using i assms(1) by (simp add: wf_sched_def kMaxModules_def)
  ultimately show "ms_tickCount (me_stats (modules (sched w) ! i)) = ms_tickCount (me_stats (modules (sched v) ! i)) \<and>
      ms_skipCount (me_stats (modules (sched w) ! i)) = ms_skipCount (me_stats (modules (sched v) ! i)) \<and>
      ms_overrunCount (me_stats (modules (sched w) ! i)) = ms_overrunCount (me_stats (modules (sched v) ! i))"
    using module_line_inj by blast
qed

end
