(* ===== verification/Takt_View.thy ===== *)
theory Takt_View
  imports Scheduler
begin

text \<open>
  What a takt does to a part of the system. The locale \<open>takt_view\<close> is the contract between the code
  behind the pointers of the scheduler and a view of the system: a callback of a timer changes the view
  by the relation \<open>reacts\<close>, the tick of a module by \<open>acts\<close>, and nothing else in a takt touches it. The tick of a
  background module only matters where the scheduler runs it, in a state \<open>w\<close> with the view of the state \<open>u\<close> in
  which it found work. Then a takt is one step of \<open>reacts\<close> per timer that fires, followed by one step of
  \<open>acts\<close> per live module, in the order of registration.
\<close>


section \<open>The modules that run\<close>

definition live :: "module_entry \<Rightarrow> bool" where
  "live e \<longleftrightarrow> me_active e \<and> (ms_state (me_stats e) = Ready \<or> ms_state (me_stats e) = Running)"

definition live_upto :: "nat \<Rightarrow> scheduler \<Rightarrow> ptr list" where
  "live_upto n s = map (\<lambda>i. the (me_module (modules s ! i))) (filter (\<lambda>i. live (modules s ! i)) [0..<n])"

definition live_modules :: "scheduler \<Rightarrow> ptr list" where
  "live_modules s = live_upto (moduleCount s) s"

definition live_between :: "nat \<Rightarrow> nat \<Rightarrow> scheduler \<Rightarrow> ptr list" where
  "live_between m n s = map (\<lambda>i. the (me_module (modules s ! i))) (filter (\<lambda>i. live (modules s ! i)) [m..<n])"

lemma live_upto_Suc:
  "live_upto (Suc n) s = live_upto n s @ (if live (modules s ! n) then [the (me_module (modules s ! n))] else [])"
  by (simp add: live_upto_def)

lemma live_upto_cong:
  assumes "\<And>i. i < n \<Longrightarrow> live (modules s' ! i) = live (modules s ! i) \<and> me_module (modules s' ! i) = me_module (modules s ! i)"
  shows "live_upto n s' = live_upto n s"
  using assms by (induction n) (simp_all add: live_upto_def)

lemma live_upto_visited:
  assumes "\<And>i. i < n \<Longrightarrow> \<exists>p v b t. modules s' ! i = visited env p v b t (modules s ! i)"
  shows "live_upto n s' = live_upto n s"
proof (rule live_upto_cong)
  fix i
  assume "i < n"
  then obtain p v b t where e: "modules s' ! i = visited env p v b t (modules s ! i)" using assms by blast
  have "live (visited env p v b t e) = live e" for e
    by (auto simp: live_def visited_def shouldRunModule_def split: option.splits if_splits)
  then show "live (modules s' ! i) = live (modules s ! i) \<and> me_module (modules s' ! i) = me_module (modules s ! i)"
    by (simp add: e)
qed


section \<open>Inside a takt\<close>

text \<open>
  \<open>modules_start env w\<close>: the state in which a takt that starts in \<open>w\<close> enters its loop over the modules;
  \<open>tick_state env i w\<close>: the one in which it would call the \<open>tick\<close> of entry \<open>i\<close>, after the clock was read.
\<close>

definition modules_start :: "'z sched_sys_scheme env \<Rightarrow> 'z sched_sys_scheme \<Rightarrow> 'z sched_sys_scheme option" where
  "modules_start env w =
     (let (t, w1) = e_nowUs env w in
      do { w2 \<leftarrow> tmgr_tick (e_timerCallbacks env) (taktPeriodMs (sched w1)) w1;
           w3 \<leftarrow> dispatchQueued (e_handlers env) w2;
           Some (e_wdtReset env w3) })"

definition tick_state :: "'z sched_sys_scheme env \<Rightarrow> nat \<Rightarrow> 'z sched_sys_scheme \<Rightarrow> 'z sched_sys_scheme option" where
  "tick_state env i w =
     map_option (\<lambda>w4. on_entry i (set_state Running) (snd (e_nowUs env (fold (run_entry env) [0..<i] w4)))) (modules_start env w)"

lemma takt_from_start: "runTakt env w =
    map_option (\<lambda>w4. finish_takt env (fst (e_nowUs env w)) (run_modules env w4)) (modules_start env w)"
  by (simp add: runTakt_def modules_start_def Let_def case_prod_unfold split: bind_split)

lemma run_takts_Suc_end: "run_takts env (Suc n) w =
    do { w1 \<leftarrow> run_takts env n w; w2 \<leftarrow> runTakt env w1; Some (e_delay env (taktPeriodMs (sched w2)) w2) }"
proof (induction n arbitrary: w)
  case (Suc n)
  have "run_takts env (Suc (Suc n)) w = do { w1 \<leftarrow> runTakt env w; run_takts env (Suc n) (e_delay env (taktPeriodMs (sched w1)) w1) }"
    by (rule run_takts.simps(2))
  also have "\<dots> = do { w1 \<leftarrow> runTakt env w; w2 \<leftarrow> run_takts env n (e_delay env (taktPeriodMs (sched w1)) w1);
      w3 \<leftarrow> runTakt env w2; Some (e_delay env (taktPeriodMs (sched w3)) w3) }"
    by (simp only: Suc)
  also have "\<dots> = do { w2 \<leftarrow> run_takts env (Suc n) w; w3 \<leftarrow> runTakt env w2; Some (e_delay env (taktPeriodMs (sched w3)) w3) }"
    by simp
  finally show ?case .
qed simp

text \<open>If the scheduler runs the entry, its tick is called in this state.\<close>

lemma tick_state_ticks:
  assumes "modules_start env w = Some w4" and "me_module (modules (sched (fold (run_entry env) [0..<i] w4)) ! i) = Some q"
    and "shouldRunModule env (modules (sched (fold (run_entry env) [0..<i] w4)) ! i) (fold (run_entry env) [0..<i] w4)"
  obtains u f where "tick_state env i w = Some u"
    and "fold (run_entry env) [0..<Suc i] w4 = on_entry i f (snd (e_nowUs env (m_tick (e_module env q) u)))"
proof -
  let ?x = "fold (run_entry env) [0..<i] w4"
  have on: "on_entry i f (on_entry i g v) = on_entry i (\<lambda>e. f ((modules (sched v))[i := g (modules (sched v) ! i)] ! i)) v" for f g and v :: "'a sched_sys_scheme"
    by (simp add: on_entry_def update_entry_def)
  have on3: "\<exists>k. on_entry i f (on_entry i g (on_entry i h v)) = on_entry i k v" "\<exists>k. on_entry i f (on_entry i g v) = on_entry i k v"
    for f g h and v :: "'a sched_sys_scheme"
    unfolding on by blast+
  obtain t1 w1 where w1: "e_nowUs env ?x = (t1, w1)" by fastforce
  let ?u = "on_entry i (set_state Running) w1"
  obtain t2 w2 where w2: "e_nowUs env (m_tick (e_module env q) ?u) = (t2, w2)" by fastforce
  have "\<exists>f. run_entry env i ?x = on_entry i f w2"
    using on3 assms(2,3) w1 w2 by (auto simp: run_entry_def Let_def)
  then show thesis
    using that [of ?u] assms(1) w1 w2 by (auto simp: tick_state_def)
qed


section \<open>The contract\<close>

text \<open>\<open>undisturbed\<close>: from \<open>w\<close> to \<open>w'\<close> no timer changes, nor the view where the invariant \<open>I\<close> holds.\<close>

definition undisturbed ::
  "('z sched_sys_scheme \<Rightarrow> bool) \<Rightarrow> ('z sched_sys_scheme \<Rightarrow> 'v) \<Rightarrow> 'z sched_sys_scheme \<Rightarrow> 'z sched_sys_scheme \<Rightarrow> bool" where
  "undisturbed I view w w' \<longleftrightarrow> timers w' = timers w \<and> tmgr w' = tmgr w \<and> (I w \<longrightarrow> view w' = view w \<and> I w')"

lemma undisturbed_trans: "undisturbed I view u v \<Longrightarrow> undisturbed I view v w \<Longrightarrow> undisturbed I view u w"
  by (auto simp: undisturbed_def)

lemma undisturbed_refl [simp]: "undisturbed I view w w"
  by (simp add: undisturbed_def)

lemma fold_own: "fold (\<lambda>c v. if c = cb then f v else v) cs v = (f ^^ count_list cs cb) v"
  by (induction cs arbitrary: v) (simp_all add: funpow_swap1)

locale takt_view =
  fixes env :: "'z sched_sys_scheme env"
    and rank :: "event_data \<Rightarrow> nat"
    and I :: "'z sched_sys_scheme \<Rightarrow> bool"
    and view :: "'z sched_sys_scheme \<Rightarrow> 'v"
    and reacts acts :: "ptr \<Rightarrow> 'v \<Rightarrow> 'v \<Rightarrow> bool"
  assumes tame_env: "tame rank env" and quiet_env: "sched_quiet env"
    and sched_unseen: "view (w\<lparr>sched := s\<rparr>) = view w" "I (w\<lparr>sched := s\<rparr>) = I w"
    and callbacks_quiet: "quiet_callbacks (e_timerCallbacks env)"
    and callbacks_react: "reacts_by I view reacts (e_timerCallbacks env)"
    and clock_aside: "undisturbed I view w (snd (e_nowUs env w))"
    and watchdog_aside: "undisturbed I view w (e_wdtReset env w)"
    and delay_aside: "undisturbed I view w (e_delay env n w)"
    and overrun_aside: "undisturbed I view w (publish (e_handlers env) (event_code TaktOverrun) p1 p2 w)"
    and drain_aside: "dispatchQueued (e_handlers env) w = Some w' \<Longrightarrow> I w \<Longrightarrow> undisturbed I view w w'"
    and modules_timers: "timers (m_tick (e_module env q) w) = timers w" "tmgr (m_tick (e_module env q) w) = tmgr w"
    and modules_act: "I u \<Longrightarrow> (m_type (e_module env q) u = Background \<Longrightarrow> m_hasWork (e_module env q) u) \<Longrightarrow>
      I w \<Longrightarrow> view w = view u \<Longrightarrow> acts q (view w) (view (m_tick (e_module env q) w)) \<and> I (m_tick (e_module env q) w)"
    and idle: "I w \<Longrightarrow> m_type (e_module env q) w = Background \<Longrightarrow> \<not> m_hasWork (e_module env q) w \<Longrightarrow>
      acts q (view w) (view w)"
begin

lemma now_aside: "e_nowUs env w = (t, w') \<Longrightarrow> undisturbed I view w w'"
  using clock_aside [of w] by simp

lemma on_entry_aside [simp]: "undisturbed I view w (on_entry i f w)"
  by (simp add: undisturbed_def on_entry_def sched_unseen)

lemma finish_aside: "undisturbed I view w (finish_takt env t w)"
proof -
  obtain t1 w1 where w1: "e_nowUs env w = (t1, w1)" by (cases "e_nowUs env w")
  have s: "undisturbed I view w (w1\<lparr>sched := s\<rparr>)" for s
    using now_aside [OF w1] by (simp add: undisturbed_def sched_unseen)
  have p: "undisturbed I view w (publish (e_handlers env) (event_code TaktOverrun) p1 p2 (w1\<lparr>sched := s\<rparr>))" for p1 p2 s
    using s overrun_aside by (rule undisturbed_trans)
  show ?thesis
    using s p by (simp add: finish_takt_def w1 Let_def del: event_code.simps)
qed


subsection \<open>The modules of a takt\<close>

lemma run_entry_acts:
  assumes "me_module (modules (sched w) ! i) = Some q" and "I w"
  defines "w' \<equiv> run_entry env i w"
  shows "timers w' = timers w \<and> tmgr w' = tmgr w \<and> I w' \<and>
    (if live (modules (sched w) ! i) then acts q (view w) (view w') else view w' = view w)"
proof (cases "shouldRunModule env (modules (sched w) ! i) w")
  case True
  obtain t1 w1 where w1: "e_nowUs env w = (t1, w1)" by (cases "e_nowUs env w")
  define w2 where "w2 = on_entry i (set_state Running) w1"
  obtain t2 w4 where w4: "e_nowUs env (m_tick (e_module env q) w2) = (t2, w4)" by fastforce
  have "undisturbed I view w w2" unfolding w2_def using now_aside [OF w1] on_entry_aside by (rule undisturbed_trans)
  then have 2: "timers w2 = timers w" "tmgr w2 = tmgr w" "view w2 = view w" "I w2"
    using assms(2) by (simp_all add: undisturbed_def)
  have u: "undisturbed I view (m_tick (e_module env q) w2) (on_entry i f (on_entry i g (on_entry i h w4)))"
    "undisturbed I view (m_tick (e_module env q) w2) (on_entry i f (on_entry i g w4))" for f g h
    by (meson now_aside [OF w4] on_entry_aside undisturbed_trans)+
  have "undisturbed I view (m_tick (e_module env q) w2) w'"
    using assms(1) True w1 w4 u by (simp add: w'_def run_entry_def Let_def w2_def)
  moreover have "live (modules (sched w) ! i)" using True assms(1) by (auto simp: shouldRunModule_def live_def split: if_splits)
  moreover have work: "m_hasWork (e_module env q) w" if "m_type (e_module env q) w = Background"
    using True assms(1) that by (simp add: shouldRunModule_def split: if_splits)
  ultimately show ?thesis
    using modules_act [OF assms(2) work 2(4,3)] modules_timers [of q w2] 2 by (simp add: undisturbed_def)
next
  case False
  then have "live (modules (sched w) ! i) \<Longrightarrow> m_type (e_module env q) w = Background \<and> \<not> m_hasWork (e_module env q) w"
    using assms(1) by (auto simp: shouldRunModule_def live_def split: if_splits)
  then have "live (modules (sched w) ! i) \<Longrightarrow> acts q (view w) (view w)" using idle [OF assms(2)] by blast
  moreover have "undisturbed I view w w'" using False assms(1) by (simp add: w'_def run_entry_def Let_def)
  ultimately show ?thesis using assms(2) by (simp add: undisturbed_def)
qed

lemma run_entries_act:
  assumes "wf_sched (sched w)" and "I w" and "n \<le> moduleCount (sched w)"
  defines "w' \<equiv> fold (run_entry env) [0..<n] w"
  shows "timers w' = timers w \<and> tmgr w' = tmgr w \<and> I w' \<and> chained acts (live_upto n (sched w)) (view w) (view w')"
  using assms(3) unfolding w'_def
proof (induction n)
  case (Suc n)
  let ?v = "fold (run_entry env) [0..<n] w"
  have e: "modules (sched ?v) ! n = modules (sched w) ! n"
    using run_entries [OF quiet_env assms(1), of n] Suc.prems by simp
  obtain q where q: "me_module (modules (sched w) ! n) = Some q"
    using assms(1) Suc.prems unfolding wf_sched_def by (metis Suc_le_lessD not_None_eq)
  have IH: "timers ?v = timers w" "tmgr ?v = tmgr w" "I ?v" "chained acts (live_upto n (sched w)) (view w) (view ?v)"
    using Suc by simp_all
  show ?case
    using run_entry_acts [of ?v n q] e q IH by (auto simp: live_upto_Suc chained_append)
qed (use assms(2) in \<open>simp add: live_upto_def\<close>)


text \<open>What one iteration does to the view, in terms of the state in which the tick is called.\<close>

lemma run_entry_view:
  assumes "me_module (modules (sched x) ! i) = Some q" and "I x"
  defines "u \<equiv> on_entry i (set_state Running) (snd (e_nowUs env x))"
  shows "I u" and "view u = view x"
    and "view (run_entry env i x) = (if shouldRunModule env (modules (sched x) ! i) x then view (m_tick (e_module env q) u) else view x)"
proof -
  obtain t1 w1 where w1: "e_nowUs env x = (t1, w1)" by (cases "e_nowUs env x")
  have u: "u = on_entry i (set_state Running) w1" by (simp add: u_def w1)
  obtain t2 w4 where w4: "e_nowUs env (m_tick (e_module env q) u) = (t2, w4)" by fastforce
  have "undisturbed I view x u" unfolding u using now_aside [OF w1] on_entry_aside by (rule undisturbed_trans)
  then show v: "I u" "view u = view x" using assms(2) by (simp_all add: undisturbed_def)
  show "view (run_entry env i x) = (if shouldRunModule env (modules (sched x) ! i) x then view (m_tick (e_module env q) u) else view x)"
  proof (cases "shouldRunModule env (modules (sched x) ! i) x")
    case True
    then have "m_type (e_module env q) x = Background \<Longrightarrow> m_hasWork (e_module env q) x"
      using assms(1) by (simp add: shouldRunModule_def split: if_splits)
    then have "I (m_tick (e_module env q) u)" using modules_act [OF assms(2) _ v] by blast
    moreover have "undisturbed I view (m_tick (e_module env q) u) (on_entry i f (on_entry i g (on_entry i h w4)))"
      "undisturbed I view (m_tick (e_module env q) u) (on_entry i f (on_entry i g w4))" for f g h
      by (meson now_aside [OF w4] on_entry_aside undisturbed_trans)+
    ultimately show ?thesis
      using assms(1) True w1 w4 u by (simp add: run_entry_def Let_def undisturbed_def)
  next
    case False
    then have "undisturbed I view x (run_entry env i x)" using assms(1) by (simp add: run_entry_def Let_def)
    then show ?thesis using assms(2) False by (simp add: undisturbed_def)
  qed
qed

lemma run_entries_from:
  assumes "wf_sched (sched w)" and "I w" and "m \<le> n" and "n \<le> moduleCount (sched w)"
  shows "chained acts (live_between m n (sched w)) (view (fold (run_entry env) [0..<m] w)) (view (fold (run_entry env) [0..<n] w))"
  using assms(3,4)
proof (induction n rule: dec_induct)
  case (step n)
  let ?v = "fold (run_entry env) [0..<n] w"
  have e: "modules (sched ?v) ! n = modules (sched w) ! n"
    using run_entries [OF quiet_env assms(1), of n] step.prems by simp
  obtain q where q: "me_module (modules (sched w) ! n) = Some q"
    using assms(1) step.prems unfolding wf_sched_def by (metis Suc_le_lessD not_None_eq)
  have "I ?v" using run_entries_act [OF assms(1,2), of n] step.prems by simp
  then show ?case
    using run_entry_acts [of ?v n q] e q step by (auto simp: live_between_def chained_append)
qed (simp add: live_between_def)


subsection \<open>A takt\<close>

lemma runTakt_split:
  assumes "runTakt env w = Some w'"
  obtains t0 w1 w2 w3 where "e_nowUs env w = (t0, w1)" and "sched w1 = sched w"
    and "tmgr_tick (e_timerCallbacks env) (taktPeriodMs (sched w)) w1 = Some w2"
    and "dispatchQueued (e_handlers env) w2 = Some w3" and "sched (e_wdtReset env w3) = sched w"
    and "w' = finish_takt env t0 (run_modules env (e_wdtReset env w3))"
proof -
  obtain t0 w1 where w1: "e_nowUs env w = (t0, w1)" by (cases "e_nowUs env w")
  have s1: "sched w1 = sched w" using sched_quiet_simps(1) [OF quiet_env w1] .
  obtain w2 w3 where w2: "tmgr_tick (e_timerCallbacks env) (taktPeriodMs (sched w)) w1 = Some w2"
    and w3: "dispatchQueued (e_handlers env) w2 = Some w3"
    and w': "w' = finish_takt env t0 (run_modules env (e_wdtReset env w3))"
    using assms by (auto simp: runTakt_def w1 s1 split: bind_splits)
  have "sched (e_wdtReset env w3) = sched w"
    using sched_tmgr_tick [OF quiet_env w2] sched_dispatchQueued [OF quiet_env w3] s1
    by (simp add: sched_quiet_simps(4) [OF quiet_env])
  then show thesis using that w1 s1 w2 w3 w' by blast
qed

text \<open>Up to the loop over the modules: the timers have advanced and their callbacks have reacted.\<close>

lemma takt_start:
  assumes "sys_ok w" and "I w" and "runTakt env w = Some w'"
  defines "d \<equiv> taktPeriodMs (sched w)"
  obtains w4 where "modules_start env w = Some w4" and "sched w4 = sched w" and "I w4" and "tmgr w4 = tmgr w"
    and "timers w4 = advance_all d w" and "chained reacts (fired d w) (view w) (view w4)"
    and "undisturbed I view (run_modules env w4) w'"
proof -
  obtain t0 w1 w2 w3 where w1: "e_nowUs env w = (t0, w1)" and s1: "sched w1 = sched w"
    and w2: "tmgr_tick (e_timerCallbacks env) d w1 = Some w2" and w3: "dispatchQueued (e_handlers env) w2 = Some w3"
    and s3: "sched (e_wdtReset env w3) = sched w" and w': "w' = finish_takt env t0 (run_modules env (e_wdtReset env w3))"
    using assms(3) unfolding d_def by (rule runTakt_split)
  have o1: "timers w1 = timers w" "tmgr w1 = tmgr w" "view w1 = view w" "I w1"
    using now_aside [OF w1] assms(2) by (simp_all add: undisturbed_def)
  have "fired_slot d w1 = fired_slot d w" by (rule ext) (simp only: fired_slot_def o1(1,2))
  then have f1: "fired d w1 = fired d w" "advance_all d w1 = advance_all d w"
    by (simp_all only: fired_def advance_all_def registered_def o1(1,2))
  have safe: "safe_timers w1" using assms(1) o1 by (simp add: sys_ok_def safe_timers_def)
  have o2: "tmgr w2 = tmgr w" "timers w2 = advance_all d w"
    using quiet_tmgr_tick [OF callbacks_quiet safe, of d] w2 o1(2) f1(2) by auto
  have v2: "chained reacts (fired d w) (view w) (view w2)" "I w2"
    using tmgr_tick_view [OF callbacks_react callbacks_quiet safe o1(4) w2] o1(3) f1(1) by simp_all
  have "undisturbed I view w2 (e_wdtReset env w3)"
    using drain_aside [OF w3 v2(2)] watchdog_aside by (rule undisturbed_trans)
  moreover have "modules_start env w = Some (e_wdtReset env w3)" using w1 s1 w2 w3 by (simp add: modules_start_def d_def)
  moreover have "undisturbed I view (run_modules env (e_wdtReset env w3)) w'" unfolding w' by (rule finish_aside)
  ultimately show thesis using that s3 o2 v2 by (simp add: undisturbed_def)
qed

lemma takt_acts:
  assumes "wf_sched (sched w)" and "sys_ok w" and "I w" and "runTakt env w = Some w'"
  defines "d \<equiv> taktPeriodMs (sched w)"
  shows "\<exists>v. chained reacts (fired d w) (view w) v \<and> chained acts (live_modules (sched w)) v (view w')"
    and "I w'" and "timers w' = advance_all d w" and "tmgr w' = tmgr w"
proof -
  obtain w4 where s4: "sched w4 = sched w" and o4: "I w4" "tmgr w4 = tmgr w" "timers w4 = advance_all d w"
    and v4: "chained reacts (fired d w) (view w) (view w4)" and fin: "undisturbed I view (run_modules env w4) w'"
    using assms(2-4) unfolding d_def by (rule takt_start)
  have wf4: "wf_sched (sched w4)" using assms(1) s4 by simp
  have "timers (run_modules env w4) = advance_all d w" "tmgr (run_modules env w4) = tmgr w" "I (run_modules env w4)"
    "chained acts (live_modules (sched w)) (view w4) (view (run_modules env w4))"
    using run_entries_act [OF wf4 o4(1), of "moduleCount (sched w)"] o4(2,3) s4
    by (simp_all add: run_modules_fold [OF quiet_env wf4] live_modules_def)
  then show "I w'" "timers w' = advance_all d w" "tmgr w' = tmgr w"
    and "\<exists>v. chained reacts (fired d w) (view w) v \<and> chained acts (live_modules (sched w)) v (view w')"
    using v4 fin by (auto simp: undisturbed_def)
qed

text \<open>The same takt, stopped at the turn of entry \<open>i\<close>: \<open>x\<close> is the state before it.\<close>

lemma takt_turn:
  assumes "wf_sched (sched w)" and "sys_ok w" and "I w" and "runTakt env w = Some w'" and "i < moduleCount (sched w)"
  obtains v x where "chained reacts (fired (taktPeriodMs (sched w)) w) (view w) v"
    and "tick_state env i w = Some (on_entry i (set_state Running) (snd (e_nowUs env x)))"
    and "chained acts (live_upto i (sched w)) v (view x)" and "I x" and "modules (sched x) ! i = modules (sched w) ! i"
    and "chained acts (live_between (Suc i) (moduleCount (sched w)) (sched w)) (view (run_entry env i x)) (view w')"
proof -
  obtain w4 where start: "modules_start env w = Some w4" and s4: "sched w4 = sched w" and o4: "I w4"
    and v4: "chained reacts (fired (taktPeriodMs (sched w)) w) (view w) (view w4)"
    and fin: "undisturbed I view (run_modules env w4) w'"
    using assms(2-4) by (rule takt_start)
  have wf4: "wf_sched (sched w4)" using assms(1) s4 by simp
  let ?n = "moduleCount (sched w)" and ?x = "fold (run_entry env) [0..<i] w4"
  have upto: "I ?x" "chained acts (live_upto i (sched w)) (view w4) (view ?x)"
    using run_entries_act [OF wf4 o4, of i] assms(5) s4 by simp_all
  have all: "I (run_modules env w4)" "run_modules env w4 = fold (run_entry env) [0..<?n] w4"
    using run_entries_act [OF wf4 o4, of ?n] s4 by (simp_all add: run_modules_fold [OF quiet_env wf4])
  have "view w' = view (fold (run_entry env) [0..<?n] w4)" using fin all by (simp add: undisturbed_def)
  then have rest: "chained acts (live_between (Suc i) ?n (sched w)) (view (run_entry env i ?x)) (view w')"
    using run_entries_from [OF wf4 o4, of "Suc i" ?n] assms(5) s4 by simp
  have "modules (sched ?x) ! i = modules (sched w) ! i"
    using run_entries [OF quiet_env wf4, of i] assms(5) s4 by simp
  with v4 upto rest start show thesis
    by (intro that [of "view w4" ?x]) (simp_all add: tick_state_def)
qed

text \<open>The table of modules and the period of the takt stay as they are.\<close>

lemma takt_table:
  assumes "wf_sched (sched w)" and "runTakt env w = Some w'"
  shows "wf_sched (sched w')" and "live_modules (sched w') = live_modules (sched w)"
    and "taktPeriodMs (sched w') = taktPeriodMs (sched w)"
proof -
  note m = runTakt_modules [OF quiet_env assms]
  then show "wf_sched (sched w')" by simp
  have "live_upto (moduleCount (sched w)) (sched w') = live_upto (moduleCount (sched w)) (sched w)"
    using m by (intro live_upto_visited) blast
  then show "live_modules (sched w') = live_modules (sched w)" using m by (simp add: live_modules_def)
  have keep: "taktPeriodMs (sched (run_entry env j v)) = taktPeriodMs (sched v)" for j v
  proof (cases "me_module (modules (sched v) ! j)")
    case (Some q)
    obtain t1 w1 where w1: "e_nowUs env v = (t1, w1)" by (cases "e_nowUs env v")
    obtain t2 w4 where w4: "e_nowUs env (m_tick (e_module env q) (on_entry j (set_state Running) w1)) = (t2, w4)"
      by fastforce
    have "taktPeriodMs (sched w4) = taktPeriodMs (sched v)"
      using sched_quiet_simps(1) [OF quiet_env w1] sched_quiet_simps(1) [OF quiet_env w4]
      by (simp add: sched_quiet_simps(6) [OF quiet_env])
    then show ?thesis using Some w1 w4 by (simp add: run_entry_def Let_def)
  qed (simp add: run_entry_def)
  obtain t0 w3 where s3: "sched (e_wdtReset env w3) = sched w" and w': "w' = finish_takt env t0 (run_modules env (e_wdtReset env w3))"
    using assms(2) by (rule runTakt_split)
  have r: "taktPeriodMs (sched (run_modules env v)) = taktPeriodMs (sched v)" for v
    unfolding run_modules_def
    by (rule for_modules_inv [where I = "\<lambda>a. taktPeriodMs (sched a) = taktPeriodMs (sched v)"]) (simp_all add: keep)
  have f: "taktPeriodMs (sched (finish_takt env t v)) = taktPeriodMs (sched v)" for t v
    using sched_quiet_simps(1) [OF quiet_env, of v]
    by (cases "e_nowUs env v") (simp add: finish_takt_def Let_def account_takt_def sched_publish [OF quiet_env])
  show "taktPeriodMs (sched w') = taktPeriodMs (sched w)" by (simp add: w' f r s3)
qed


subsection \<open>Any number of takts of a view that no timer touches\<close>

lemma takts_act:
  assumes still: "\<And>c v v'. reacts c v v' \<Longrightarrow> v' = v"
    and "wf_sched (sched w)" and "sys_ok w" and "I w" and "live_modules (sched w) = ps"
  shows "\<exists>w'. run_takts env n w = Some w' \<and> I w' \<and> (chained acts ps ^^ n) (view w) (view w')"
  using assms(2-)
proof (induction n arbitrary: w)
  case (Suc n)
  obtain w1 where w1: "runTakt env w = Some w1" "sys_ok w1" using runTakt_defined [OF tame_env Suc.prems(2)] by blast
  note a = takt_acts [OF Suc.prems(1-3) w1(1)] and t = takt_table [OF Suc.prems(1) w1(1)]
  have step: "chained acts ps (view w) (view w1)"
    using a(1) chained_still [of reacts _ "view w"] still Suc.prems(4) by metis
  let ?w = "e_delay env (taktPeriodMs (sched w1)) w1"
  have v: "view ?w = view w1" "I ?w" using delay_aside [of w1] a(2) by (simp_all add: undisturbed_def)
  have sd: "sched ?w = sched w1" by (rule sched_quiet_simps(5) [OF quiet_env])
  have ok: "sys_ok ?w" using w1(2) tame_env by (simp add: sys_ok_def tame_def env_keeps_def)
  obtain w' where "run_takts env n ?w = Some w'" "I w'" "(chained acts ps ^^ n) (view ?w) (view w')"
    using Suc.IH [of ?w] t(1,2) sd ok v(2) Suc.prems(4) by auto
  then show ?case
    using w1(1) step v(1) by (auto simp: relpowp_Suc_right [symmetric] simp del: relpowp.simps intro: relpowp_Suc_I2)
qed simp


end

end
