(* ===== verification/Timer_Driven.thy ===== *)
theory Timer_Driven
  imports Takt_View
begin

text \<open>
  How timers and modules work together in the takt: the callback of a timer asks for something
  and a module does it in its next tick. The locale \<open>timer_driven\<close> is the contract between the
  application, the timer manager and the scheduler under which the two can be composed. It is the
  contract \<open>takt_view\<close> for a view that one callback and one module change by functions.
\<close>


section \<open>The contract\<close>

text \<open>The module \<open>p\<close> is registered once, in entry \<open>i\<close>, and Ready.\<close>

definition runs_at :: "ptr \<Rightarrow> nat \<Rightarrow> scheduler \<Rightarrow> bool" where
  "runs_at p i s \<longleftrightarrow> wf_sched s \<and> i < moduleCount s \<and> me_active (modules s ! i) \<and>
     ms_state (me_stats (modules s ! i)) = Ready \<and>
     (\<forall>j < moduleCount s. me_module (modules s ! j) = Some p \<longleftrightarrow> j = i)"

lemma runs_once:
  assumes "runs_at p i s"
  shows "count_list (live_modules s) p = 1"
proof -
  have "count_list (live_upto n s) p = (if i < n then 1 else 0)" if "n \<le> moduleCount s" for n
    using that
  proof (induction n)
    case (Suc n)
    have "me_module (modules s ! n) \<noteq> None" using assms Suc.prems by (simp add: runs_at_def wf_sched_def)
    then have "the (me_module (modules s ! n)) = p \<longleftrightarrow> n = i" using assms Suc.prems by (auto simp: runs_at_def)
    then show ?case using assms Suc by (auto simp: live_upto_Suc runs_at_def live_def)
  qed (simp add: live_upto_def)
  then show ?thesis using assms by (simp add: live_modules_def runs_at_def)
qed

lemma runs_elsewhere:
  assumes "runs_at p i s"
  shows "p \<notin> set (live_upto i s)" and "p \<notin> set (live_between (Suc i) (moduleCount s) s)"
proof -
  have no: "the (me_module (modules s ! j)) = p \<Longrightarrow> False" if "j < moduleCount s" "j \<noteq> i" for j
  proof -
    have "me_module (modules s ! j) \<noteq> None" using assms that(1) by (simp add: runs_at_def wf_sched_def)
    then show "the (me_module (modules s ! j)) = p \<Longrightarrow> False" using assms that by (auto simp: runs_at_def)
  qed
  have i: "i < moduleCount s" using assms by (simp add: runs_at_def)
  show "p \<notin> set (live_upto i s)"
  proof
    assume "p \<in> set (live_upto i s)"
    then obtain j where "j < i" "the (me_module (modules s ! j)) = p" by (auto simp: live_upto_def)
    then show False using no [of j] i by linarith
  qed
  show "p \<notin> set (live_between (Suc i) (moduleCount s) s)"
  proof
    assume "p \<in> set (live_between (Suc i) (moduleCount s) s)"
    then obtain j where "Suc i \<le> j" "j < moduleCount s" "the (me_module (modules s ! j)) = p" by (auto simp: live_between_def)
    then show False using no [of j] by linarith
  qed
qed

lemma runs_at_takt:
  assumes "sched_quiet env" and "runs_at p i (sched w)" and "runTakt env w = Some w'"
  shows "runs_at p i (sched w')"
proof -
  have wf: "wf_sched (sched w)" using assms(2) by (simp add: runs_at_def)
  note m = runTakt_modules [OF assms(1) wf assms(3)]
  have i: "i < moduleCount (sched w)" "me_module (modules (sched w) ! i) = Some p"
    using assms(2) by (auto simp: runs_at_def)
  then obtain v b t where e: "modules (sched w') ! i = visited env p v b t (modules (sched w) ! i)" using m by fastforce
  have "ms_state (me_stats (modules (sched w') ! i)) = Ready" "me_active (modules (sched w') ! i)"
    using assms(2) by (simp_all add: e visited_def runs_at_def)
  moreover have "me_module (modules (sched w') ! j) = me_module (modules (sched w) ! j)" if "j < moduleCount (sched w)" for j
    using m that by (metis visited_simps(1))
  ultimately show ?thesis using m assms(2) by (auto simp: runs_at_def)
qed

text \<open>
  What one takt of length \<open>d\<close> does to a timer and to what its callback and the module share: the
  timer may fire, then the module runs.
\<close>

definition evolve_step :: "('v \<Rightarrow> 'v) \<Rightarrow> ('v \<Rightarrow> 'v) \<Rightarrow> u32 \<Rightarrow> timer \<times> 'v \<Rightarrow> timer \<times> 'v" where
  "evolve_step on_fire on_tick d = (\<lambda>(t, v). (timer_advance d t, on_tick (if timer_fires d t then on_fire v else v)))"

text \<open>
  \<open>view\<close> is the part of the system that the callback \<open>cb\<close> and the module \<open>p\<close> share: \<open>on_fire\<close> is what
  the callback does to it and \<open>on_tick\<close> what the tick of the module does. Nothing else touches it,
  and nothing that runs in a takt touches the timers.
\<close>

locale timer_driven =
  fixes env :: "'z sched_sys_scheme env"
    and rank :: "event_data \<Rightarrow> nat"
    and view :: "'z sched_sys_scheme \<Rightarrow> 'v"
    and on_fire on_tick :: "'v \<Rightarrow> 'v"
    and cb p :: ptr
  assumes tame_env: "tame rank env" and quiet_env: "sched_quiet env"
    and view_kernel: "view (w\<lparr>sched := s\<rparr>) = view w" "view (w\<lparr>timers := ts\<rparr>) = view w" "view (w\<lparr>bus := b\<rparr>) = view w"
    and callbacks_quiet: "quiet_callbacks (e_timerCallbacks env)"
    and callbacks_view: "view (e_timerCallbacks env c w) = (if c = cb then on_fire (view w) else view w)"
    and handlers_still: "undisturbed (\<lambda>w. True) view w (e_handlers env c d u w)"
    and clock_still: "undisturbed (\<lambda>w. True) view w (snd (e_nowUs env w))"
    and watchdog_still: "undisturbed (\<lambda>w. True) view w (e_wdtReset env w)"
    and delay_still: "undisturbed (\<lambda>w. True) view w (e_delay env n w)"
    and modules_still: "timers (m_tick (e_module env q) w) = timers w" "tmgr (m_tick (e_module env q) w) = tmgr w"
    and modules_view: "view (m_tick (e_module env q) w) = (if q = p then on_tick (view w) else view w)"
    and foreground: "m_type (e_module env p) w \<noteq> Background"

sublocale timer_driven \<subseteq> takt: takt_view env rank "\<lambda>w. True" view
  "\<lambda>c v v'. v' = (if c = cb then on_fire v else v)" "\<lambda>q v v'. v' = (if q = p then on_tick v else v)"
proof
  fix w w' :: "'z sched_sys_scheme" and p1 p2 :: u32
  let ?U = "undisturbed (\<lambda>w. True) view w"
  show "?U (publish (e_handlers env) (event_code TaktOverrun) p1 p2 w)"
    unfolding publish_def by (rule dispatch_inv [where I = ?U])
      (use undisturbed_trans [OF _ handlers_still] in simp_all)
  assume "dispatchQueued (e_handlers env) w = Some w'"
  then show "?U w'"
    by (rule dispatchQueued_inv [where I = ?U, rotated 2])
      (use undisturbed_trans [OF _ handlers_still] in \<open>auto simp: undisturbed_def view_kernel(3)\<close>)
next
  show "reacts_by (\<lambda>w. True) view (\<lambda>c v v'. v' = (if c = cb then on_fire v else v)) (e_timerCallbacks env)"
    by (simp add: reacts_by_def view_kernel(2) callbacks_view)
next
  fix q w
  assume "m_type (e_module env q) w = Background"
  then have "q \<noteq> p" using foreground by blast
  then show "view w = (if q = p then on_tick (view w) else view w)" by simp
qed (simp_all add: tame_env quiet_env view_kernel(1) callbacks_quiet clock_still watchdog_still delay_still
    modules_still modules_view)

context timer_driven
begin

lemma takt_step:
  assumes "runs_at p i (sched w)" and "sys_ok w" and "owns_callback w k tp t cb" and "taktPeriodMs (sched w) = d"
    and "runTakt env w = Some w'" and "evolve_step on_fire on_tick d (t, view w) = (t', v')"
  shows "runs_at p i (sched w') \<and> sys_ok w' \<and> owns_callback w' k tp t' cb \<and> view w' = v'"
proof -
  have wf: "wf_sched (sched w)" using assms(1) by (simp add: runs_at_def)
  note a = takt.takt_acts [OF wf assms(2) TrueI assms(5), unfolded assms(4)]
  have "view w' = fold (\<lambda>q v. if q = p then on_tick v else v) (live_modules (sched w))
      (fold (\<lambda>c v. if c = cb then on_fire v else v) (fired d w) (view w))"
    using a(1) by (simp add: chained_fold)
  then have "view w' = on_tick (if timer_fires d t then on_fire (view w) else view w)"
    by (simp add: fold_own runs_once [OF assms(1)] count_fired [OF assms(3)])
  moreover have "owns_callback w' k tp (timer_advance d t) cb"
    using owns_callback_advance [OF assms(3) _ a(3,4)] assms(2) by (simp add: sys_ok_def safe_timers_def)
  moreover have "sys_ok w'" using runTakt_defined [OF tame_env assms(2)] assms(5) by simp
  ultimately show ?thesis using runs_at_takt [OF quiet_env assms(1,5)] assms(6) by (simp add: evolve_step_def)
qed

text \<open>Any number of takts.\<close>

lemma takts_evolve:
  assumes "runs_at p i (sched w)" and "sys_ok w" and "owns_callback w k tp t cb" and "taktPeriodMs (sched w) = d"
    and "(evolve_step on_fire on_tick d ^^ n) (t, view w) = (t', v')"
  shows "\<exists>w'. run_takts env n w = Some w' \<and> runs_at p i (sched w') \<and> sys_ok w' \<and> owns_callback w' k tp t' cb \<and> view w' = v'"
  using assms
proof (induction n arbitrary: w t)
  case (Suc n)
  obtain w1 where w1: "runTakt env w = Some w1" using runTakt_defined [OF tame_env Suc.prems(2)] by blast
  obtain t1 v1 where e: "evolve_step on_fire on_tick d (t, view w) = (t1, v1)" by fastforce
  note s = takt_step [OF Suc.prems(1-4) w1 e]
  let ?w = "e_delay env d w1"
  have d: "timers ?w = timers w1" "tmgr ?w = tmgr w1" "view ?w = view w1"
    using delay_still [of w1 d] by (simp_all add: undisturbed_def)
  have p: "taktPeriodMs (sched w1) = d"
    using takt.takt_table(3) [OF _ w1] Suc.prems(1,4) by (simp add: runs_at_def)
  have sd: "sched ?w = sched w1" by (rule sched_quiet_simps(5) [OF quiet_env])
  have ok: "sys_ok ?w" using s tame_env by (simp add: sys_ok_def tame_def env_keeps_def)
  have own: "owns_callback ?w k tp t1 cb" using s by (simp add: owns_callback_def d)
  have "(evolve_step on_fire on_tick d ^^ n) (t1, view ?w) = (t', v')"
    using Suc.prems(5) unfolding funpow_Suc_right comp_apply using e s by (simp add: d)
  then show ?case using Suc.IH [of ?w t1] s sd ok own p w1 by simp
qed simp

end

end
