(* ===== verification/Applications.thy ===== *)
theory Applications
  imports Timer_Driven Kernel Field_Modules Web_Server Services Dfu Sensor Net_Modules
begin

text \<open>
  The demo controller, \<open>examples/demo_controller/main/main.cpp\<close>: what \<open>main\<close> registers, subscribes
  and starts, and how its demo timer drives the relay through the scheduler. The relay, the network
  modules (WiFi with its reconnect timer, MQTT) and the code of \<open>main.cpp\<close> are the models of this
  development; the other modules and the platform are the environment \<open>other\<close>, a parameter. The interface
  \<open>timer_driven\<close> is interpreted here. The kernel is the model of the host build; its boot ignores what the
  key-value store answers. Then the recovery application, \<open>examples/recovery_app/main/main.cpp\<close>.
\<close>


section \<open>State\<close>

text \<open>The objects of \<open>main\<close> and the functions it hands out, each at an address \<open>place x\<close> of its own.\<close>

datatype app_object = ObjUart | ObjSensor | ObjRelay | ObjModbus | ObjWifi | ObjMqtt | ObjBle | ObjWebserver
  | ObjOta | ObjTelemetry | ObjConfig | ObjGateway | ObjStatsTimer | ObjDemoTimer
  | FnWifiConnected | FnSensorData | FnStats | FnDemo | ObjWifiTimer | FnWifiTimeout

text \<open>\<open>dm_on\<close> is the static variable of the callback of the demo timer.\<close>

record ('f, 'h) app_sys = kernel_sys +
  dm_boot :: "'f boot_sys"
  dm_dev :: "'h dev_sys"
  dm_sensor :: sensor
  dm_relay :: relay
  dm_on :: bool
  dm_telemetry :: telemetry
  dm_gateway :: modbus_gateway
  dm_web :: webserver
  dm_wifi :: wifi_module
  dm_mqtt :: mqtt_module

text \<open>
  The vendor SDK as the application uses it: the drivers, the string getter of the key-value store, and
  what the network functions answer to a call, which depends on the state of the devices.
\<close>

record 'h app_api = "'h driver_api" +
  net_stored :: "cstring \<Rightarrow> nat \<Rightarrow> cstring option"
  net_wifi :: "'h dev_sys \<Rightarrow> wifi_env"
  net_mqtt :: "'h dev_sys \<Rightarrow> mqtt_env"

type_synonym ('f, 'h) app_kenv = "('f, 'h) app_sys kernel_env"

text \<open>After reset, with the statics in their initial state and the objects of \<open>main\<close> constructed.\<close>

definition app_reset :: "memory \<Rightarrow> 'f boot_sys \<Rightarrow> 'h dev_sys \<Rightarrow> ('f, 'h) app_sys" where
  "app_reset tel_pool b d = \<lparr>bus = new_event_bus, timers = Map.empty, tmgr = new_timer_manager, sched = new_scheduler,
     k_nvs = new_nvs_host, k_running = False, k_shutdown = False, k_bootTimeMs = 0, k_diag = new_diagnostics,
     sdk_adapter = None, sdk_ctx = None,
     dm_boot = b, dm_dev = d, dm_sensor = new_sensor, dm_relay = new_relay 26, dm_on = False, dm_telemetry = new_telemetry tel_pool 8192,
     dm_gateway = new_gateway, dm_web = new_webserver, dm_wifi = new_wifi, dm_mqtt = new_mqtt\<rparr>"


section \<open>Callbacks and modules\<close>

text \<open>
  The lambda for \<open>WiFiConnected\<close> asks the MQTT client for a subscription and ignores the answer. The one
  for \<open>SensorDataReady\<close> records a telemetry record.
\<close>

definition on_wifi_connected :: "'h app_api \<Rightarrow> ('f, 'h) app_sys \<Rightarrow> ('f, 'h) app_sys" where
  "on_wifi_connected api w =
     w\<lparr>dm_mqtt := snd (mqtt_subscribe (net_mqtt api (dm_dev w)) (str ''takt/telemetry'') (dm_mqtt w))\<rparr>"

definition on_sensor_data :: "'h app_api \<Rightarrow> event_data \<Rightarrow> ('f, 'h) app_sys \<Rightarrow> ('f, 'h) app_sys" where
  "on_sensor_data api d w = w\<lparr>dm_telemetry := record_telemetry
     \<lparr>tr_timestamp = ucast (getUptimeUs api (dm_dev w) div 1000000), tr_sensorValue = param1 d,
      tr_relayState = 0, tr_reserved = [0, 0, 0]\<rparr> (dm_telemetry w)\<rparr>"

definition app_handlers ::
  "(app_object \<Rightarrow> ptr) \<Rightarrow> 'h app_api \<Rightarrow> ('f, 'h) app_sys handlers \<Rightarrow> ('f, 'h) app_sys handlers" where
  "app_handlers place api hs c d u w =
     (if c = place FnWifiConnected then on_wifi_connected api w
      else if c = place FnSensorData then on_sensor_data api d w
      else hs c d u w)"

definition toggle_relay :: "('f, 'h) app_sys \<Rightarrow> ('f, 'h) app_sys" where
  "toggle_relay w = (let on = \<not> dm_on w in w\<lparr>dm_on := on, dm_relay := setRelay on (dm_relay w)\<rparr>)"

definition app_callbacks ::
  "(app_object \<Rightarrow> ptr) \<Rightarrow> ('f, 'h) app_sys timer_callbacks \<Rightarrow> ('f, 'h) app_sys timer_callbacks" where
  "app_callbacks place cbs c w =
     (if c = place FnDemo then toggle_relay w else if c = place FnStats then w
      else if c = place FnWifiTimeout then w\<lparr>dm_wifi := wifi_on_timeout (dm_wifi w)\<rparr> else cbs c w)"

text \<open>
  The relay behind the virtual interface. What it publishes through the driver state goes out on
  the bus; it is the last thing its functions do. The pin is 26, so that the undefined shift of
  \<open>Gpio::setMode\<close> for other pins does not arise.
\<close>

definition forward :: "('f, 'h) app_sys handlers \<Rightarrow> 'h dev_sys \<Rightarrow> ('f, 'h) app_sys \<Rightarrow> ('f, 'h) app_sys" where
  "forward hs d w = fold (\<lambda>(e, p1, p2). publish hs (event_code e) p1 p2)
     (drop (length (published (dm_dev w))) (published d)) (w\<lparr>dm_dev := d\<rparr>)"

definition relay_imodule :: "'h app_api \<Rightarrow> ('f, 'h) app_sys handlers \<Rightarrow> ('f, 'h) app_sys imodule" where
  "relay_imodule api hs = \<lparr>
     m_init = (\<lambda>w. case relay_init api (dm_relay w) (dm_dev w) of
        None \<Rightarrow> (False, w) | Some (ok, d) \<Rightarrow> (ok, forward hs d w)),
     m_tick = (\<lambda>w. case relay_tick (dm_relay w) (dm_dev w) of (r, d) \<Rightarrow> forward hs d (w\<lparr>dm_relay := r\<rparr>)),
     m_shutdown = (\<lambda>w. case relay_shutdown (dm_relay w) (dm_dev w) of (r, d) \<Rightarrow> forward hs d (w\<lparr>dm_relay := r\<rparr>)),
     m_type = (\<lambda>w. Static), m_budgetUs = (\<lambda>w. 200), m_hasWork = (\<lambda>w. True)\<rparr>"

text \<open>
  WiFi and MQTT. The initialization of WiFi registers and starts its reconnect timer, a member of the
  module (an undefined registration leaves the state as it is; the timer is alive). After the event the
  tick of WiFi only clears \<open>eventPending_\<close>, that of MQTT sends a pending message; no callback of the
  application looks at either.
\<close>

definition wifi_imodule ::
  "(app_object \<Rightarrow> ptr) \<Rightarrow> 'h app_api \<Rightarrow> ('f, 'h) app_sys handlers \<Rightarrow> ('f, 'h) app_sys imodule" where
  "wifi_imodule place api hs = \<lparr>
     m_init = (\<lambda>w. case wifi_init (net_wifi api (dm_dev w)) (net_stored api) (dm_wifi w) of (ok, n) \<Rightarrow>
        let w1 = w\<lparr>dm_wifi := n\<rparr> in
        (ok, case do { w2 \<leftarrow> timer_onTimeout (place FnWifiTimeout) (place ObjWifiTimer) w1; timer_start (place ObjWifiTimer) w2 }
             of None \<Rightarrow> w1 | Some w3 \<Rightarrow> w3)),
     m_tick = (\<lambda>w. case wifi_tick (net_wifi api (dm_dev w)) (dm_wifi w) (dm_dev w) of (n, d) \<Rightarrow> forward hs d (w\<lparr>dm_wifi := n\<rparr>)),
     m_shutdown = (\<lambda>w. w\<lparr>dm_wifi := wifi_shutdown (dm_wifi w)\<rparr>),
     m_type = (\<lambda>w. Background), m_budgetUs = (\<lambda>w. 0), m_hasWork = (\<lambda>w. wifi_hasWork (dm_wifi w))\<rparr>"

definition mqtt_imodule :: "'h app_api \<Rightarrow> ('f, 'h) app_sys handlers \<Rightarrow> ('f, 'h) app_sys imodule" where
  "mqtt_imodule api hs = \<lparr>
     m_init = (\<lambda>w. case mqtt_init (net_mqtt api (dm_dev w)) (net_stored api) (dm_mqtt w) of (ok, m) \<Rightarrow> (ok, w\<lparr>dm_mqtt := m\<rparr>)),
     m_tick = (\<lambda>w. case mqtt_tick (net_mqtt api (dm_dev w)) (dm_mqtt w) (dm_dev w) of (m, d) \<Rightarrow> forward hs d (w\<lparr>dm_mqtt := m\<rparr>)),
     m_shutdown = (\<lambda>w. w\<lparr>dm_mqtt := mqtt_shutdown (net_mqtt api (dm_dev w)) (dm_mqtt w)\<rparr>),
     m_type = (\<lambda>w. Background), m_budgetUs = (\<lambda>w. 0), m_hasWork = (\<lambda>w. mqtt_hasWork (dm_mqtt w))\<rparr>"

definition app_env ::
  "(app_object \<Rightarrow> ptr) \<Rightarrow> 'h app_api \<Rightarrow> ('f, 'h) app_sys env \<Rightarrow> ('f, 'h) app_sys env" where
  "app_env place api other =
     (let hs = app_handlers place api (e_handlers other) in
      other\<lparr>e_handlers := hs, e_timerCallbacks := app_callbacks place (e_timerCallbacks other),
        e_module := (\<lambda>p. if p = place ObjRelay then relay_imodule api hs
           else if p = place ObjWifi then wifi_imodule place api hs
           else if p = place ObjMqtt then mqtt_imodule api hs else e_module other p)\<rparr>)"


section \<open>The main function\<close>

definition app_modules :: "app_object list" where
  "app_modules = [ObjUart, ObjSensor, ObjRelay, ObjModbus, ObjWifi, ObjMqtt, ObjBle, ObjWebserver, ObjOta,
     ObjTelemetry, ObjConfig, ObjGateway]"

definition start_timer ::
  "u32 \<Rightarrow> ptr \<Rightarrow> ptr \<Rightarrow> ('f, 'h) app_sys \<Rightarrow> ('f, 'h) app_sys option" where
  "start_timer interval p cb w =
     do { w1 \<leftarrow> timer_onTimeout cb p (timer_construct interval True p w); timer_start p w1 }"

text \<open>The WiFi module contains its timer, which its constructor constructs.\<close>

definition app_configure :: "(app_object \<Rightarrow> ptr) \<Rightarrow> ('f, 'h) app_sys \<Rightarrow> ('f, 'h) app_sys" where
  "app_configure place w =
     (let s1 = fold (\<lambda>m s. snd (registerModule (Some (place m)) s)) app_modules (sched w);
          s2 = setTaktBudgetUs 8000 (setTaktPeriodMs 1 s1);
          b1 = snd (subscribe (event_code WiFiConnected) (Some (place FnWifiConnected)) (Some (place ObjMqtt)) (bus w));
          b2 = snd (subscribe (event_code SensorDataReady) (Some (place FnSensorData)) (Some (place ObjTelemetry)) b1)
      in (timer_construct 5000 True (place ObjWifiTimer) w)\<lparr>bus := b2, sched := s2, dm_gateway := (dm_gateway w)\<lparr>gw_attached := True\<rparr>, dm_web := ws_setPort 80 (dm_web w)\<rparr>)"

definition app_setup :: "(app_object \<Rightarrow> ptr) \<Rightarrow> ('f, 'h) app_sys \<Rightarrow> ('f, 'h) app_sys option" where
  "app_setup place w =
     do { w1 \<leftarrow> start_timer 30000 (place ObjStatsTimer) (place FnStats) (app_configure place w);
          start_timer 10000 (place ObjDemoTimer) (place FnDemo) w1 }"

text \<open>
  What the partition table and the OTA functions of the vendor answer to \<open>Platform::init\<close>. \<open>app_boot\<close> is
  \<open>main\<close> up to the call of \<open>kernel.run\<close>.
\<close>

record 'f app_flash =
  af_lookup :: "string \<Rightarrow> 'f esp_partition option"
  af_ota0 :: "(u32 \<times> u32) option"
  af_ota1 :: "(u32 \<times> u32) option"
  af_ota :: "'f esp_ota"

definition app_platform :: "'f app_flash \<Rightarrow> 'f boot_sys \<Rightarrow> 'f boot_sys" where
  "app_platform af b = snd (platform_init (af_lookup af) (af_ota0 af) (af_ota1 af) (af_ota af) b)"

definition app_boot ::
  "(app_object \<Rightarrow> ptr) \<Rightarrow> ('f, 'h) app_kenv \<Rightarrow> 'f app_flash \<Rightarrow> ('f, 'h) app_sys \<Rightarrow>
   (bool \<times> ('f, 'h) app_sys) option" where
  "app_boot place ke af w =
     do { w1 \<leftarrow> app_setup place (w\<lparr>dm_boot := app_platform af (dm_boot w)\<rparr>);
          case kernel_boot ke w1 of (ok, w2) \<Rightarrow>
            Some (ok, if ok then w2\<lparr>dm_boot := markBootSuccessful (dm_boot w2)\<rparr> else w2) }"

definition app_main ::
  "(app_object \<Rightarrow> ptr) \<Rightarrow> ('f, 'h) app_kenv \<Rightarrow> 'f app_flash \<Rightarrow> ('f, 'h) app_sys \<Rightarrow>
   ('f, 'h) app_sys option" where
  "app_main place ke af w =
     do { (ok, w1) \<leftarrow> app_boot place ke af w; if \<not> ok then Some w1 else kernel_run ke w1 }"

text \<open>
  The recovery application: the manager listens on WiFi, and the callback of the application
  writes log lines.
\<close>

definition recovery_app_main :: "'f dfu_env \<Rightarrow> 'f app_flash \<Rightarrow> 'f dfu_sys \<Rightarrow> 'f dfu_sys option" where
  "recovery_app_main env af s =
     (let s1 = snd (platform_init (af_lookup af) (af_ota0 af) (af_ota1 af) (af_ota af) s);
          s2 = snd (recovery_init ChWiFi s1)
      in recovery_run env (s2\<lparr>dfu_callback := Some ClientProgress\<rparr>))"


section \<open>What the relay and its timer share\<close>

text \<open>The relay, the static variable of the callback, and the level at the pin of the relay.\<close>

definition relay_view :: "('f, 'h) app_sys \<Rightarrow> relay \<times> bool \<times> bool" where
  "relay_view w = (dm_relay w, dm_on w, gpio_level (dm_dev w) (rl_gpioPin (dm_relay w)))"

definition toggle_view :: "relay \<times> bool \<times> bool \<Rightarrow> relay \<times> bool \<times> bool" where
  "toggle_view = (\<lambda>(r, on, level). (setRelay (\<not> on) r, \<not> on, level))"

definition tick_view :: "relay \<times> bool \<times> bool \<Rightarrow> relay \<times> bool \<times> bool" where
  "tick_view = (\<lambda>(r, on, level).
     if rl_pending r then (r\<lparr>rl_pending := False, rl_relayOn := rl_target r\<rparr>, on, rl_target r) else (r, on, level))"

text \<open>
  The rest of the application: it obeys the discipline of timers and event cascades, leaves the module
  table, the timers and the relay alone, and its modules initialize.
\<close>

definition still :: "('f, 'h) app_sys \<Rightarrow> ('f, 'h) app_sys \<Rightarrow> bool" where
  "still w w' \<longleftrightarrow> timers w' = timers w \<and> tmgr w' = tmgr w \<and> relay_view w' = relay_view w"

definition app_rest :: "(event_data \<Rightarrow> nat) \<Rightarrow> ('f, 'h) app_sys env \<Rightarrow> bool" where
  "app_rest rank other \<longleftrightarrow> tame rank other \<and> sched_quiet other \<and>
     (\<forall>c d u w. still w (e_handlers other c d u w)) \<and> (\<forall>c w. still w (e_timerCallbacks other c w)) \<and>
     (\<forall>w. still w (snd (e_nowUs other w)) \<and> still w (e_wdtReset other w)) \<and> (\<forall>n w. still w (e_delay other n w)) \<and>
     (\<forall>q w. still w (m_tick (e_module other q) w)) \<and>
     (\<forall>q w. fst (m_init (e_module other q) w) \<and> still w (snd (m_init (e_module other q) w)) \<and>
        (wf_bus (bus w) \<longrightarrow> wf_bus (bus (snd (m_init (e_module other q) w)))))"

lemma app_restD:
  assumes "app_rest rank other"
  shows "tame rank other" "sched_quiet other" "still w (e_handlers other c d u w)"
    "still w (e_timerCallbacks other c w)" "still w (snd (e_nowUs other w))" "still w (e_wdtReset other w)"
    "still w (e_delay other n w)" "still w (m_tick (e_module other q) w)" "fst (m_init (e_module other q) w)"
    "still w (snd (m_init (e_module other q) w))"
    "wf_bus (bus w) \<Longrightarrow> wf_bus (bus (snd (m_init (e_module other q) w)))"
  using assms unfolding app_rest_def by blast+

lemma stillD:
  assumes "still w w'"
  shows "timers w' = timers w" "tmgr w' = tmgr w" "relay_view w' = relay_view w"
  using assms by (simp_all add: still_def)

lemma still_refl [simp]: "still w w"
  by (simp add: still_def)

lemma still_trans: "still u v \<Longrightarrow> still v w \<Longrightarrow> still u w"
  by (simp add: still_def)

lemma still_frame [simp]:
  "still w (w\<lparr>dm_wifi := wn\<rparr>)" "still w (w\<lparr>dm_mqtt := mq\<rparr>)" "still w (on_wifi_connected api w)"
  "still w (w\<lparr>bus := b\<rparr>)" "still w (w\<lparr>sched := s\<rparr>)" "still w (w\<lparr>dm_telemetry := t\<rparr>)"
  "still w (w\<lparr>dm_boot := f\<rparr>)" "still w (w\<lparr>k_running := r\<rparr>)" "still w (w\<lparr>k_nvs := n\<rparr>)" "still w (w\<lparr>k_bootTimeMs := m\<rparr>)"
  by (simp_all add: still_def relay_view_def on_wifi_connected_def)

lemma still_safe: "still w w' \<Longrightarrow> safe_timers w \<Longrightarrow> safe_timers w'"
  by (simp add: still_def safe_timers_def)

lemma relay_view_frame [simp]:
  "relay_view (w\<lparr>sched := s\<rparr>) = relay_view w" "relay_view (w\<lparr>timers := t\<rparr>) = relay_view w"
  "relay_view (w\<lparr>bus := b\<rparr>) = relay_view w" "relay_view (w\<lparr>k_running := r\<rparr>) = relay_view w"
  "relay_view (w\<lparr>dm_boot := f\<rparr>) = relay_view w" "relay_view (w\<lparr>dm_wifi := wn\<rparr>) = relay_view w"
  "relay_view (w\<lparr>dm_mqtt := mq\<rparr>) = relay_view w" "relay_view (w\<lparr>tmgr := tm\<rparr>) = relay_view w"
  by (simp_all add: relay_view_def)


subsection \<open>Publishing and forwarding\<close>

lemma publish_inv:
  assumes "\<And>c d u v. I v \<Longrightarrow> I (hs c d u v)" and "I w"
  shows "I (publish hs e a b w)"
  unfolding publish_def by (rule dispatch_inv [where I = I]) (use assms in auto)

lemma forward_inv:
  assumes "\<And>c d u v. I v \<Longrightarrow> I (hs c d u v)" and "I (w\<lparr>dm_dev := d\<rparr>)"
  shows "I (forward hs d w)"
proof -
  have "I (fold (\<lambda>(e, a, b). publish hs (event_code e) a b) es v)" if "I v" for es v
    using that
  proof (induction es arbitrary: v)
    case (Cons x es)
    then show ?case using publish_inv [of I hs v, OF assms(1)] by (cases x) auto
  qed simp
  then show ?thesis using assms(2) by (simp add: forward_def)
qed

text \<open>
  The event queue is empty, and the callback \<open>p\<close> is in slot \<open>k\<close>, for the event \<open>e\<close>, and in no other. Then it runs for
  this event only, between the callbacks in the slots before and after its own.
\<close>

definition sole_listener :: "ptr \<Rightarrow> nat \<Rightarrow> u32 \<Rightarrow> event_bus \<Rightarrow> bool" where
  "sole_listener p k e b \<longleftrightarrow> queueCount b = 0 \<and> sub_active (subscriptions b ! k) \<and> sub_callback (subscriptions b ! k) = Some p \<and>
     sub_event (subscriptions b ! k) = e \<and>
     (\<forall>i < kMaxEventSubscribers. i \<noteq> k \<and> sub_active (subscriptions b ! i) \<longrightarrow> sub_callback (subscriptions b ! i) \<noteq> Some p)"

lemma dispatch_slots_others:
  assumes "\<And>v. J v \<Longrightarrow> sole_listener p k e (bus v)" and "\<And>c u v. c \<noteq> p \<Longrightarrow> J v \<Longrightarrow> J (hs c d u v)"
    and "J w" and "\<forall>i\<in>set is. i < kMaxEventSubscribers \<and> (i \<noteq> k \<or> ev_id d \<noteq> e)"
  shows "J (fold (dispatch_slot hs d) is w)"
  using assms(3,4)
proof (induction "is" arbitrary: w)
  case (Cons i "is")
  have "J (dispatch_slot hs d i w)"
    using assms(1) [OF Cons.prems(1)] assms(2) Cons.prems
    by (auto simp: dispatch_slot_def sole_listener_def Let_def split: option.split)
  then show ?case using Cons by simp
qed simp

lemma publish_others:
  assumes "\<And>v. J v \<Longrightarrow> sole_listener p k e (bus v)" and "\<And>c d u v. c \<noteq> p \<Longrightarrow> J v \<Longrightarrow> J (hs c d u v)" and "J w" and "e' \<noteq> e"
  shows "J (publish hs e' a b w)"
  unfolding publish_def dispatch_def
  by (rule dispatch_slots_others [where J = J, OF assms(1,2)]) (use assms(3,4) in simp_all)

lemma publish_sole:
  assumes "\<And>v. J v \<Longrightarrow> sole_listener p k e (bus v)" and "\<And>c d u v. c \<noteq> p \<Longrightarrow> J v \<Longrightarrow> J (hs c d u v)" and "J w"
    and "\<And>v. K v \<Longrightarrow> sole_listener p k e (bus v)" and "\<And>c d u v. c \<noteq> p \<Longrightarrow> K v \<Longrightarrow> K (hs c d u v)"
    and "\<And>d u v. param1 d = a \<Longrightarrow> J v \<Longrightarrow> K (hs p d u v)" and "k < kMaxEventSubscribers"
  shows "K (publish hs e a b w)"
proof -
  define d where "d = empty_event\<lparr>ev_id := e, param1 := a, param2 := b\<rparr>"
  define w1 where "w1 = fold (dispatch_slot hs d) [0..<k] w"
  have w1: "J w1" unfolding w1_def
    by (rule dispatch_slots_others [where J = J and p = p and k = k and e = e]) (use assms in auto)
  have "dispatch_slot hs d k w1 = hs p d (sub_userData (subscriptions (bus w1) ! k)) w1"
    using assms(1) [OF w1] by (simp add: dispatch_slot_def sole_listener_def d_def)
  then have "K (dispatch_slot hs d k w1)" using assms(6) [OF _ w1] by (simp add: d_def)
  then have "K (fold (dispatch_slot hs d) [Suc k..<kMaxEventSubscribers] (dispatch_slot hs d k w1))"
    by (intro dispatch_slots_others [where J = K and p = p and k = k and e = e]) (use assms in auto)
  then show ?thesis
    by (simp add: publish_def dispatch_def upt_split_at [OF assms(7)] w1_def [symmetric] d_def [symmetric])
qed

lemma handlers_still:
  assumes "app_rest rank other"
  shows "still w (app_handlers place api (e_handlers other) c d u w)"
  using app_restD(3) [OF assms] by (simp add: app_handlers_def on_sensor_data_def)

lemma handlers_sched:
  assumes "app_rest rank other"
  shows "sched (app_handlers place api (e_handlers other) c d u w) = sched w"
  using app_restD(2) [OF assms] by (simp add: app_handlers_def on_sensor_data_def on_wifi_connected_def sched_quiet_def)

lemma handlers_bus:
  assumes "app_rest rank other" and "wf_bus (bus w)"
  shows "appends_lower rank d (bus w) (bus (app_handlers place api (e_handlers other) c d u w))"
  using app_restD(1) [OF assms(1)] assms(2)
  by (simp add: app_handlers_def on_sensor_data_def on_wifi_connected_def tame_def ranked_handlers_def appends_lower_def)

text \<open>Whatever the relay publishes: the bus stays in order and nothing but the driver state changes.\<close>

lemma forward_frame:
  fixes place api
  assumes "app_rest rank other"
  defines "hs \<equiv> app_handlers place api (e_handlers other)"
  shows "still (w\<lparr>dm_dev := d\<rparr>) (forward hs d w)" and "sched (forward hs d w) = sched w"
    and "wf_bus (bus w) \<Longrightarrow> wf_bus (bus (forward hs d w))"
proof -
  show "still (w\<lparr>dm_dev := d\<rparr>) (forward hs d w)"
    by (rule forward_inv [where I = "still (w\<lparr>dm_dev := d\<rparr>)"])
      (use still_trans [OF _ handlers_still [OF assms(1)]] in \<open>simp_all add: hs_def\<close>)
  show "sched (forward hs d w) = sched w"
    by (rule forward_inv [where I = "\<lambda>v. sched v = sched w"]) (simp_all add: hs_def handlers_sched [OF assms(1)])
  show "wf_bus (bus (forward hs d w))" if "wf_bus (bus w)"
    by (rule forward_inv [where I = "\<lambda>v. wf_bus (bus v)"])
      (use that handlers_bus [OF assms(1)] in \<open>auto simp: hs_def appends_lower_def\<close>)
qed


lemma relay_tick_module:
  fixes place api w
  assumes "app_rest rank other"
  defines "hs \<equiv> app_handlers place api (e_handlers other)"
  defines "w' \<equiv> m_tick (relay_imodule api hs) w"
  shows "timers w' = timers w" and "tmgr w' = tmgr w" and "relay_view w' = tick_view (relay_view w)"
    and "sched w' = sched w" and "wf_bus (bus w) \<Longrightarrow> wf_bus (bus w')"
proof -
  obtain r d where rd: "relay_tick (dm_relay w) (dm_dev w) = (r, d)" by fastforce
  have w': "w' = forward hs d (w\<lparr>dm_relay := r\<rparr>)" by (simp add: w'_def relay_imodule_def rd)
  note f = forward_frame [OF assms(1), where place = place and api = api and d = d and w = "w\<lparr>dm_relay := r\<rparr>", folded hs_def]
  have "relay_view (w\<lparr>dm_relay := r, dm_dev := d\<rparr>) = tick_view (relay_view w)"
    using rd by (auto simp: relay_view_def tick_view_def relay_tick_def dev_publish_def gpio_write_def Let_def split: if_splits)
  then show "timers w' = timers w" "tmgr w' = tmgr w" "relay_view w' = tick_view (relay_view w)"
    using stillD [OF f(1)] by (simp_all add: w')
  show "sched w' = sched w" "wf_bus (bus w) \<Longrightarrow> wf_bus (bus w')" using f(2,3) by (simp_all add: w')
qed

text \<open>The network modules publish and are otherwise among themselves.\<close>

lemma forward_published:
  assumes "published d = published (dm_dev w)"
  shows "forward hs d w = w\<lparr>dm_dev := d\<rparr>"
    and "forward hs (dev_publish e p1 p2 d) w = publish hs (event_code e) p1 p2 (w\<lparr>dm_dev := dev_publish e p1 p2 d\<rparr>)"
  using assms by (simp_all add: forward_def dev_publish_def del: event_code.simps)

text \<open>\<open>announces c\<close>: from \<open>d0\<close> to \<open>d\<close> at most one event is published, and that is not \<open>c\<close>.\<close>

definition announces :: "event_name \<Rightarrow> 'h dev_sys \<Rightarrow> 'h dev_sys \<Rightarrow> bool" where
  "announces c d0 d \<longleftrightarrow> published d = published d0 \<or>
     (\<exists>e d1. d = dev_publish e 0 0 d1 \<and> published d1 = published d0 \<and> event_code e \<noteq> event_code c)"

lemma forward_announces:
  assumes "announces c (dm_dev w) d"
  obtains "forward hs d w = w\<lparr>dm_dev := d\<rparr>"
  | e where "forward hs d w = publish hs (event_code e) 0 0 (w\<lparr>dm_dev := d\<rparr>)" and "event_code e \<noteq> event_code c"
proof (cases "published d = published (dm_dev w)")
  case False
  then obtain e d1 where "d = dev_publish e 0 0 d1" "published d1 = published (dm_dev w)" "event_code e \<noteq> event_code c"
    using assms unfolding announces_def by blast
  then show thesis using that(2) [of e] forward_published(2) [of d1 w hs e 0 0] by simp
qed (use that(1) forward_published(1) in blast)

lemma relay_announces:
  assumes "c \<in> {SensorDataReady, WiFiConnected}"
  shows "relay_tick r d0 = (r', d) \<Longrightarrow> announces c d0 d" and "relay_init api r d0 = Some (ok, d) \<Longrightarrow> announces c d0 d"
  using assms
  by (fastforce simp: announces_def relay_tick_def Let_def gpio_write_def split: if_splits)
    (auto simp: announces_def relay_init_def gpio_setMode_def gpio_write_def split: if_splits bind_splits)

lemma network_announces:
  "wifi_tick we n d0 = (n', d) \<Longrightarrow> announces SensorDataReady d0 d" "mqtt_tick me m d0 = (m', d) \<Longrightarrow> announces SensorDataReady d0 d"
  by (fastforce simp: announces_def wifi_tick_def mqtt_tick_def Let_def split: if_splits prod.splits)+

lemma network_levels:
  "wifi_tick e n d = (n', d') \<Longrightarrow> gpio_level d' = gpio_level d" "mqtt_tick m q d = (q', d') \<Longrightarrow> gpio_level d' = gpio_level d"
  by (auto simp: wifi_tick_def mqtt_tick_def dev_publish_def Let_def split: prod.splits if_splits)

lemma network_tick_module:
  fixes place api
  assumes "app_rest rank other"
  defines "hs \<equiv> app_handlers place api (e_handlers other)"
  assumes "M = wifi_imodule place api hs \<or> M = mqtt_imodule api hs"
  shows "still w (m_tick M w)" and "sched (m_tick M w) = sched w" and "wf_bus (bus w) \<Longrightarrow> wf_bus (bus (m_tick M w))"
proof -
  obtain n1 d1 where 1: "wifi_tick (net_wifi api (dm_dev w)) (dm_wifi w) (dm_dev w) = (n1, d1)" by fastforce
  obtain m2 d2 where 2: "mqtt_tick (net_mqtt api (dm_dev w)) (dm_mqtt w) (dm_dev w) = (m2, d2)" by fastforce
  have "m_tick (wifi_imodule place api hs) w = forward hs d1 (w\<lparr>dm_wifi := n1, dm_mqtt := dm_mqtt w\<rparr>)"
    "m_tick (mqtt_imodule api hs) w = forward hs d2 (w\<lparr>dm_wifi := dm_wifi w, dm_mqtt := m2\<rparr>)"
    by (simp_all add: wifi_imodule_def mqtt_imodule_def 1 2)
  then have "\<exists>d n m. m_tick M w = forward hs d (w\<lparr>dm_wifi := n, dm_mqtt := m\<rparr>) \<and> gpio_level d = gpio_level (dm_dev w)"
    using assms(3) network_levels(1) [OF 1] network_levels(2) [OF 2] by metis
  then obtain d n m where d: "m_tick M w = forward hs d (w\<lparr>dm_wifi := n, dm_mqtt := m\<rparr>)" "gpio_level d = gpio_level (dm_dev w)"
    by blast
  define v where "v = w\<lparr>dm_wifi := n, dm_mqtt := m\<rparr>"
  note f = forward_frame [OF assms(1), where place = place and api = api and d = d and w = v, folded hs_def]
  have "still w (v\<lparr>dm_dev := d\<rparr>)" using d(2) by (simp add: v_def still_def relay_view_def)
  then show "still w (m_tick M w)" unfolding d(1) v_def [symmetric] using f(1) by (rule still_trans)
  show "sched (m_tick M w) = sched w" "wf_bus (bus w) \<Longrightarrow> wf_bus (bus (m_tick M w))"
    using f(2,3) by (simp_all add: d(1) v_def)
qed

lemmas wifi_tick_module = network_tick_module [OF _ disjI1 [OF refl]]
lemmas mqtt_tick_module = network_tick_module [OF _ disjI2 [OF refl]]

text \<open>The initialization of WiFi changes the module and the timers.\<close>

lemma timer_ops_frame:
  "timer_onTimeout cb p w = Some w' \<Longrightarrow> \<exists>ts tm. w' = w\<lparr>timers := ts, tmgr := tm\<rparr>"
  "timer_start p w = Some w' \<Longrightarrow> \<exists>ts tm. w' = w\<lparr>timers := ts, tmgr := tm\<rparr>"
  by (auto intro!: exI [of _ "timers w'"] exI [of _ "tmgr w'"] simp: takt_ops split: bind_splits option.splits if_splits)

lemma wifi_init_changes:
  fixes w :: "('f, 'h) app_sys"
  obtains n ts tm where "snd (m_init (wifi_imodule place api hs) w) = w\<lparr>dm_wifi := n, timers := ts, tmgr := tm\<rparr>"
    and "n = snd (wifi_init (net_wifi api (dm_dev w)) (net_stored api) (dm_wifi w))"
proof -
  define n where "n = snd (wifi_init (net_wifi api (dm_dev w)) (net_stored api) (dm_wifi w))"
  have n: "wifi_init (net_wifi api (dm_dev w)) (net_stored api) (dm_wifi w) = (True, n)" by (simp add: n_def wifi_init_def)
  let ?w = "w\<lparr>dm_wifi := n\<rparr>"
  have "\<exists>ts tm. w3 = ?w\<lparr>timers := ts, tmgr := tm\<rparr>"
    if ops: "do { w2 \<leftarrow> timer_onTimeout cb p ?w; timer_start p w2 } = Some w3" for cb p w3
  proof -
    obtain w2 where w2: "timer_onTimeout cb p ?w = Some w2" "timer_start p w2 = Some w3" using ops by (auto simp: bind_eq_Some_conv)
    obtain ts tm where "w2 = ?w\<lparr>timers := ts, tmgr := tm\<rparr>" using timer_ops_frame(1) [OF w2(1)] by blast
    then show ?thesis using timer_ops_frame(2) [OF w2(2)] by auto
  qed
  moreover define r where "r = do { w2 \<leftarrow> timer_onTimeout (place FnWifiTimeout) (place ObjWifiTimer) ?w; timer_start (place ObjWifiTimer) w2 }"
  ultimately have some: "\<exists>ts tm. w3 = ?w\<lparr>timers := ts, tmgr := tm\<rparr>" if "r = Some w3" for w3 using that by blast
  have r: "snd (m_init (wifi_imodule place api hs) w) = (case r of None \<Rightarrow> ?w | Some w3 \<Rightarrow> w3)"
    by (simp add: wifi_imodule_def n Let_def r_def)
  show thesis
  proof (cases r)
    case None
    then show thesis using that [where n = n and ts = "timers w" and tm = "tmgr w"] r n_def by simp
  next
    case (Some w3)
    then obtain ts tm where "w3 = ?w\<lparr>timers := ts, tmgr := tm\<rparr>" using some by blast
    then show thesis using that [where n = n and ts = ts and tm = tm] r n_def Some by simp
  qed
qed

lemma mqtt_init_module:
  "m_init (mqtt_imodule api hs) w = (True, w\<lparr>dm_mqtt := snd (mqtt_init (net_mqtt api (dm_dev w)) (net_stored api) (dm_mqtt w))\<rparr>)"
  by (simp add: mqtt_imodule_def mqtt_init_def Let_def)

lemma network_init_sched:
  "sched (snd (m_init (wifi_imodule place api hs) w)) = sched w" "sched (snd (m_init (mqtt_imodule api hs) w)) = sched w"
  by (rule wifi_init_changes [of place api hs w]) (simp_all add: mqtt_init_module)

lemma relay_init_module:
  fixes place api w
  assumes "app_rest rank other" and "fst (relay_view w) = new_relay 26"
  defines "hs \<equiv> app_handlers place api (e_handlers other)"
  defines "w' \<equiv> snd (m_init (relay_imodule api hs) w)"
  shows "fst (m_init (relay_imodule api hs) w)" and "timers w' = timers w" and "tmgr w' = tmgr w"
    and "relay_view w' = (new_relay 26, dm_on w, False)" and "sched w' = sched w"
    and "wf_bus (bus w) \<Longrightarrow> wf_bus (bus w')"
proof -
  obtain d where d: "relay_init api (dm_relay w) (dm_dev w) = Some (True, d)" and level: "\<not> gpio_level d 26"
    using assms(2)
    by (cases "ga_config api 67108864 Output")
      (simp_all add: relay_view_def relay_init_def gpio_setMode_def gpio_write_def new_relay_def)
  have w': "w' = forward hs d w" by (simp add: w'_def relay_imodule_def d)
  show "fst (m_init (relay_imodule api hs) w)" by (simp add: relay_imodule_def d)
  note f = forward_frame [OF assms(1), where place = place and api = api and d = d and w = w, folded hs_def]
  show "timers w' = timers w" "tmgr w' = tmgr w" "relay_view w' = (new_relay 26, dm_on w, False)"
    using stillD [OF f(1)] assms(2) level by (auto simp: w' relay_view_def new_relay_def)
  show "sched w' = sched w" "wf_bus (bus w) \<Longrightarrow> wf_bus (bus w')" using f(2,3) by (simp_all add: w')
qed

lemma toggle_relay_frame:
  "timers (toggle_relay w) = timers w" "tmgr (toggle_relay w) = tmgr w" "sched (toggle_relay w) = sched w"
  "bus (toggle_relay w) = bus w" "relay_view (toggle_relay w) = toggle_view (relay_view w)"
  by (simp_all add: toggle_relay_def relay_view_def toggle_view_def setRelay_def Let_def)

lemma app_env_simps [simp]:
  "e_handlers (app_env place api other) = app_handlers place api (e_handlers other)"
  "e_timerCallbacks (app_env place api other) = app_callbacks place (e_timerCallbacks other)"
  "e_module (app_env place api other) q = (if q = place ObjRelay
     then relay_imodule api (app_handlers place api (e_handlers other))
     else if q = place ObjWifi then wifi_imodule place api (app_handlers place api (e_handlers other))
     else if q = place ObjMqtt then mqtt_imodule api (app_handlers place api (e_handlers other)) else e_module other q)"
  "e_nowUs (app_env place api other) = e_nowUs other" "e_wdtReset (app_env place api other) = e_wdtReset other"
  "e_delay (app_env place api other) = e_delay other"
  by (simp_all add: app_env_def Let_def)

lemma relay_shutdown_sched:
  assumes "app_rest rank other"
  shows "sched (m_shutdown (relay_imodule api (app_handlers place api (e_handlers other))) w) = sched w"
  using forward_frame(2) [OF assms] by (simp add: relay_imodule_def split: prod.split)

lemma relay_init_sched:
  assumes "app_rest rank other"
  shows "sched (snd (m_init (relay_imodule api (app_handlers place api (e_handlers other))) w)) = sched w"
  using forward_frame(2) [OF assms] by (simp add: relay_imodule_def split: prod.split option.split)

lemma app_sched_quiet:
  fixes other :: "('f, 'h) app_sys env"
  assumes "app_rest rank other"
  shows "sched_quiet (app_env place api other)"
proof -
  have "sched (m_shutdown (wifi_imodule place api hs) w) = sched w" "sched (m_shutdown (mqtt_imodule api hs) w) = sched w"
    for hs and w :: "('f, 'h) app_sys"
    by (simp_all add: wifi_imodule_def mqtt_imodule_def)
  then show ?thesis
    using app_restD(2) [OF assms] relay_tick_module(4) [OF assms] relay_shutdown_sched [OF assms]
      relay_init_sched [OF assms] handlers_sched [OF assms]
      wifi_tick_module(2) [OF assms] mqtt_tick_module(2) [OF assms]
    by (simp add: network_init_sched sched_quiet_def app_callbacks_def toggle_relay_frame)
qed

lemma callbacks_quiet:
  assumes "app_rest rank other"
  shows "quiet_callbacks (app_callbacks place (e_timerCallbacks other))"
  using stillD [OF app_restD(4) [OF assms]] by (simp add: quiet_callbacks_def app_callbacks_def toggle_relay_frame)

lemma quiet_careful: "quiet_callbacks tcbs \<Longrightarrow> careful_callbacks tcbs"
  by (auto simp: quiet_callbacks_def careful_callbacks_def safe_timers_def)

lemma app_tame:
  assumes "app_rest rank other"
  shows "tame rank (app_env place api other)"
proof -
  note t = app_restD(1) [OF assms, unfolded tame_def env_keeps_def]
  have "ranked_handlers rank (app_handlers place api (e_handlers other))"
    using handlers_bus [OF assms] by (simp add: ranked_handlers_def)
  moreover have "careful_callbacks (app_callbacks place (e_timerCallbacks other))"
    by (rule quiet_careful [OF callbacks_quiet [OF assms]])
  moreover have "env_keeps (app_env place api other) (\<lambda>w. wf_bus (bus w))"
    using t handlers_bus [OF assms] relay_tick_module(5) [OF assms]
      wifi_tick_module(3) [OF assms] mqtt_tick_module(3) [OF assms]
    by (simp add: env_keeps_def appends_lower_def)
  moreover have "safe_timers w \<Longrightarrow> safe_timers (m_tick (relay_imodule api (app_handlers place api (e_handlers other))) w)" for w
    using relay_tick_module(1,2) [OF assms] by (simp add: safe_timers_def)
  then have "env_keeps (app_env place api other) safe_timers"
    using t still_safe [OF handlers_still [OF assms]] still_safe [OF wifi_tick_module(1) [OF assms]]
      still_safe [OF mqtt_tick_module(1) [OF assms]] by (simp add: env_keeps_def)
  ultimately show ?thesis
    using t by (simp add: tame_def app_callbacks_def toggle_relay_frame)
qed


subsection \<open>The interface of timer and module\<close>

text \<open>
  An application that does not obey \<open>app_rest\<close> is replaced by an idle one, so that the interface
  holds for every argument; below it is used where \<open>app_rest\<close> is a hypothesis.
\<close>

definition obedient :: "(event_data \<Rightarrow> nat) \<Rightarrow> ('f, 'h) app_sys env \<Rightarrow> ('f, 'h) app_sys env" where
  "obedient rank other = (if app_rest rank other then other else idle_env)"

lemma app_rest_idle: "app_rest rank (idle_env :: ('f, 'h) app_sys env)"
  by (auto simp: app_rest_def sched_quiet_def idle_env_def tame_def env_keeps_def careful_callbacks_def ranked_handlers_def appends_lower_def)

lemma app_rest_obedient: "app_rest rank (obedient rank other)"
  by (simp add: obedient_def app_rest_idle)

lemma still_undisturbed: "still w w' \<Longrightarrow> undisturbed (\<lambda>w. True) relay_view w w'"
  by (simp add: still_def undisturbed_def)

interpretation app: timer_driven "app_env place api (obedient rank other)" rank relay_view toggle_view tick_view
  "place FnDemo" "place ObjRelay" for place api rank other
proof
  note r = app_rest_obedient [of rank other]
  let ?e = "app_env place api (obedient rank other)"
  show "tame rank ?e" "sched_quiet ?e" by (rule app_tame [OF r] app_sched_quiet [OF r])+
  show "quiet_callbacks (e_timerCallbacks ?e)" using callbacks_quiet [OF r] by simp
  show "m_type (e_module ?e (place ObjRelay)) w \<noteq> Background" for w by (simp add: relay_imodule_def)
  show "timers (m_tick (e_module ?e q) w) = timers w" "tmgr (m_tick (e_module ?e q) w) = tmgr w"
    and "relay_view (m_tick (e_module ?e q) w) = (if q = place ObjRelay then tick_view (relay_view w) else relay_view w)" for q w
    using stillD [OF app_restD(8) [OF r]] stillD [OF wifi_tick_module(1) [OF r]] stillD [OF mqtt_tick_module(1) [OF r]] relay_tick_module(1-3) [OF r] by simp_all
qed (simp_all add: still_undisturbed app_restD(5-7) [OF app_rest_obedient] handlers_still [OF app_rest_obedient]
    stillD [OF app_restD(4) [OF app_rest_obedient]] app_callbacks_def toggle_relay_frame)


section \<open>After the set-up\<close>

definition registered_entry :: "ptr \<Rightarrow> module_entry" where
  "registered_entry p = \<lparr>me_module = Some p, me_stats = new_module_stats\<lparr>ms_state := Registered\<rparr>, me_active = True\<rparr>"

lemma register_all:
  assumes "wf_sched s" and "moduleCount s + length ps \<le> kMaxModules"
  defines "s' \<equiv> fold (\<lambda>p s. snd (registerModule (Some p) s)) ps s"
  shows "wf_sched s' \<and> moduleCount s' = moduleCount s + length ps \<and>
    (\<forall>i < moduleCount s. modules s' ! i = modules s ! i) \<and>
    (\<forall>i < length ps. modules s' ! (moduleCount s + i) = registered_entry (ps ! i))"
  using assms(1,2) unfolding s'_def
proof (induction ps arbitrary: s)
  case (Cons p ps)
  let ?s = "snd (registerModule (Some p) s)"
  have len: "length (modules s) = kMaxModules" and new: "modules s ! moduleCount s = new_module_entry"
    using Cons.prems by (auto simp: wf_sched_def)
  have s: "wf_sched ?s" "moduleCount ?s = moduleCount s + 1"
    "modules ?s ! moduleCount s = registered_entry p" "\<forall>i < moduleCount s. modules ?s ! i = modules s ! i"
    using wf_registerModule [OF Cons.prems(1), of "Some p"] Cons.prems(2) len new
    by (simp_all add: registerModule_def nth_update_entry registered_entry_def set_state_def new_module_entry_def)
  note IH = Cons.IH [OF s(1)]
  have "modules (fold (\<lambda>p s. snd (registerModule (Some p) s)) (p # ps) s) ! (moduleCount s + i) = registered_entry ((p # ps) ! i)"
    if "i < length (p # ps)" for i
    using that IH s Cons.prems(2) by (cases i) auto
  then show ?case using IH s Cons.prems(2) by simp
qed simp

definition running_timer :: "u32 \<Rightarrow> ptr \<Rightarrow> nat \<Rightarrow> timer" where
  "running_timer interval cb j = \<lparr>t_handle = of_nat j, intervalMs = interval, elapsedMs = 0, t_active = True,
     t_repeat = True, t_callback = Some cb\<rparr>"

definition add_timer :: "nat \<Rightarrow> ptr \<Rightarrow> timer \<Rightarrow> 'z timer_sys_scheme \<Rightarrow> 'z timer_sys_scheme" where
  "add_timer j p t w = w\<lparr>tmgr := \<lparr>timer_slots = (timer_slots (tmgr w))[j := Some p], activeCount = activeCount (tmgr w) + 1\<rparr>,
     timers := (timers w)(p \<mapsto> t)\<rparr>"

text \<open>A new timer that gets its callback and is started.\<close>

lemma new_timer_starts:
  assumes "timers w p = Some (new_timer interval True)" and "activeCount (tmgr w) < kMaxTimers"
    and "find_index (\<lambda>s. s = None) (timer_slots (tmgr w)) = Some j"
  shows "do { w1 \<leftarrow> timer_onTimeout cb p w; timer_start p w1 } = Some (add_timer j p (running_timer interval cb j) w)"
  using onTimeout_registers [OF assms, of cb]
  by (simp add: timer_start_def with_timer_def new_timer_def running_timer_def add_timer_def)

lemma start_timer_registers:
  assumes "activeCount (tmgr w) < kMaxTimers" and "find_index (\<lambda>s. s = None) (timer_slots (tmgr w)) = Some j"
  shows "start_timer interval p cb w = Some (add_timer j p (running_timer interval cb j) w)"
  using new_timer_starts [of "timer_construct interval True p w" p interval j cb] assms
  by (simp add: start_timer_def timer_construct_def add_timer_def)

text \<open>The two timers of \<open>main\<close> take the first two slots; that of WiFi is only constructed.\<close>

definition app_timers :: "(app_object \<Rightarrow> ptr) \<Rightarrow> ('f, 'h) app_sys \<Rightarrow> ('f, 'h) app_sys" where
  "app_timers place w = w\<lparr>tmgr := \<lparr>timer_slots = Some (place ObjStatsTimer) # Some (place ObjDemoTimer) # replicate 30 None,
       activeCount = 2\<rparr>,
     timers := [place ObjWifiTimer \<mapsto> new_timer 5000 True, place ObjStatsTimer \<mapsto> running_timer 30000 (place FnStats) 0,
       place ObjDemoTimer \<mapsto> running_timer 10000 (place FnDemo) 1]\<rparr>"


lemma app_setup_effect:
  "app_setup place (app_reset tel_pool b d) = Some (app_timers place (app_configure place (app_reset tel_pool b d)))"
proof -
  define w where "w = app_configure place (app_reset tel_pool b d)"
  have r: "replicate kMaxTimers None = None # None # replicate 30 (None :: ptr option)"
    by (simp add: kMaxTimers_def numeral_eq_Suc)
  have w: "timers w = [place ObjWifiTimer \<mapsto> new_timer 5000 True]" "tmgr w = \<lparr>timer_slots = None # None # replicate 30 None, activeCount = 0\<rparr>"
    by (simp_all add: w_def app_configure_def app_reset_def Let_def new_timer_manager_def timer_construct_def r)
  define w1 where "w1 = w\<lparr>tmgr := \<lparr>timer_slots = Some (place ObjStatsTimer) # None # replicate 30 None, activeCount = 1\<rparr>,
     timers := [place ObjWifiTimer \<mapsto> new_timer 5000 True, place ObjStatsTimer \<mapsto> running_timer 30000 (place FnStats) 0]\<rparr>"
  have "start_timer 30000 (place ObjStatsTimer) (place FnStats) w = Some w1"
    using start_timer_registers [of w 0 30000 "place ObjStatsTimer" "place FnStats"]
    by (simp add: w w1_def kMaxTimers_def add_timer_def)
  moreover have "start_timer 10000 (place ObjDemoTimer) (place FnDemo) w1 = Some (app_timers place w)"
    using start_timer_registers [of w1 1 10000 "place ObjDemoTimer" "place FnDemo"]
    by (simp add: w1_def app_timers_def kMaxTimers_def add_timer_def)
  ultimately show ?thesis by (simp add: app_setup_def w_def)
qed

text \<open>The twelve modules are in the table, in the order of \<open>main\<close>, waiting to be initialized.\<close>

lemma length_app_modules: "length app_modules = 12"
  by (simp add: app_modules_def)

lemma app_configure_sched:
  fixes b :: "'f boot_sys" and d :: "'h dev_sys" and place tel_pool
  defines "s \<equiv> sched (app_configure place (app_reset tel_pool b d))"
  shows "wf_sched s \<and> moduleCount s = 12 \<and> taktPeriodMs s = 1 \<and> taktBudgetUs s = 8000 \<and>
    (\<forall>i < 12. modules s ! i = registered_entry (place (app_modules ! i)))"
proof -
  define s1 where "s1 = fold (\<lambda>p s. snd (registerModule (Some p) s)) (map place app_modules) new_scheduler"
  have "length app_modules = 12" "moduleCount new_scheduler = 0" by (simp_all add: length_app_modules new_scheduler_def)
  then have "wf_sched s1 \<and> moduleCount s1 = 12 \<and> (\<forall>i < 12. modules s1 ! i = registered_entry (place (app_modules ! i)))"
    using register_all [OF wf_new_scheduler, of "map place app_modules"] by (simp add: s1_def kMaxModules_def)
  moreover have "s = setTaktBudgetUs 8000 (setTaktPeriodMs 1 s1)"
    by (simp add: s_def s1_def app_configure_def app_reset_def timer_construct_def Let_def fold_map comp_def)
  ultimately show ?thesis by (simp add: setTaktBudgetUs_def setTaktPeriodMs_def wf_sched_def registered_entry_def)
qed

lemma app_setup_facts:
  fixes b :: "'f boot_sys" and d :: "'h dev_sys" and place tel_pool
  assumes "inj place"
  defines "w \<equiv> app_timers place (app_configure place (app_reset tel_pool b d))"
  shows "sys_ok w" and "owns_callback w 1 (place ObjDemoTimer) (running_timer 10000 (place FnDemo) 1) (place FnDemo)"
    and "relay_view w = (new_relay 26, False, gpio_level d 26)"
    and "wf_sched (sched w)" and "moduleCount (sched w) = 12" and "taktPeriodMs (sched w) = 1"
    and "i < 12 \<Longrightarrow> modules (sched w) ! i = registered_entry (place (app_modules ! i))"
proof -
  note ne = inj_eq [OF assms(1)]
  have slots: "timer_slots (tmgr w) ! j = (if j = 0 then Some (place ObjStatsTimer) else if j = 1 then Some (place ObjDemoTimer) else None)"
    if "j < kMaxTimers" for j
    using that by (cases j; cases "j - 1") (auto simp: w_def app_timers_def kMaxTimers_def)
  have ts: "timers w = [place ObjWifiTimer \<mapsto> new_timer 5000 True, place ObjStatsTimer \<mapsto> running_timer 30000 (place FnStats) 0,
      place ObjDemoTimer \<mapsto> running_timer 10000 (place FnDemo) 1]"
    by (simp add: w_def app_timers_def)
  have "wf_tmgr (tmgr w)" by (simp add: w_def app_timers_def wf_tmgr_def kMaxTimers_def)
  then have "safe_timers w" using slots by (auto simp: safe_timers_def ts ne running_timer_def)
  moreover have "wf_bus (bus w)"
    by (simp add: w_def app_timers_def app_configure_def app_reset_def timer_construct_def Let_def takt_inv)
  ultimately show "sys_ok w" by (simp add: sys_ok_def)
  show "owns_callback w 1 (place ObjDemoTimer) (running_timer 10000 (place FnDemo) 1) (place FnDemo)"
    using slots by (auto simp: owns_callback_def ts ne running_timer_def kMaxTimers_def)
  show "relay_view w = (new_relay 26, False, gpio_level d 26)"
    by (simp add: w_def app_timers_def app_configure_def app_reset_def Let_def relay_view_def new_relay_def timer_construct_def)
  have "sched w = sched (app_configure place (app_reset tel_pool b d))" by (simp add: w_def app_timers_def)
  then show "wf_sched (sched w)" "moduleCount (sched w) = 12" "taktPeriodMs (sched w) = 1"
    "i < 12 \<Longrightarrow> modules (sched w) ! i = registered_entry (place (app_modules ! i))"
    using app_configure_sched [of place tel_pool b d] by simp_all
qed


lemma subscribe_free:
  "subscriberCount b < kMaxEventSubscribers \<Longrightarrow> find_index (\<lambda>s. \<not> sub_active s) (subscriptions b) = Some i \<Longrightarrow>
   snd (subscribe e c u b) = b\<lparr>subscriptions := (subscriptions b)
     [i := \<lparr>sub_event = e, sub_callback = c, sub_userData = u, sub_active = True\<rparr>], subscriberCount := subscriberCount b + 1\<rparr>"
  by (simp add: subscribe_def)

text \<open>The two subscriptions of \<open>main\<close>.\<close>

lemma app_listeners:
  fixes b0 :: "'f boot_sys" and d :: "'h dev_sys" and place tel_pool
  assumes "inj place"
  defines "w \<equiv> app_timers place (app_configure place (app_reset tel_pool b0 d))"
  shows "sole_listener (place FnWifiConnected) 0 (event_code WiFiConnected) (bus w)"
    and "sole_listener (place FnSensorData) 1 (event_code SensorDataReady) (bus w)"
proof -
  let ?A = "\<lparr>sub_event = event_code WiFiConnected, sub_callback = Some (place FnWifiConnected), sub_userData = Some (place ObjMqtt),
     sub_active = True\<rparr>"
  let ?B = "\<lparr>sub_event = event_code SensorDataReady, sub_callback = Some (place FnSensorData),
     sub_userData = Some (place ObjTelemetry), sub_active = True\<rparr>"
  let ?free = "replicate 30 new_subscription"
  have "subscriptions new_event_bus = new_subscription # new_subscription # ?free"
    by (simp add: new_event_bus_def kMaxEventSubscribers_def numeral_eq_Suc)
  then have b1: "snd (subscribe (event_code WiFiConnected) (Some (place FnWifiConnected)) (Some (place ObjMqtt)) new_event_bus) =
      new_event_bus\<lparr>subscriptions := ?A # new_subscription # ?free, subscriberCount := 1\<rparr>"
    by (simp add: subscribe_free [where i = 0] new_event_bus_def new_subscription_def kMaxEventSubscribers_def del: event_code.simps)
  have "bus w = snd (subscribe (event_code SensorDataReady) (Some (place FnSensorData)) (Some (place ObjTelemetry))
      (new_event_bus\<lparr>subscriptions := ?A # new_subscription # ?free, subscriberCount := 1\<rparr>))"
    by (simp add: w_def app_timers_def app_configure_def app_reset_def timer_construct_def Let_def b1 del: event_code.simps)
  also have "\<dots> = new_event_bus\<lparr>subscriptions := ?A # ?B # ?free, subscriberCount := 2\<rparr>"
    by (simp add: subscribe_free [where i = 1] new_subscription_def kMaxEventSubscribers_def del: event_code.simps)
  finally have bus: "bus w = new_event_bus\<lparr>subscriptions := ?A # ?B # ?free, subscriberCount := 2\<rparr>" .
  show "sole_listener (place FnWifiConnected) 0 (event_code WiFiConnected) (bus w)"
    "sole_listener (place FnSensorData) 1 (event_code SensorDataReady) (bus w)"
    using inj_eq [OF assms(1)]
    by (auto simp: bus sole_listener_def new_event_bus_def new_subscription_def kMaxEventSubscribers_def nth_Cons' simp del: event_code.simps)
qed


section \<open>Booting\<close>

text \<open>The initialization of WiFi takes the third slot for its timer.\<close>

definition with_wifi_timer :: "(app_object \<Rightarrow> ptr) \<Rightarrow> 'z timer_sys_scheme \<Rightarrow> 'z timer_sys_scheme" where
  "with_wifi_timer place = add_timer 2 (place ObjWifiTimer) (running_timer 5000 (place FnWifiTimeout) 2)"

definition wifi_timer_waits :: "(app_object \<Rightarrow> ptr) \<Rightarrow> 'z timer_sys_scheme \<Rightarrow> bool" where
  "wifi_timer_waits place w \<longleftrightarrow> timers w (place ObjWifiTimer) = Some (new_timer 5000 True) \<and> activeCount (tmgr w) = 2 \<and>
     find_index (\<lambda>s. s = None) (timer_slots (tmgr w)) = Some 2"

lemma wifi_init_module:
  fixes w :: "('f, 'h) app_sys"
  assumes "wifi_timer_waits place w"
  shows "m_init (wifi_imodule place api hs) w = (True, with_wifi_timer place
    (w\<lparr>dm_wifi := snd (wifi_init (net_wifi api (dm_dev w)) (net_stored api) (dm_wifi w))\<rparr>))"
proof -
  define n where "n = snd (wifi_init (net_wifi api (dm_dev w)) (net_stored api) (dm_wifi w))"
  have n: "wifi_init (net_wifi api (dm_dev w)) (net_stored api) (dm_wifi w) = (True, n)" by (simp add: n_def wifi_init_def)
  show ?thesis
    using new_timer_starts [of "w\<lparr>dm_wifi := n\<rparr>" "place ObjWifiTimer" 5000 2 "place FnWifiTimeout"] assms
    by (simp add: wifi_imodule_def n Let_def with_wifi_timer_def wifi_timer_waits_def kMaxTimers_def)
qed

lemma with_wifi_timer_frame [simp]:
  "sched (with_wifi_timer place w) = sched w" "bus (with_wifi_timer place w) = bus w"
  "relay_view (with_wifi_timer place v) = relay_view v"
  by (simp_all add: with_wifi_timer_def add_timer_def relay_view_def)

lemma with_wifi_timer_cong:
  "timers w' = timers w \<Longrightarrow> timers (with_wifi_timer place w') = timers (with_wifi_timer place w)"
  "tmgr w' = tmgr w \<Longrightarrow> tmgr (with_wifi_timer place w') = tmgr (with_wifi_timer place w)"
  by (simp_all add: with_wifi_timer_def add_timer_def)

lemma app_wifi_timer_waits: "wifi_timer_waits place (app_timers place w)" if "inj place"
  using inj_eq [OF that] by (simp add: wifi_timer_waits_def app_timers_def numeral_eq_Suc)

text \<open>After the boot both timers are registered, each with a callback of its own.\<close>

lemma booted_timers:
  fixes v :: "('f, 'h) app_sys"
  assumes "inj place" and "timers w = timers (with_wifi_timer place (app_timers place v))"
    and "tmgr w = tmgr (with_wifi_timer place (app_timers place v))"
  shows "safe_timers w"
    and "owns_callback w 1 (place ObjDemoTimer) (running_timer 10000 (place FnDemo) 1) (place FnDemo)"
    and "owns_callback w 2 (place ObjWifiTimer) (running_timer 5000 (place FnWifiTimeout) 2) (place FnWifiTimeout)"
proof -
  note ne = inj_eq [OF assms(1)]
  have s: "timer_slots (tmgr w) = Some (place ObjStatsTimer) # Some (place ObjDemoTimer) # Some (place ObjWifiTimer) # replicate 29 None"
    by (simp add: assms(3) with_wifi_timer_def add_timer_def app_timers_def numeral_eq_Suc)
  have slots: "timer_slots (tmgr w) ! j = (if j = 0 then Some (place ObjStatsTimer) else if j = 1 then Some (place ObjDemoTimer)
      else if j = 2 then Some (place ObjWifiTimer) else None)" if "j < kMaxTimers" for j
    using that by (simp add: s nth_Cons' kMaxTimers_def)
  have ts: "timers w = [place ObjWifiTimer \<mapsto> running_timer 5000 (place FnWifiTimeout) 2,
      place ObjStatsTimer \<mapsto> running_timer 30000 (place FnStats) 0, place ObjDemoTimer \<mapsto> running_timer 10000 (place FnDemo) 1]"
    using ne by (auto simp: assms(2) with_wifi_timer_def add_timer_def app_timers_def)
  have "wf_tmgr (tmgr w)" unfolding wf_tmgr_def s
    by (simp add: kMaxTimers_def assms(3) with_wifi_timer_def add_timer_def app_timers_def)
  then show "safe_timers w" using slots by (auto simp: safe_timers_def ts ne running_timer_def)
  show "owns_callback w 1 (place ObjDemoTimer) (running_timer 10000 (place FnDemo) 1) (place FnDemo)"
    "owns_callback w 2 (place ObjWifiTimer) (running_timer 5000 (place FnWifiTimeout) 2) (place FnWifiTimeout)"
    using slots by (auto simp: owns_callback_def ts ne running_timer_def kMaxTimers_def)
qed

text \<open>One entry of the table: the relay is switched off, WiFi starts its timer, the others keep both.\<close>

lemma app_init_entry:
  fixes place api other w
  assumes "app_rest rank other" and "wf_sched (sched w)" and "i < moduleCount (sched w)"
    and "me_active (modules (sched w) ! i)" and "me_module (modules (sched w) ! i) = Some (place x)" and "inj place"
    and "fst (relay_view w) = new_relay 26" and "wf_bus (bus w)" and "x = ObjWifi \<Longrightarrow> wifi_timer_waits place w"
  defines "env \<equiv> app_env place api other"
  shows "\<exists>w'. init_entry env i (ok, w) = (ok, w') \<and> wf_bus (bus w') \<and> taktPeriodMs (sched w') = taktPeriodMs (sched w) \<and>
    timers w' = timers (if x = ObjWifi then with_wifi_timer place w else w) \<and>
    tmgr w' = tmgr (if x = ObjWifi then with_wifi_timer place w else w) \<and>
    relay_view w' = (if x = ObjRelay then (new_relay 26, dm_on w, False) else relay_view w)"
proof -
  define v where "v = on_entry i (set_state Initializing) w"
  have v: "timers v = timers w" "tmgr v = tmgr w" "bus v = bus w" "relay_view v = relay_view w" "dm_on v = dm_on w"
    by (simp_all add: v_def on_entry_def)
  obtain r w1 where w1: "m_init (e_module env (place x)) v = (r, w1)" by fastforce
  have "r \<and> wf_bus (bus w1) \<and> timers w1 = timers (if x = ObjWifi then with_wifi_timer place w else w) \<and>
    tmgr w1 = tmgr (if x = ObjWifi then with_wifi_timer place w else w) \<and>
    relay_view w1 = (if x = ObjRelay then (new_relay 26, dm_on w, False) else relay_view w)"
  proof (cases x)
    case ObjRelay
    then show ?thesis
      using relay_init_module [OF assms(1), where w = v and place = place and api = api] w1 v assms(7,8) by (simp add: env_def)
  next
    case ObjWifi
    then have "wifi_timer_waits place v" using assms(9) by (simp add: wifi_timer_waits_def v)
    from wifi_init_module [OF this, of api "app_handlers place api (e_handlers other)"]
    have "r" "w1 = with_wifi_timer place (v\<lparr>dm_wifi := snd (wifi_init (net_wifi api (dm_dev v)) (net_stored api) (dm_wifi v))\<rparr>)"
      using w1 ObjWifi inj_eq [OF assms(6)] by (simp_all add: env_def)
    then show ?thesis
      using v assms(8) ObjWifi with_wifi_timer_cong [of "v\<lparr>dm_wifi := _\<rparr>" w place] by simp
  next
    case ObjMqtt
    then show ?thesis
      using w1 v assms(8) mqtt_init_module [of api _ v] inj_eq [OF assms(6)] by (auto simp: env_def)
  qed (use app_restD(9-11) [OF assms(1), where w = v and q = "place x"] w1 v assms(8) inj_eq [OF assms(6)] in
      \<open>simp_all add: env_def still_def\<close>)
  moreover have "sched w1 = sched v"
    using sched_quiet_simps(2) [OF app_sched_quiet [OF assms(1)] w1 [unfolded env_def]] .
  ultimately show ?thesis
    using w1 assms(4,5,8) by (auto simp: init_entry_def Let_def v_def on_entry_def)
qed

text \<open>The table as \<open>main\<close> leaves it: the relay is entry 2, WiFi entry 4.\<close>

lemma app_init_entries:
  fixes place api other w
  assumes "app_rest rank other" and "wf_sched (sched w)" and "n \<le> 12" and "inj place"
    and "fst (relay_view w) = new_relay 26" and "wf_bus (bus w)" and "wifi_timer_waits place w" and "moduleCount (sched w) = 12"
    and "\<And>j. j < 12 \<Longrightarrow> modules (sched w) ! j = registered_entry (place (app_modules ! j))"
  defines "env \<equiv> app_env place api other"
  shows "\<exists>w'. fold (init_entry env) [0..<n] (True, w) = (True, w') \<and> wf_bus (bus w') \<and>
    timers w' = timers (if 4 < n then with_wifi_timer place w else w) \<and>
    tmgr w' = tmgr (if 4 < n then with_wifi_timer place w else w) \<and> taktPeriodMs (sched w') = taktPeriodMs (sched w) \<and>
    relay_view w' = (if 2 < n then (new_relay 26, dm_on w, False) else relay_view w)"
  using assms(3)
proof (induction n)
  case (Suc n)
  then obtain w1 where w1: "fold (init_entry env) [0..<n] (True, w) = (True, w1)" "wf_bus (bus w1)"
      "timers w1 = timers (if 4 < n then with_wifi_timer place w else w)"
      "tmgr w1 = tmgr (if 4 < n then with_wifi_timer place w else w)" "taktPeriodMs (sched w1) = taktPeriodMs (sched w)"
      "relay_view w1 = (if 2 < n then (new_relay 26, dm_on w, False) else relay_view w)"
    by auto
  have s: "wf_sched (sched w1)" "moduleCount (sched w1) = 12" "modules (sched w1) ! n = modules (sched w) ! n"
    using init_entries [OF app_sched_quiet [OF assms(1)] assms(2) _ w1(1) [unfolded env_def]] Suc.prems assms(8) by auto
  have e: "me_active (modules (sched w1) ! n)" "me_module (modules (sched w1) ! n) = Some (place (app_modules ! n))"
    using s(3) assms(9) [of n] Suc.prems by (simp_all add: registered_entry_def)
  have x: "app_modules ! n = ObjRelay \<longleftrightarrow> n = 2" "app_modules ! n = ObjWifi \<longleftrightarrow> n = 4"
    using Suc.prems by (auto simp: app_modules_def nth_Cons' numeral_eq_Suc less_Suc_eq)
  have view: "fst (relay_view w1) = new_relay 26" "dm_on w1 = dm_on w"
    using w1(6) assms(5) by (simp_all add: relay_view_def split: if_splits)
  have "wifi_timer_waits place w1" if "n = 4" using that w1(3,4) assms(7) by (simp add: wifi_timer_waits_def)
  then obtain w2 where w2: "init_entry env n (True, w1) = (True, w2)" "wf_bus (bus w2)" "taktPeriodMs (sched w2) = taktPeriodMs (sched w1)"
    "timers w2 = timers (if n = 4 then with_wifi_timer place w1 else w1)" "tmgr w2 = tmgr (if n = 4 then with_wifi_timer place w1 else w1)"
    "relay_view w2 = (if n = 2 then (new_relay 26, dm_on w1, False) else relay_view w1)"
    using app_init_entry [OF assms(1) s(1) _ e assms(4) view(1) w1(2), of api True] s(2) Suc.prems x unfolding env_def by auto
  have "timers w2 = timers (if 4 < Suc n then with_wifi_timer place w else w)"
    "tmgr w2 = tmgr (if 4 < Suc n then with_wifi_timer place w else w)"
    using w2(4,5) w1(3,4) with_wifi_timer_cong [of w1 w place] by (auto simp: less_Suc_eq)
  then show ?case using w1 w2 view by (auto simp: less_Suc_eq)
qed (use assms(6) in simp)

definition app_kernel_env ::
  "(app_object \<Rightarrow> ptr) \<Rightarrow> 'h app_api \<Rightarrow> ('f, 'h) app_kenv \<Rightarrow> ('f, 'h) app_kenv" where
  "app_kernel_env place api other = other\<lparr>ke_env := app_env place api (ke_env other)\<rparr>"

text \<open>The boot succeeds, every module is Ready, the relay is off and the timer of WiFi runs.\<close>

lemma app_kernel_boot:
  fixes place api other w
  assumes "app_rest rank (ke_env other)" and "wf_sched (sched w)" and "inj place"
    and "fst (relay_view w) = new_relay 26" and "wf_bus (bus w)" and "wifi_timer_waits place w" and "moduleCount (sched w) = 12"
    and "\<And>j. j < 12 \<Longrightarrow> modules (sched w) ! j = registered_entry (place (app_modules ! j))"
  shows "\<exists>w'. kernel_boot (app_kernel_env place api other) w = (True, w') \<and> wf_bus (bus w') \<and>
    timers w' = timers (with_wifi_timer place w) \<and> tmgr w' = tmgr (with_wifi_timer place w) \<and>
    taktPeriodMs (sched w') = taktPeriodMs (sched w) \<and>
    relay_view w' = (new_relay 26, dm_on w, False) \<and> runs_at (place ObjRelay) 2 (sched w') \<and>
    live_modules (sched w') = map place app_modules \<and> runs_at (place ObjWifi) 4 (sched w')"
proof -
  let ?ke = "app_kernel_env place api other" and ?env = "app_env place api (ke_env other)"
  have e: "ke_env ?ke = ?env" by (simp add: app_kernel_env_def)
  note quiet = app_sched_quiet [OF assms(1), of place api]
  have pub: "still v (kernel_publish ?ke ev v)" "wf_bus (bus v) \<Longrightarrow> wf_bus (bus (kernel_publish ?ke ev v))"
    "sched (kernel_publish ?ke ev v) = sched v" for ev v
    using publish_inv [of "still v" "e_handlers ?env"] publish_inv [of "\<lambda>v. wf_bus (bus v)" "e_handlers ?env"]
      still_trans [OF _ handlers_still [OF assms(1)]] handlers_bus [OF assms(1)] sched_publish [OF quiet]
    by (auto simp: kernel_publish_def e appends_lower_def)
  define w2 where "w2 = w\<lparr>k_bootTimeMs := ke_nowMs ?ke w, k_nvs := snd (nvs_init (str ''takt'') (k_nvs w))\<rparr>"
  define w3 where "w3 = kernel_publish ?ke SystemBoot w2"
  have w2: "sched w2 = sched w" "timers w2 = timers w" "tmgr w2 = tmgr w" "bus w2 = bus w" "relay_view w2 = relay_view w"
    by (simp_all add: w2_def relay_view_def)
  have w3: "sched w3 = sched w" "timers w3 = timers w" "tmgr w3 = tmgr w" "relay_view w3 = relay_view w" "wf_bus (bus w3)"
    using pub [where v = w2 and ev = SystemBoot] w2 assms(5) stillD [OF pub(1) [where v = w2 and ev = SystemBoot]]
    by (simp_all add: w3_def)
  have waits: "wifi_timer_waits place w3" using assms(6) by (simp add: wifi_timer_waits_def w3)
  have on: "dm_on w3 = dm_on w" using w3(4) by (simp add: relay_view_def)
  obtain w4 where w4: "fold (init_entry ?env) [0..<12] (True, w3) = (True, w4)" "wf_bus (bus w4)"
    "timers w4 = timers (with_wifi_timer place w)" "tmgr w4 = tmgr (with_wifi_timer place w)"
    "taktPeriodMs (sched w4) = taktPeriodMs (sched w)" "relay_view w4 = (new_relay 26, dm_on w, False)"
    using app_init_entries [OF assms(1) _ order.refl assms(3) _ w3(5) waits, of api] assms(2,4,7,8) w3 on
      with_wifi_timer_cong [of w3 w place] by auto
  have i: "initAll ?env w3 = (True, w4)" using initAll_fold [OF quiet, of w3] assms(2,7) w3(1) w4(1) by simp
  define w5 where "w5 = kernel_publish ?ke SystemReady w4\<lparr>k_running := True\<rparr>"
  have w5: "sched w5 = sched w4" "timers w5 = timers w4" "tmgr w5 = tmgr w4" "relay_view w5 = relay_view w4" "wf_bus (bus w5)"
    using pub [where v = w4 and ev = SystemReady] w4(2) stillD [OF pub(1) [where v = w4 and ev = SystemReady]] by (simp_all add: w5_def)
  obtain r where r: "wf_sched (sched w4)" "moduleCount (sched w4) = 12"
    "\<forall>i < 12. modules (sched w4) ! i = initialized (r i) (modules (sched w) ! i)"
    "\<forall>i < 12. me_active (modules (sched w) ! i) \<longrightarrow> r i"
    using init_entries [OF quiet _ _ w4(1)] assms(2,7) w3(1) by auto
  have entry: "me_active (modules (sched w4) ! j) \<and> ms_state (me_stats (modules (sched w4) ! j)) = Ready \<and>
      me_module (modules (sched w4) ! j) = Some (place (app_modules ! j))" if "j < 12" for j
    using r(3,4) assms(8) [OF that] that by (simp add: initialized_def registered_entry_def set_state_def)
  have "place (app_modules ! j) = place ObjRelay \<longleftrightarrow> j = 2" if "j < 12" for j
    using that by (auto simp: inj_eq [OF assms(3)] app_modules_def nth_Cons' numeral_eq_Suc less_Suc_eq)
  then have "runs_at (place ObjRelay) 2 (sched w5)" using r(1,2) entry by (simp add: runs_at_def w5(1))
  moreover have "place (app_modules ! j) = place ObjWifi \<longleftrightarrow> j = 4" if "j < 12" for j
    using that by (auto simp: inj_eq [OF assms(3)] app_modules_def nth_Cons' numeral_eq_Suc less_Suc_eq)
  then have "runs_at (place ObjWifi) 4 (sched w5)" using r(1,2) entry by (simp add: runs_at_def w5(1))
  moreover have "live_modules (sched w5) = map place app_modules"
  proof -
    have "filter (\<lambda>j. live (modules (sched w4) ! j)) [0..<12] = [0..<12]" by (simp add: entry live_def del: upt_rec_numeral)
    then have "live_modules (sched w5) = map (\<lambda>j. place (app_modules ! j)) [0..<12]"
      using entry by (simp add: live_modules_def live_upto_def w5(1) r(2) del: upt_rec_numeral)
    also have "\<dots> = map place (map (\<lambda>j. app_modules ! j) [0..<length app_modules])"
      by (simp add: comp_def length_app_modules del: upt_rec_numeral)
    finally show ?thesis by (simp only: map_nth)
  qed
  moreover have "kernel_boot ?ke w = (True, w5)"
    using i by (simp add: kernel_boot_def Let_def nvs_init_def nvs_backup_def e w5_def w3_def w2_def)
  ultimately show ?thesis using w5 w4 by auto
qed


text \<open>The application after its boot, before the first takt.\<close>

lemma app_booted:
  fixes place api other af tel_pool b d
  assumes "inj place" and "app_rest rank (ke_env other)"
  defines "w1 \<equiv> app_timers place (app_configure place (app_reset tel_pool (app_platform af b) d))"
  obtains w2 w where "kernel_boot (app_kernel_env place api other) w1 = (True, w2)"
    and "w = w2\<lparr>dm_boot := markBootSuccessful (dm_boot w2)\<rparr>"
    and "app_boot place (app_kernel_env place api other) af (app_reset tel_pool b d) = Some (True, w)"
    and "sys_ok w" and "taktPeriodMs (sched w) = 1" and "relay_view w = (new_relay 26, False, False)"
    and "runs_at (place ObjRelay) 2 (sched w)" and "live_modules (sched w) = map place app_modules"
    and "runs_at (place ObjWifi) 4 (sched w)"
    and "owns_callback w 1 (place ObjDemoTimer) (running_timer 10000 (place FnDemo) 1) (place FnDemo)"
    and "owns_callback w 2 (place ObjWifiTimer) (running_timer 5000 (place FnWifiTimeout) 2) (place FnWifiTimeout)"
proof -
  note f = app_setup_facts [OF assms(1), where tel_pool = tel_pool and b = "app_platform af b" and d = d, folded w1_def]
  have s: "app_setup place (app_reset tel_pool (app_platform af b) d) = Some w1" by (simp add: w1_def app_setup_effect)
  have waits: "wifi_timer_waits place w1" unfolding w1_def by (rule app_wifi_timer_waits [OF assms(1)])
  obtain w2 where w2: "kernel_boot (app_kernel_env place api other) w1 = (True, w2)" "wf_bus (bus w2)"
    "timers w2 = timers (with_wifi_timer place w1)" "tmgr w2 = tmgr (with_wifi_timer place w1)"
    "taktPeriodMs (sched w2) = taktPeriodMs (sched w1)" "relay_view w2 = (new_relay 26, dm_on w1, False)"
    "runs_at (place ObjRelay) 2 (sched w2)" "live_modules (sched w2) = map place app_modules"
    "runs_at (place ObjWifi) 4 (sched w2)"
    using app_kernel_boot [OF assms(2) f(4) assms(1) _ _ waits f(5,7), of api] f(1,3) by (auto simp: sys_ok_def)
  define w where "w = w2\<lparr>dm_boot := markBootSuccessful (dm_boot w2)\<rparr>"
  have "timers w = timers (with_wifi_timer place w1)" "tmgr w = tmgr (with_wifi_timer place w1)"
    using w2(3,4) by (simp_all add: w_def)
  note t = booted_timers [OF assms(1) this [unfolded w1_def]]
  have "dm_on w1 = False" using f(3) by (simp add: relay_view_def)
  moreover have "app_boot place (app_kernel_env place api other) af (app_reset tel_pool b d) = Some (True, w)"
    using s w2(1) by (simp add: app_boot_def app_reset_def w_def)
  moreover have "sys_ok w" using t(1) w2(2) by (simp add: sys_ok_def w_def)
  moreover have "relay_view w = relay_view w2" "sched w = sched w2" by (simp_all add: w_def)
  ultimately show thesis using that [OF w2(1) w_def] w2 t(2,3) f(6) by simp
qed


section \<open>Properties\<close>

text \<open>A repeating timer in takts of one millisecond.\<close>

lemma timer_millisecond:
  assumes "intervalMs t = of_nat k" and "k < 2 ^ 32" and "elapsedMs t = of_nat j" and "j < k" and "t_active t" and "t_repeat t"
  shows "timer_fires 1 t \<longleftrightarrow> Suc j = k" and "timer_advance 1 t = t\<lparr>elapsedMs := of_nat (Suc j mod k)\<rparr>"
proof -
  have "elapsedMs t + 1 = of_nat (Suc j)" using assms(3) by simp
  moreover have "(of_nat k :: u32) \<le> of_nat (Suc j) \<longleftrightarrow> k \<le> Suc j"
    using assms(2,4) by (simp add: word_le_nat_alt unat_u32_of_nat del: of_nat_Suc)
  ultimately show fires: "timer_fires 1 t \<longleftrightarrow> Suc j = k"
    using assms by (auto simp: timer_fires_def simp del: of_nat_Suc)
  show "timer_advance 1 t = t\<lparr>elapsedMs := of_nat (Suc j mod k)\<rparr>"
    using fires assms by (auto simp: timer_advance_def mod_Suc add.commute)
qed

text \<open>The relay and its timer after any number of takts of one millisecond.\<close>

lemma app_evolve:
  fixes t0 :: timer
  assumes "intervalMs t0 = 10000" and "elapsedMs t0 = 0" and "t_active t0" and "t_repeat t0"
  shows "\<exists>r. rl_gpioPin r = pin \<and> \<not> rl_pending r \<and>
    (evolve_step toggle_view tick_view 1 ^^ n) (t0, new_relay pin, False, False) =
      (t0\<lparr>elapsedMs := of_nat (n mod 10000)\<rparr>, r, odd (n div 10000), odd (n div 10000))"
proof (induction n)
  case 0
  then show ?case using assms by (simp add: new_relay_def)
next
  case (Suc n)
  then obtain r where r: "rl_gpioPin r = pin" "\<not> rl_pending r"
    "(evolve_step toggle_view tick_view 1 ^^ n) (t0, new_relay pin, False, False) =
      (t0\<lparr>elapsedMs := of_nat (n mod 10000)\<rparr>, r, odd (n div 10000), odd (n div 10000))" by blast
  let ?t = "t0\<lparr>elapsedMs := of_nat (n mod 10000)\<rparr>"
  have t: "timer_fires 1 ?t \<longleftrightarrow> Suc (n mod 10000) = 10000" "timer_advance 1 ?t = t0\<lparr>elapsedMs := of_nat (Suc n mod 10000)\<rparr>"
    using timer_millisecond [of ?t 10000 "n mod 10000"] assms by (simp_all add: mod_Suc_eq)
  have "Suc n div 10000 = (if Suc (n mod 10000) = 10000 then Suc (n div 10000) else n div 10000)"
    by (simp add: div_Suc mod_Suc)
  then show ?case
    using r t by (simp add: evolve_step_def toggle_view_def tick_view_def setRelay_def)
qed

text \<open>
  C3: The demo application does what it is for. Its set-up and boot succeed, every takt returns, and
  after \<open>n\<close> takts of one millisecond the output of the relay has been switched over once in every
  10000 of them: the timer callback only asks for it, the relay module does it in the same takt.
\<close>
theorem app_relay_toggles:
  assumes "inj place" and "app_rest rank (ke_env other)"
  shows "\<exists>w w'. app_boot place (app_kernel_env place api other) af (app_reset tel_pool b d) = Some (True, w) \<and>
    run_takts (ke_env (app_kernel_env place api other)) n w = Some w' \<and>
    gpio_level (dm_dev w') 26 = odd (n div 10000)"
proof -
  obtain w2 w where boot: "app_boot place (app_kernel_env place api other) af (app_reset tel_pool b d) = Some (True, w)"
    and w: "sys_ok w" "taktPeriodMs (sched w) = 1" "relay_view w = (new_relay 26, False, False)"
      "runs_at (place ObjRelay) 2 (sched w)"
      "owns_callback w 1 (place ObjDemoTimer) (running_timer 10000 (place FnDemo) 1) (place FnDemo)"
    by (rule app_booted [OF assms]) blast
  obtain r where r: "rl_gpioPin r = 26" "(evolve_step toggle_view tick_view 1 ^^ n)
      (running_timer 10000 (place FnDemo) 1, relay_view w) =
      ((running_timer 10000 (place FnDemo) 1)\<lparr>elapsedMs := of_nat (n mod 10000)\<rparr>, r, odd (n div 10000), odd (n div 10000))"
    using app_evolve [of "running_timer 10000 (place FnDemo) 1" 26 n] by (auto simp: w(3) running_timer_def)
  have "obedient rank (ke_env other) = ke_env other" by (simp add: obedient_def assms(2))
  then obtain w' where "run_takts (app_env place api (ke_env other)) n w = Some w'"
    and "relay_view w' = (r, odd (n div 10000), odd (n div 10000))"
    using app.takts_evolve [where other = "ke_env other" and rank = rank, OF w(4,1,5,2) r(2)] by auto
  then show ?thesis using boot r(1) by (auto simp: relay_view_def app_kernel_env_def)
qed

definition app_place :: "app_object \<Rightarrow> ptr" where
  "app_place x = (case x of ObjUart \<Rightarrow> 1 | ObjSensor \<Rightarrow> 2 | ObjRelay \<Rightarrow> 3 | ObjModbus \<Rightarrow> 4 | ObjWifi \<Rightarrow> 5 | ObjMqtt \<Rightarrow> 6
     | ObjBle \<Rightarrow> 7 | ObjWebserver \<Rightarrow> 8 | ObjOta \<Rightarrow> 9 | ObjTelemetry \<Rightarrow> 10 | ObjConfig \<Rightarrow> 11 | ObjGateway \<Rightarrow> 12
     | ObjStatsTimer \<Rightarrow> 13 | ObjDemoTimer \<Rightarrow> 14 | FnWifiConnected \<Rightarrow> 15 | FnSensorData \<Rightarrow> 16 | FnStats \<Rightarrow> 17 | FnDemo \<Rightarrow> 18
     | ObjWifiTimer \<Rightarrow> 19 | FnWifiTimeout \<Rightarrow> 20)"

definition bare_flash :: "memory app_flash" where
  "bare_flash = \<lparr>af_lookup = (\<lambda>_. None), af_ota0 = None, af_ota1 = None, af_ota = host_ota\<rparr>"

text \<open>Drivers that echo, an access point in sight, and a broker.\<close>

definition demo_api :: "bytes app_api" where
  "demo_api = driver_api.extend echo_api (app_api.fields (\<lambda>_ _. None) (\<lambda>_. ap_env) (\<lambda>_. online_env))"

theorem app_relay_toggles_witness:
  "\<exists>w w'. app_boot app_place (app_kernel_env app_place demo_api idle_kernel) bare_flash (app_reset (\<lambda>_. 0) demo_boot demo_dev) = Some (True, w) \<and>
     run_takts (ke_env (app_kernel_env app_place demo_api idle_kernel)) 30000 w = Some w' \<and> gpio_level (dm_dev w') 26"
proof -
  have "inj app_place" by (rule injI) (simp add: app_place_def split: app_object.splits)
  moreover have "app_rest (\<lambda>_. 0) (ke_env idle_kernel)" by (simp add: idle_kernel_def app_rest_idle)
  ultimately show ?thesis
    using app_relay_toggles [of app_place "\<lambda>_. 0" idle_kernel demo_api bare_flash "\<lambda>_. 0" demo_boot demo_dev 30000] by simp
qed

text \<open>
  Neither application returns: the demo application once its boot has succeeded, the recovery
  application in any case.
\<close>

lemma app_main_never_returns:
  assumes "app_boot place ke af w = Some (True, w1)" and "k_running w1"
  shows "app_main place ke af w = None"
  using assms run_scheduler_never_returns by (simp add: app_main_def kernel_run_def)

lemma recovery_app_never_returns: "recovery_app_main env af s = None"
  by (simp add: recovery_app_main_def Let_def recovery_run_never_returns)

end
