(* ===== verification/Telemetry_Path.thy ===== *)
theory Telemetry_Path
  imports Applications
begin

text \<open>
  From the sensor to the flash in the demo controller: the sensor module
  (\<open>middleware/src/sensor_module.cpp\<close>) publishes a reading in every takt, the event bus hands it to the
  callback of \<open>main.cpp\<close>, which records it with the telemetry service
  (\<open>services/src/telemetry_service.cpp\<close>), and that writes a batch through its cache and the storage
  manager to the flash device once a minute. The composition is shown to implement the state machine
  \<open>upload_spec\<close>. The two modules are the models of this development; the rest of the application is a
  parameter, and it leaves the telemetry, its place in the flash and the subscriptions alone.
\<close>


section \<open>The two modules behind the virtual interface\<close>

text \<open>\<open>cali\<close> is the calibration of the vendor (\<open>adc_readVoltage\<close>). A tick without a defined result leaves the state as it is.\<close>

definition sensor_imodule ::
  "'h app_api \<Rightarrow> (int \<Rightarrow> int option) \<Rightarrow> ('f, 'h) app_sys handlers \<Rightarrow> ('f, 'h) app_sys imodule" where
  "sensor_imodule api cali hs = \<lparr>
     m_init = (\<lambda>w. case sensor_init api (dm_dev w) of (ok, d) \<Rightarrow> (ok, forward hs d w)),
     m_tick = (\<lambda>w. case sensor_tick api cali (dm_sensor w) (dm_dev w) of (s, d) \<Rightarrow> forward hs d (w\<lparr>dm_sensor := s\<rparr>)),
     m_shutdown = (\<lambda>w. w), m_type = (\<lambda>w. Static), m_budgetUs = (\<lambda>w. 2000), m_hasWork = (\<lambda>w. True)\<rparr>"

definition on_telemetry ::
  "(telemetry \<Rightarrow> 'f boot_sys \<Rightarrow> (telemetry \<times> 'f boot_sys) option) \<Rightarrow> ('f, 'h) app_sys \<Rightarrow> ('f, 'h) app_sys" where
  "on_telemetry f w = (case f (dm_telemetry w) (dm_boot w) of None \<Rightarrow> w
     | Some (t, b) \<Rightarrow> w\<lparr>dm_telemetry := t, dm_boot := b\<rparr>)"

definition telemetry_imodule :: "'h app_api \<Rightarrow> ('f, 'h) app_sys imodule" where
  "telemetry_imodule api = \<lparr>
     m_init = (\<lambda>w. (True, w)),
     m_tick = (\<lambda>w. on_telemetry (telemetry_tick (getUptimeUs api (dm_dev w))) w),
     m_shutdown = on_telemetry telemetry_shutdown,
     m_type = (\<lambda>w. Background), m_budgetUs = (\<lambda>w. 0), m_hasWork = (\<lambda>w. tl_flushPending (dm_telemetry w))\<rparr>"

definition with_services ::
  "(app_object \<Rightarrow> ptr) \<Rightarrow> 'h app_api \<Rightarrow> (int \<Rightarrow> int option) \<Rightarrow> ('f, 'h) app_sys env \<Rightarrow> ('f, 'h) app_sys env" where
  "with_services place api cali other = other\<lparr>e_module := (\<lambda>p.
     if p = place ObjSensor then sensor_imodule api cali (app_handlers place api (e_handlers other))
     else if p = place ObjTelemetry then telemetry_imodule api else e_module other p)\<rparr>"


section \<open>The specification\<close>

text \<open>
  The records that wait for the next upload, whether any do, the time of the last upload, and the 256
  bytes of the line of the cache and of the flash.
\<close>

record upload_spec =
  us_batch :: "telemetry_record list"
  us_pending :: bool
  us_last :: u32
  us_line :: bytes
  us_stored :: bytes

definition batch_bytes :: "telemetry_record list \<Rightarrow> bytes" where
  "batch_bytes rs = concat (map record_bytes rs)"

text \<open>Only 64 records are kept; an upload puts the batch over the line, from its beginning, and stores the line.\<close>

definition spec_sample :: "telemetry_record \<Rightarrow> upload_spec \<Rightarrow> upload_spec" where
  "spec_sample r s = s\<lparr>us_batch := take kMaxRecords (us_batch s @ [r]), us_pending := True\<rparr>"

definition spec_upload :: "u32 \<Rightarrow> upload_spec \<Rightarrow> upload_spec" where
  "spec_upload now s =
     (if us_pending s \<and> 60000 \<le> now - us_last s
      then let l = overlay (take 256 (batch_bytes (us_batch s))) (us_line s)
           in \<lparr>us_batch = [], us_pending = False, us_last = now, us_line = l, us_stored = l\<rparr>
      else s)"


section \<open>The telemetry service implements it\<close>

text \<open>The cache uses its first line only, for the offset 0; the pool of 8192 bytes holds it.\<close>

definition tel_cache_ok :: "cache \<Rightarrow> bool" where
  "tel_cache_ok c \<longleftrightarrow> lineSize c = 256 \<and> 256 \<le> poolSize c \<and> length (lines c) = kMaxLines \<and> entryCount c \<le> 1 \<and>
     (entryCount c = 1 \<longrightarrow> ce_valid (lines c ! 0) \<and> ce_key (lines c ! 0) = 0)"

definition tel_ok :: "telemetry \<Rightarrow> bool" where
  "tel_ok t \<longleftrightarrow> tel_cache_ok (tl_cache t) \<and> length (tl_buffer t) = kMaxRecords \<and> tl_recordCount t \<le> kMaxRecords \<and>
     tl_uploadIntervalMs t = 60000 \<and> (tl_flushPending t \<longrightarrow> 0 < tl_recordCount t)"

definition tel_abs :: "bytes \<Rightarrow> telemetry \<Rightarrow> upload_spec" where
  "tel_abs stored t = \<lparr>us_batch = take (tl_recordCount t) (tl_buffer t), us_pending = tl_flushPending t,
     us_last = tl_lastUploadMs t, us_line = mem_get (pool (tl_cache t)) 0 256, us_stored = stored\<rparr>"

lemma tel_ok_new: "256 \<le> n \<Longrightarrow> tel_ok (new_telemetry mem n)"
  by (simp add: tel_ok_def new_telemetry_def tel_cache_ok_def new_cache_def kMaxRecords_def)

lemma record_sample:
  assumes "tel_ok t"
  shows "tel_ok (record_telemetry r t)" and "tel_abs st (record_telemetry r t) = spec_sample r (tel_abs st t)"
  using assms
  by (auto simp: tel_ok_def record_telemetry_def tel_abs_def spec_sample_def Let_def take_Suc_conv_app_nth kMaxRecords_def)

lemma sint_small: "n < 2 ^ 31 \<Longrightarrow> sint (of_nat n :: u32) = int n"
  by (simp add: sint_u32 unat_u32_of_nat)

lemma mem_get_put_prefix:
  "length bs \<le> n \<Longrightarrow> mem_get (mem_put m 0 bs) 0 n = bs @ drop (length bs) (mem_get m 0 n)"
  by (intro nth_equalityI) (auto simp: mem_get_def mem_put_def nth_append)

text \<open>The write takes what fits in the line, whether the line is there already or not.\<close>

lemma tel_cache_write:
  assumes "tel_cache_ok c"
  shows "\<exists>rc c'. cache_write 0 buf c s = Some (rc, c', s) \<and> tel_cache_ok c' \<and> entryCount c' = 1 \<and> ce_dirty (lines c' ! 0) \<and>
    mem_get (pool c') 0 256 = overlay (take 256 buf) (mem_get (pool c) 0 256)"
proof -
  have key: "line_key 0 c = 0" by (simp add: line_key_def)
  have len: "0 < length (lines c)" using assms by (simp add: tel_cache_ok_def kMaxLines_def)
  have n: "copy_len 0 (length buf) c' = min (length buf) 256" if "lineSize c' = 256" for c'
    using that by (simp add: copy_len_def)
  obtain c1 where w: "cache_write 0 buf c s = copy_in 0 buf 0 c1 s" and ok: "tel_cache_ok c1" "entryCount c1 = 1"
    and p: "pool c1 = pool c"
  proof (cases "entryCount c = 1")
    case True
    then have "take (entryCount c) (lines c) = [lines c ! 0]" using len by (simp add: take_Suc_conv_app_nth)
    then have "find_index (\<lambda>e. ce_valid e \<and> ce_key e = line_key 0 c) (take (entryCount c) (lines c)) = Some 0"
      using assms True by (simp add: tel_cache_ok_def key)
    then show thesis
      using that assms True len by (simp add: cache_write_def findLine_def tel_cache_ok_def)
  next
    case False
    then have "entryCount c = 0" using assms by (simp add: tel_cache_ok_def)
    then show thesis
      using that assms len
      by (simp add: cache_write_def findLine_def allocateLine_def tel_cache_ok_def fresh_line_def line_key_def kMaxLines_def)
  qed
  have z: "lineSize c1 = 256" "256 \<le> poolSize c1" "0 < length (lines c1)"
    using ok by (simp_all add: tel_cache_ok_def kMaxLines_def)
  define c2 where "c2 = c1\<lparr>pool := mem_put (pool c1) 0 (take 256 buf), lines := (lines c1)[0 := (lines c1 ! 0)\<lparr>ce_dirty := True\<rparr>]\<rparr>"
  have "take (min (length buf) 256) buf = take 256 buf" by (simp add: min_def)
  then have "copy_in 0 buf 0 c1 s = Some (int (min (length buf) 256), c2, s)"
    using z sint_small [of "min (length buf) 256"] by (simp add: copy_in_def Let_def n in_pool_def c2_def)
  moreover have "tel_cache_ok c2" "entryCount c2 = 1" "ce_dirty (lines c2 ! 0)"
    using ok z(3) by (simp_all add: tel_cache_ok_def c2_def)
  moreover have "mem_get (pool c2) 0 256 = overlay (take 256 buf) (mem_get (pool c) 0 256)"
    using mem_get_put_prefix [of "take 256 buf" 256 "pool c"]
    by (simp add: c2_def p overlay_def)
  ultimately show ?thesis unfolding w by (intro exI [of _ "int (min (length buf) 256)"] exI [of _ c2]) simp
qed

text \<open>The flush writes the line to the device, takes the count for an error and leaves the line dirty.\<close>

lemma tel_cache_flush:
  assumes "flash_device b rd wr er cells cap sector" and "backend s = b" and "256 \<le> cap"
    and "tel_cache_ok c" and "entryCount c = 1" and "ce_dirty (lines c ! 0)"
  shows "\<exists>d'. cache_flush c s = Some (-1, c, s\<lparr>device := d'\<rparr>) \<and> mem_get (cells d') 0 256 = mem_get (pool c) 0 256"
proof -
  let ?d = "mem_get (pool c) 0 256"
  have "?d \<noteq> []" and len: "length ?d = 256" by (simp_all add: mem_get_def)
  then obtain d' where w: "storage_write 0 ?d s = (256, s\<lparr>device := d'\<rparr>)" "cells d' = flash_store sector 0 ?d (cells (device s))"
    using flash_device.write_ok [OF assms(1,2), of ?d 0] assms(3) by auto
  have "cache_flush c s = Some (-1, c, s\<lparr>device := d'\<rparr>)"
    using assms(4-6) w(1) by (simp add: cache_flush_def tel_cache_ok_def in_pool_def Let_def)
  moreover have "mem_get (cells d') 0 256 = ?d" using flash_store_get [of sector 0 ?d] by (simp add: w(2) len)
  ultimately show ?thesis by blast
qed

lemma tick_upload:
  assumes "flash_device b rd wr er cells cap sector" and "backend s = b" and "256 \<le> cap" and "tel_ok t"
  shows "\<exists>t' d'. telemetry_tick us t s = Some (t', s\<lparr>device := d'\<rparr>) \<and> tel_ok t' \<and>
    tel_abs (mem_get (cells d') 0 256) t' = spec_upload (uptime_ms us) (tel_abs (mem_get (cells (device s)) 0 256) t)"
proof (cases "upload_due us t")
  case True
  then have n: "0 < tl_recordCount t" and due: "tl_flushPending t" "60000 \<le> uptime_ms us - tl_lastUploadMs t"
    using assms(4) by (simp_all add: upload_due_def tel_ok_def)
  have ok: "tel_cache_ok (tl_cache t)" using assms(4) by (simp add: tel_ok_def)
  from tel_cache_write [OF ok, of "recorded_bytes t" s] obtain rc c1 where
    w: "cache_write 0 (recorded_bytes t) (tl_cache t) s = Some (rc, c1, s)" "tel_cache_ok c1" "entryCount c1 = 1"
      "ce_dirty (lines c1 ! 0)" "mem_get (pool c1) 0 256 = overlay (take 256 (recorded_bytes t)) (mem_get (pool (tl_cache t)) 0 256)"
    by blast
  from tel_cache_flush [OF assms(1-3) w(2-4)] obtain d' where
    f: "cache_flush c1 s = Some (-1, c1, s\<lparr>device := d'\<rparr>)" "mem_get (cells d') 0 256 = mem_get (pool c1) 0 256" by blast
  define t' where "t' = t\<lparr>tl_cache := c1, tl_recordCount := 0, tl_flushPending := False, tl_lastUploadMs := uptime_ms us\<rparr>"
  have "telemetry_tick us t s = Some (t', s\<lparr>device := d'\<rparr>)"
    using True n w(1) f(1)
    by (simp add: telemetry_tick_def uploadBatch_def flushToFlash_def kTelemetryFlashOffset_def t'_def)
  moreover have "tel_ok t'" using assms(4) w(2) by (simp add: tel_ok_def t'_def)
  moreover have "tel_abs (mem_get (cells d') 0 256) t' = spec_upload (uptime_ms us) (tel_abs (mem_get (cells (device s)) 0 256) t)"
    using due w(5) f(2)
    by (simp add: tel_abs_def spec_upload_def t'_def Let_def batch_bytes_def recorded_bytes_def)
  ultimately show ?thesis by blast
next
  case False
  then have "telemetry_tick us t s = Some (t, s\<lparr>device := device s\<rparr>)" by (simp add: telemetry_tick_def)
  moreover have "spec_upload (uptime_ms us) (tel_abs x t) = tel_abs x t" for x
    using False assms(4) by (auto simp: spec_upload_def tel_abs_def upload_due_def tel_ok_def)
  ultimately show ?thesis using assms(4) by (intro exI [of _ t] exI [of _ "device s"]) simp
qed


section \<open>What else runs in a takt\<close>

text \<open>
  The event queue is empty, and the callback for sensor data is the one in slot 1, where \<open>main\<close> puts it.
\<close>

definition calm :: "(app_object \<Rightarrow> ptr) \<Rightarrow> event_bus \<Rightarrow> bool" where
  "calm place = sole_listener (place FnSensorData) 1 (event_code SensorDataReady)"

text \<open>The telemetry, its place in the flash (the first 256 bytes) and the subscriptions are left alone.\<close>

definition aside :: "(app_object \<Rightarrow> ptr) \<Rightarrow> ('f \<Rightarrow> memory) \<Rightarrow> ('f, 'h) app_sys \<Rightarrow> ('f, 'h) app_sys \<Rightarrow> bool" where
  "aside place cells w w' \<longleftrightarrow> dm_telemetry w' = dm_telemetry w \<and> backend (dm_boot w') = backend (dm_boot w) \<and>
     mem_get (cells (device (dm_boot w'))) 0 256 = mem_get (cells (device (dm_boot w))) 0 256 \<and>
     (calm place (bus w) \<longrightarrow> calm place (bus w'))"

definition rest_aside :: "(app_object \<Rightarrow> ptr) \<Rightarrow> ('f \<Rightarrow> memory) \<Rightarrow> ('f, 'h) app_sys env \<Rightarrow> bool" where
  "rest_aside place cells other \<longleftrightarrow>
     (\<forall>c d u w. aside place cells w (e_handlers other c d u w)) \<and> (\<forall>c w. aside place cells w (e_timerCallbacks other c w)) \<and>
     (\<forall>w. aside place cells w (snd (e_nowUs other w)) \<and> aside place cells w (e_wdtReset other w)) \<and>
     (\<forall>n w. aside place cells w (e_delay other n w)) \<and>
     (\<forall>q w. aside place cells w (m_tick (e_module other q) w) \<and> aside place cells w (snd (m_init (e_module other q) w)))"

lemma rest_asideD:
  assumes "rest_aside place cells other"
  shows "aside place cells w (e_handlers other c d u w)" "aside place cells w (e_timerCallbacks other c w)"
    "aside place cells w (snd (e_nowUs other w))" "aside place cells w (e_wdtReset other w)"
    "aside place cells w (e_delay other n w)" "aside place cells w (m_tick (e_module other q) w)"
    "aside place cells w (snd (m_init (e_module other q) w))"
  using assms unfolding rest_aside_def by blast+

lemma aside_refl [simp]: "aside place cells w w"
  by (simp add: aside_def)

lemma aside_trans: "aside place cells u v \<Longrightarrow> aside place cells v w \<Longrightarrow> aside place cells u w"
  by (simp add: aside_def)

lemma aside_frame [simp]:
  "aside place cells w (w\<lparr>sched := s\<rparr>)" "aside place cells w (w\<lparr>timers := ts\<rparr>)" "aside place cells w (w\<lparr>tmgr := tm\<rparr>)"
  "aside place cells w (w\<lparr>dm_dev := d\<rparr>)" "aside place cells w (w\<lparr>dm_sensor := n\<rparr>)" "aside place cells w (w\<lparr>dm_relay := r\<rparr>)"
  "aside place cells w (w\<lparr>k_running := k\<rparr>)" "aside place cells w (w\<lparr>k_nvs := v\<rparr>)" "aside place cells w (w\<lparr>k_bootTimeMs := m\<rparr>)"
  "aside place cells w (toggle_relay w)" "aside place cells w (w\<lparr>dm_wifi := wn\<rparr>)" "aside place cells w (w\<lparr>dm_mqtt := mq\<rparr>)"
  "aside place cells w (on_wifi_connected api w)"
  by (simp_all add: aside_def toggle_relay_def on_wifi_connected_def Let_def)

lemma aside_boot_config [simp]: "aside place cells w (w\<lparr>dm_boot := saveBootConfig c (dm_boot w)\<rparr>)"
  by (simp add: aside_def)


subsection \<open>Events\<close>

lemma others_aside:
  assumes "rest_aside place cells other" and "c \<noteq> place FnSensorData"
  shows "aside place cells w (app_handlers place api (e_handlers other) c d u w)"
  using assms(2) rest_asideD(1) [OF assms(1)] by (simp add: app_handlers_def)

lemma publish_aside:
  assumes "rest_aside place cells other" and "calm place (bus w)" and "e \<noteq> event_code SensorDataReady"
  shows "aside place cells w (publish (app_handlers place api (e_handlers other)) e p1 p2 w)"
  by (rule publish_others [where J = "aside place cells w" and p = "place FnSensorData" and k = 1 and e = "event_code SensorDataReady"])
    (use assms(2,3) aside_trans [OF _ others_aside [OF assms(1)]] in \<open>auto simp: aside_def calm_def simp del: event_code.simps\<close>)

text \<open>A published reading becomes a record, stamped with the time at which the callback runs.\<close>

definition sample_record :: "u64 \<Rightarrow> u32 \<Rightarrow> telemetry_record" where
  "sample_record us v = \<lparr>tr_timestamp = ucast (us div 1000000), tr_sensorValue = v, tr_relayState = 0, tr_reserved = [0, 0, 0]\<rparr>"

lemma publish_records:
  assumes "rest_aside place cells other" and "calm place (bus w)" and "inj place"
  shows "\<exists>d. aside place cells (w\<lparr>dm_telemetry := record_telemetry (sample_record (getUptimeUs api d) v) (dm_telemetry w)\<rparr>)
    (publish (app_handlers place api (e_handlers other)) (event_code SensorDataReady) v p2 w)"
proof -
  let ?hs = "app_handlers place api (e_handlers other)"
  let ?R = "\<lambda>d w. w\<lparr>dm_telemetry := record_telemetry (sample_record (getUptimeUs api d) v) (dm_telemetry w)\<rparr>"
  let ?J = "aside place cells w" and ?K = "\<lambda>u. \<exists>d. aside place cells (?R d w) u"
  note h = others_aside [OF assms(1), where api = api]
  have listens: "sole_listener (place FnSensorData) 1 (event_code SensorDataReady) (bus u)" if "?J u \<or> ?K u" for u
    using that assms(2) by (auto simp: aside_def calm_def simp del: event_code.simps)
  have mine: "?K (?hs (place FnSensorData) d ud u)" if "param1 d = v" "?J u" for d ud u
  proof -
    have "?hs (place FnSensorData) d ud u = ?R (dm_dev u) u"
      using that(1) inj_eq [OF assms(3)] by (simp add: app_handlers_def on_sensor_data_def sample_record_def)
    moreover have "aside place cells (?R (dm_dev u) w) (?R (dm_dev u) u)" using that(2) by (simp add: aside_def)
    ultimately show ?thesis by auto
  qed
  show ?thesis
    by (rule publish_sole [where J = ?J and K = ?K and p = "place FnSensorData" and k = 1])
      (use listens mine aside_trans [OF _ h] in \<open>simp_all add: kMaxEventSubscribers_def del: event_code.simps\<close>, blast+)
qed


subsection \<open>The two modules in the scheduler\<close>

definition sensor_reading :: "'h app_api \<Rightarrow> (int \<Rightarrow> int option) \<Rightarrow> 'h dev_sys \<Rightarrow> u32" where
  "sensor_reading api cali d = (let v = adc_readVoltage api cali 0 d in of_int \<lfloor>f32_round ((if v < 0 then 0 else v) * 100)\<rfloor>)"

lemma sensor_tick_publishes:
  "\<exists>s'. sensor_tick api cali s d = (s', dev_publish SensorDataReady (sensor_reading api cali d) 0 d)"
  by (simp add: sensor_tick_def sensor_reading_def processOneSample_def Let_def)

lemma sensor_tick_module:
  assumes "rest_aside place cells other" and "calm place (bus w)" and "inj place"
  shows "\<exists>d. aside place cells (w\<lparr>dm_telemetry := record_telemetry
      (sample_record (getUptimeUs api d) (sensor_reading api cali (dm_dev w))) (dm_telemetry w)\<rparr>)
    (m_tick (sensor_imodule api cali (app_handlers place api (e_handlers other))) w)"
proof -
  obtain s where s: "sensor_tick api cali (dm_sensor w) (dm_dev w) =
      (s, dev_publish SensorDataReady (sensor_reading api cali (dm_dev w)) 0 (dm_dev w))"
    using sensor_tick_publishes by blast
  let ?w = "w\<lparr>dm_sensor := s, dm_dev := dev_publish SensorDataReady (sensor_reading api cali (dm_dev w)) 0 (dm_dev w)\<rparr>"
  have "m_tick (sensor_imodule api cali (app_handlers place api (e_handlers other))) w =
      publish (app_handlers place api (e_handlers other)) (event_code SensorDataReady) (sensor_reading api cali (dm_dev w)) 0 ?w"
    by (simp add: sensor_imodule_def s forward_published(2) del: event_code.simps)
  then show ?thesis
    using publish_records [OF assms(1), of ?w api "sensor_reading api cali (dm_dev w)" 0] assms(2,3)
    by (simp add: aside_def del: event_code.simps)
qed

text \<open>The relay and the network modules publish nothing that carries a reading.\<close>

lemma forward_aside:
  assumes "rest_aside place cells other" and "calm place (bus w)" and "announces SensorDataReady (dm_dev w) d"
    and "aside place cells w v" and "dm_dev v = dm_dev w"
  shows "aside place cells w (forward (app_handlers place api (e_handlers other)) d v)"
proof -
  let ?hs = "app_handlers place api (e_handlers other)"
  have calm: "calm place (bus v)" using assms(2,4) by (simp add: aside_def)
  have "aside place cells v (forward ?hs d v)"
  proof (rule forward_announces [OF assms(3) [folded assms(5)], of ?hs])
    fix e
    assume "forward ?hs d v = publish ?hs (event_code e) 0 0 (v\<lparr>dm_dev := d\<rparr>)" "event_code e \<noteq> event_code SensorDataReady"
    then show ?thesis
      using publish_aside [OF assms(1), of "v\<lparr>dm_dev := d\<rparr>" "event_code e" api 0 0] calm by (simp add: aside_def del: event_code.simps)
  qed simp
  then show ?thesis by (rule aside_trans [OF assms(4)])
qed

lemma module_aside:
  fixes place api cells other
  assumes "rest_aside place cells other" and "calm place (bus w)"
  defines "hs \<equiv> app_handlers place api (e_handlers other)"
  assumes "M = relay_imodule api hs \<or> M = wifi_imodule place api hs \<or> M = mqtt_imodule api hs"
  shows "aside place cells w (m_tick M w)" and "aside place cells w (snd (m_init M w))"
proof -
  note f = forward_aside [OF assms(1,2), of _ _ api, folded hs_def]
  have "aside place cells w (m_tick (relay_imodule api hs) w)"
    using f [OF relay_announces(1)] by (simp add: relay_imodule_def split: prod.split)
  moreover have "aside place cells w (m_tick (wifi_imodule place api hs) w)"
    using f [OF network_announces(1)] by (simp add: wifi_imodule_def split: prod.split)
  moreover have "aside place cells w (m_tick (mqtt_imodule api hs) w)"
    using f [OF network_announces(2)] by (simp add: mqtt_imodule_def split: prod.split)
  ultimately show "aside place cells w (m_tick M w)" using assms(4) by blast
  have "aside place cells w (snd (m_init (relay_imodule api hs) w))"
    by (auto simp: relay_imodule_def split: prod.split option.split intro!: f [OF relay_announces(2)])
  moreover have "aside place cells w (snd (m_init (wifi_imodule place api hs) w))"
    by (rule wifi_init_changes [of place api hs w]) (simp add: aside_def)
  ultimately show "aside place cells w (snd (m_init M w))" using assms(4) by (auto simp: mqtt_init_module)
qed

lemmas tick_aside = module_aside(1) [OF _ _ disjI1 [OF refl]] module_aside(1) [OF _ _ disjI2 [OF disjI1 [OF refl]]]
  module_aside(1) [OF _ _ disjI2 [OF disjI2 [OF refl]]]
lemmas init_aside = module_aside(2) [OF _ _ disjI1 [OF refl]] module_aside(2) [OF _ _ disjI2 [OF disjI1 [OF refl]]]
  module_aside(2) [OF _ _ disjI2 [OF disjI2 [OF refl]]]

lemma services_rest:
  fixes other :: "('f, 'h) app_sys env"
  assumes "app_rest rank other"
  shows "app_rest rank (with_services place api cali other)"
proof -
  let ?hs = "app_handlers place api (e_handlers other)"
  let ?S = "sensor_imodule api cali ?hs" and ?T = "telemetry_imodule api :: ('f, 'h) app_sys imodule"
  note f = forward_frame [OF assms, where place = place and api = api] and r = app_restD [OF assms]
  have dev: "still w (forward ?hs d v)" if "gpio_level d = gpio_level (dm_dev w)" "v = w\<lparr>dm_sensor := dm_sensor v\<rparr>" for w v d
  proof -
    have "still w (v\<lparr>dm_dev := d\<rparr>)" using that(1) by (subst that(2)) (simp add: still_def relay_view_def)
    then show ?thesis using f(1) still_trans by blast
  qed
  have tick: "still w (m_tick ?S w)" "sched (m_tick ?S w) = sched w" "wf_bus (bus w) \<Longrightarrow> wf_bus (bus (m_tick ?S w))" for w
  proof -
    obtain s where s: "sensor_tick api cali (dm_sensor w) (dm_dev w) =
        (s, dev_publish SensorDataReady (sensor_reading api cali (dm_dev w)) 0 (dm_dev w))"
      using sensor_tick_publishes by blast
    show "still w (m_tick ?S w)" "sched (m_tick ?S w) = sched w" "wf_bus (bus w) \<Longrightarrow> wf_bus (bus (m_tick ?S w))"
      using dev [of "dev_publish SensorDataReady (sensor_reading api cali (dm_dev w)) 0 (dm_dev w)" w "w\<lparr>dm_sensor := s\<rparr>"] f(2,3)
      by (simp_all add: sensor_imodule_def s dev_publish_def)
  qed
  have init: "m_init ?S w = (True, w\<lparr>dm_dev := snd (adc_init api 0 (dm_dev w))\<rparr>)"
    "gpio_level (snd (adc_init api 0 (dm_dev w))) = gpio_level (dm_dev w)" for w
    by (auto simp: sensor_imodule_def sensor_init_def adc_init_def forward_published)
  have tele: "still w (on_telemetry g w)" "sched (on_telemetry g w) = sched w" "bus (on_telemetry g w) = bus w"
    for g and w :: "('f, 'h) app_sys"
    by (auto simp: on_telemetry_def still_def relay_view_def split: option.split)
  have "sched_quiet (with_services place api cali other)"
    using r(2) tick(2) init tele(2) by (simp add: sched_quiet_def with_services_def telemetry_imodule_def) (simp add: sensor_imodule_def)
  moreover have "tame rank (with_services place api cali other)"
  proof -
    have "safe_timers w \<Longrightarrow> safe_timers (m_tick ?S w)" "safe_timers w \<Longrightarrow> safe_timers (m_tick ?T w)" for w
      using still_safe [OF tick(1)] still_safe [OF tele(1)] by (simp_all add: telemetry_imodule_def)
    then show ?thesis
      using r(1) tick(3) tele(3) by (simp add: tame_def env_keeps_def with_services_def telemetry_imodule_def)
  qed
  ultimately show ?thesis
    using r tick(1) tele(1) init
    by (simp add: app_rest_def with_services_def telemetry_imodule_def) (simp add: still_def relay_view_def)
qed


section \<open>The takt as seen by the telemetry\<close>

definition path_view :: "('f \<Rightarrow> memory) \<Rightarrow> ('f, 'h) app_sys \<Rightarrow> upload_spec" where
  "path_view cells w = tel_abs (mem_get (cells (device (dm_boot w))) 0 256) (dm_telemetry w)"

definition path_ok :: "'f flash_backend \<Rightarrow> (app_object \<Rightarrow> ptr) \<Rightarrow> ('f, 'h) app_sys \<Rightarrow> bool" where
  "path_ok b place w \<longleftrightarrow> tel_ok (dm_telemetry w) \<and> backend (dm_boot w) = b \<and> calm place (bus w)"

lemma aside_path:
  assumes "aside place cells w w'" and "path_ok b place w"
  shows "path_view cells w' = path_view cells w" and "path_ok b place w'"
  using assms by (simp_all add: aside_def path_view_def path_ok_def)

text \<open>What the tick of a module does to the view, for some states \<open>d\<close> of the devices.\<close>

definition spec_record :: "'h app_api \<Rightarrow> (int \<Rightarrow> int option) \<Rightarrow> 'h dev_sys \<Rightarrow> 'h dev_sys \<Rightarrow> upload_spec \<Rightarrow> upload_spec" where
  "spec_record api cali d1 d2 = spec_sample (sample_record (getUptimeUs api d2) (sensor_reading api cali d1))"

definition spec_flush :: "'h app_api \<Rightarrow> 'h dev_sys \<Rightarrow> upload_spec \<Rightarrow> upload_spec" where
  "spec_flush api d = spec_upload (uptime_ms (getUptimeUs api d))"

definition path_acts ::
  "(app_object \<Rightarrow> ptr) \<Rightarrow> 'h app_api \<Rightarrow> (int \<Rightarrow> int option) \<Rightarrow> ptr \<Rightarrow> upload_spec \<Rightarrow> upload_spec \<Rightarrow> bool" where
  "path_acts place api cali q v v' \<longleftrightarrow>
     (if q = place ObjSensor then \<exists>d1 d2. v' = spec_record api cali d1 d2 v
      else if q = place ObjTelemetry then \<exists>d. v' = spec_flush api d v else v' = v)"

lemma sensor_acts:
  fixes w w' :: "('f, 'h) app_sys"
  assumes "aside place cells (w\<lparr>dm_telemetry := record_telemetry (sample_record us v) (dm_telemetry w)\<rparr>) w'" and "path_ok b place w"
  shows "path_view cells w' = spec_sample (sample_record us v) (path_view cells w)" and "path_ok b place w'"
proof -
  have ok: "tel_ok (dm_telemetry w)" using assms(2) by (simp add: path_ok_def)
  let ?w = "w\<lparr>dm_telemetry := record_telemetry (sample_record us v) (dm_telemetry w)\<rparr>"
  have "path_ok b place ?w" "path_view cells ?w = spec_sample (sample_record us v) (path_view cells w)"
    using assms(2) record_sample [OF ok] by (simp_all add: path_ok_def path_view_def)
  then show "path_view cells w' = spec_sample (sample_record us v) (path_view cells w)" "path_ok b place w'"
    using aside_path [OF assms(1)] by simp_all
qed

lemma telemetry_acts:
  fixes w :: "('f, 'h) app_sys" and api :: "'h app_api"
  assumes "flash_device b rd wr er cells cap sector" and "256 \<le> cap" and "path_ok b place w"
  defines "w' \<equiv> m_tick (telemetry_imodule api) w"
  shows "path_view cells w' = spec_flush api (dm_dev w) (path_view cells w)" and "path_ok b place w'"
proof -
  have ok: "tel_ok (dm_telemetry w)" "backend (dm_boot w) = b" using assms(3) by (simp_all add: path_ok_def)
  from tick_upload [OF assms(1) ok(2) assms(2) ok(1), of "getUptimeUs api (dm_dev w)"] obtain t d where
    t: "telemetry_tick (getUptimeUs api (dm_dev w)) (dm_telemetry w) (dm_boot w) = Some (t, dm_boot w\<lparr>device := d\<rparr>)" "tel_ok t"
      "tel_abs (mem_get (cells d) 0 256) t = spec_flush api (dm_dev w) (path_view cells w)"
    by (auto simp: spec_flush_def path_view_def)
  then show "path_view cells w' = spec_flush api (dm_dev w) (path_view cells w)" "path_ok b place w'"
    using assms(3) by (simp_all add: w'_def telemetry_imodule_def on_telemetry_def path_view_def path_ok_def)
qed

lemma demo_module:
  assumes "inj place"
  shows "e_module (app_env place api (with_services place api cali other)) q =
    (if q = place ObjRelay then relay_imodule api (app_handlers place api (e_handlers other))
     else if q = place ObjWifi then wifi_imodule place api (app_handlers place api (e_handlers other))
     else if q = place ObjMqtt then mqtt_imodule api (app_handlers place api (e_handlers other))
     else if q = place ObjSensor then sensor_imodule api cali (app_handlers place api (e_handlers other))
     else if q = place ObjTelemetry then telemetry_imodule api else e_module other q)"
  using inj_eq [OF assms] by (auto simp: with_services_def)

text \<open>A tick acts on the view as \<open>path_acts\<close> says, and so does leaving out the tick of a background module without work.\<close>

lemma module_acts:
  fixes other :: "('f, 'h) app_sys env" and place :: "app_object \<Rightarrow> ptr" and api :: "'h app_api" and cali
  assumes "inj place" and "rest_aside place cells other" and "flash_device b rd wr er cells cap sector" and "256 \<le> cap"
    and ok: "path_ok b place w"
  defines "M \<equiv> e_module (app_env place api (with_services place api cali other))"
  shows "path_acts place api cali q (path_view cells w) (path_view cells (m_tick (M q) w)) \<and> path_ok b place (m_tick (M q) w)"
proof -
  let ?hs = "app_handlers place api (e_handlers other)"
  note i = inj_eq [OF assms(1)]
  have calm: "calm place (bus w)" using ok by (simp add: path_ok_def)
  consider "q = place ObjSensor" | "q = place ObjTelemetry" | "q \<noteq> place ObjSensor" "q \<noteq> place ObjTelemetry" by blast
  then show ?thesis
  proof cases
    case 1
    obtain d where "aside place cells (w\<lparr>dm_telemetry := record_telemetry
        (sample_record (getUptimeUs api d) (sensor_reading api cali (dm_dev w))) (dm_telemetry w)\<rparr>) (m_tick (sensor_imodule api cali ?hs) w)"
      using sensor_tick_module [OF assms(2) calm assms(1)] by blast
    from sensor_acts [OF this ok] show ?thesis
      unfolding M_def demo_module [OF assms(1)] using 1 i by (auto simp: path_acts_def spec_record_def)
  next
    case 2
    then show ?thesis
      unfolding M_def demo_module [OF assms(1)] using telemetry_acts [OF assms(3,4) ok, of api] i by (auto simp: path_acts_def)
  next
    case 3
    then have "aside place cells w (m_tick (M q) w)"
      unfolding M_def demo_module [OF assms(1)]
      using tick_aside [OF assms(2) calm, of api] rest_asideD(6) [OF assms(2)] by simp
    from aside_path [OF this ok] show ?thesis using 3 by (simp add: path_acts_def)
  qed
qed

lemma skip_acts:
  fixes other :: "('f, 'h) app_sys env" and place :: "app_object \<Rightarrow> ptr" and api :: "'h app_api" and cali
  assumes "inj place"
  defines "M \<equiv> e_module (app_env place api (with_services place api cali other))"
  assumes "m_type (M q) w = Background" and "\<not> m_hasWork (M q) w"
  shows "path_acts place api cali q (path_view cells w) (path_view cells w)"
proof (cases "q = place ObjTelemetry")
  case True
  then have "\<not> us_pending (path_view cells w)"
    using assms(4) [unfolded M_def demo_module [OF assms(1)]] inj_eq [OF assms(1)]
    by (simp add: telemetry_imodule_def path_view_def tel_abs_def)
  then show ?thesis using True inj_eq [OF assms(1)] by (simp add: path_acts_def spec_flush_def spec_upload_def)
next
  case False
  then have "q \<noteq> place ObjSensor"
    using assms(3) [unfolded M_def demo_module [OF assms(1)]] inj_eq [OF assms(1)] by (auto simp: sensor_imodule_def)
  then show ?thesis using False by (simp add: path_acts_def)
qed

lemma path_takt_view:
  fixes other :: "('f, 'h) app_sys env"
  assumes "inj place" and "app_rest rank other" and "rest_aside place cells other"
    and dev: "flash_device b rd wr er cells cap sector" "256 \<le> cap"
  shows "takt_view (app_env place api (with_services place api cali other)) rank (path_ok b place) (path_view cells)
    (\<lambda>c v v'. v' = v) (path_acts place api cali)"
proof
  let ?o = "with_services place api cali other"
  let ?e = "app_env place api ?o"
  let ?hs = "app_handlers place api (e_handlers other)"
  let ?U = "undisturbed (path_ok b place) (path_view cells)"
  have o: "e_handlers ?o = e_handlers other" "e_timerCallbacks ?o = e_timerCallbacks other" "e_nowUs ?o = e_nowUs other"
    "e_wdtReset ?o = e_wdtReset other" "e_delay ?o = e_delay other"
    by (simp_all add: with_services_def)
  note rest = services_rest [OF assms(2), of place api cali] and r = app_restD [OF assms(2)] and a = rest_asideD [OF assms(3)]
  have U: "?U w w'" if "still w w'" "aside place cells w w'" for w w'
    using that aside_path [OF that(2)] by (simp add: undisturbed_def still_def)
  show "tame rank ?e" "sched_quiet ?e" by (rule app_tame [OF rest] app_sched_quiet [OF rest])+
  show "quiet_callbacks (e_timerCallbacks ?e)" using callbacks_quiet [OF rest] by simp
  show "path_view cells (w\<lparr>sched := s\<rparr>) = path_view cells w" "path_ok b place (w\<lparr>sched := s\<rparr>) = path_ok b place w" for w s
    by (simp_all add: path_view_def path_ok_def)
  show "?U w (snd (e_nowUs ?e w))" "?U w (e_wdtReset ?e w)" "?U w (e_delay ?e n w)" for w n
    using r(5-7) a(3-5) by (simp_all add: o U)
  show "reacts_by (path_ok b place) (path_view cells) (\<lambda>c v v'. v' = v) (e_timerCallbacks ?e)"
  proof -
    have "aside place cells w (e_timerCallbacks ?e c w)" for c w using a(2) by (simp add: app_callbacks_def o)
    moreover have "path_view cells (w\<lparr>timers := ts\<rparr>) = path_view cells w" "path_ok b place (w\<lparr>timers := ts\<rparr>) = path_ok b place w"
      for w :: "('f, 'h) app_sys" and ts
      by (simp_all add: path_view_def path_ok_def)
    ultimately show ?thesis using aside_path unfolding reacts_by_def by blast
  qed
  show "?U w (publish (e_handlers ?e) (event_code TaktOverrun) p1 p2 w)" for w p1 p2
  proof -
    have "still w (publish ?hs (event_code TaktOverrun) p1 p2 w)"
      by (rule publish_inv) (use still_trans [OF _ handlers_still [OF assms(2)]] in simp_all)
    moreover have "aside place cells w (publish ?hs (event_code TaktOverrun) p1 p2 w)" if "path_ok b place w"
      using that publish_aside [OF assms(3), of w] by (simp add: path_ok_def)
    ultimately show ?thesis using aside_path by (auto simp: undisturbed_def still_def o)
  qed
  show "?U w w'" if "dispatchQueued (e_handlers ?e) w = Some w'" "path_ok b place w" for w w'
    using that by (subst (asm) dispatchQueued.simps) (simp add: path_ok_def calm_def sole_listener_def)
  fix q w
  show "timers (m_tick (e_module ?e q) w) = timers w" "tmgr (m_tick (e_module ?e q) w) = tmgr w"
    using relay_tick_module(1,2) [OF rest] stillD [OF wifi_tick_module(1) [OF rest]] stillD [OF mqtt_tick_module(1) [OF rest]]
      stillD [OF app_restD(8) [OF rest]] by (auto simp: o)
  show "path_acts place api cali q (path_view cells w) (path_view cells w)"
    if "path_ok b place w" "m_type (e_module ?e q) w = Background" "\<not> m_hasWork (e_module ?e q) w"
    using that(2,3) by (rule skip_acts [OF assms(1)])
  show "path_acts place api cali q (path_view cells w) (path_view cells (m_tick (e_module ?e q) w)) \<and> path_ok b place (m_tick (e_module ?e q) w)"
    if "path_ok b place w" for q w
    using that by (rule module_acts [OF assms(1,3) dev])
qed


section \<open>Boot and takts\<close>

text \<open>The kernel with the modules of the application; the rest is \<open>other\<close>.\<close>

definition demo_env_of ::
  "(app_object \<Rightarrow> ptr) \<Rightarrow> 'h app_api \<Rightarrow> (int \<Rightarrow> int option) \<Rightarrow> ('f, 'h) app_kenv \<Rightarrow> ('f, 'h) app_kenv" where
  "demo_env_of place api cali other = app_kernel_env place api (other\<lparr>ke_env := with_services place api cali (ke_env other)\<rparr>)"

definition spec_start :: "bytes \<Rightarrow> bytes \<Rightarrow> upload_spec" where
  "spec_start line stored = \<lparr>us_batch = [], us_pending = False, us_last = 0, us_line = line, us_stored = stored\<rparr>"

text \<open>One takt: the states of the devices when the sensor, the callback and the telemetry service look at them.\<close>

definition spec_takt ::
  "'h app_api \<Rightarrow> (int \<Rightarrow> int option) \<Rightarrow> 'h dev_sys \<times> 'h dev_sys \<times> 'h dev_sys \<Rightarrow> upload_spec \<Rightarrow> upload_spec" where
  "spec_takt api cali = (\<lambda>(d1, d2, d3) s. spec_flush api d3 (spec_record api cali d1 d2 s))"

lemma kernel_env_simps [simp]:
  "ke_env (demo_env_of place api cali other) = app_env place api (with_services place api cali (ke_env other))"
  by (simp add: demo_env_of_def app_kernel_env_def)

lemma takt_chain:
  assumes "inj place" and "chained (path_acts place api cali) (map place app_modules) v v'"
  shows "\<exists>x. v' = spec_takt api cali x v"
proof -
  have "\<exists>u d1 d2 d. u = spec_record api cali d1 d2 v \<and> v' = spec_flush api d u"
    using assms(2) by (auto simp: app_modules_def path_acts_def inj_eq [OF assms(1)])
  then show ?thesis by (auto simp: spec_takt_def)
qed

lemma relpow_fold:
  assumes "\<And>v v'. R v v' \<Longrightarrow> \<exists>x. v' = f x v" and "(R ^^ n) v v'"
  shows "\<exists>xs. length xs = n \<and> v' = fold f xs v"
  using assms(2)
proof (induction n arbitrary: v')
  case (Suc n)
  then obtain u where "(R ^^ n) v u" "R u v'" by auto
  then obtain xs x where "length xs = n" "u = fold f xs v" "v' = f x u" using Suc.IH assms(1) by blast
  then show ?case by (intro exI [of _ "xs @ [x]"]) simp
qed simp

text \<open>The set-up leaves the service fresh and the callback in slot 1.\<close>

lemma path_set_up:
  fixes b0 :: "'f boot_sys" and d :: "'h dev_sys" and tel_pool :: memory
  assumes "inj place"
  defines "w \<equiv> app_timers place (app_configure place (app_reset tel_pool b0 d))"
  shows "path_ok (backend b0) place w"
    and "path_view cells w = spec_start (mem_get tel_pool 0 256) (mem_get (cells (device b0)) 0 256)"
proof -
  have w: "dm_telemetry w = new_telemetry tel_pool 8192" "dm_boot w = b0"
    by (simp_all add: w_def app_timers_def app_configure_def app_reset_def timer_construct_def Let_def)
  have "calm place (bus w)" unfolding w_def calm_def by (rule app_listeners [OF assms(1)])
  then show "path_ok (backend b0) place w" by (simp add: path_ok_def w tel_ok_new)
  show "path_view cells w = spec_start (mem_get tel_pool 0 256) (mem_get (cells (device b0)) 0 256)"
    by (simp add: path_view_def w tel_abs_def spec_start_def new_telemetry_def new_cache_def)
qed

lemma path_boot:
  fixes other :: "('f, 'h) app_kenv"
  assumes "inj place" and "rest_aside place cells (ke_env other)" and "path_ok b place w"
  shows "aside place cells w (snd (kernel_boot (demo_env_of place api cali other) w))"
proof -
  let ?ke = "demo_env_of place api cali other"
  let ?J = "\<lambda>v. aside place cells w v"
  have calm: "calm place (bus v)" if "?J v" for v using that assms(3) by (simp add: aside_def path_ok_def)
  have j: "?J v'" if "?J v" "aside place cells v v'" for v v' using that by (rule aside_trans)
  show ?thesis
  proof (rule kernel_boot_inv [where J = ?J])
    fix q v
    assume v: "?J v"
    let ?hs = "app_handlers place api (e_handlers (ke_env other))"
    have "m_init (sensor_imodule api cali ?hs) v = (True, v\<lparr>dm_dev := snd (adc_init api 0 (dm_dev v))\<rparr>)"
      by (auto simp: sensor_imodule_def sensor_init_def adc_init_def forward_published)
    then show "?J (snd (m_init (e_module (ke_env ?ke) q) v))"
      using init_aside [OF assms(2) calm [OF v], of api] rest_asideD(7) [OF assms(2), of v] j [OF v]
      by (auto simp: with_services_def telemetry_imodule_def)
  next
    fix v
    assume v: "?J v"
    then show "?J (kernel_publish ?ke SystemBoot v) \<and> ?J (kernel_publish ?ke SystemReady v)"
      using publish_aside [OF assms(2) calm [OF v], of _ api 0 0] j [OF v] by (simp add: kernel_publish_def with_services_def)
  qed (simp_all add: aside_def)
qed


section \<open>What an upload interval leaves in the flash\<close>

definition takt_record :: "'h app_api \<Rightarrow> (int \<Rightarrow> int option) \<Rightarrow> 'h dev_sys \<times> 'h dev_sys \<times> 'h dev_sys \<Rightarrow> telemetry_record" where
  "takt_record api cali = (\<lambda>(d1, d2, d3). sample_record (getUptimeUs api d2) (sensor_reading api cali d1))"

definition takt_ms :: "'h app_api \<Rightarrow> 'h dev_sys \<times> 'h dev_sys \<times> 'h dev_sys \<Rightarrow> u32" where
  "takt_ms api = (\<lambda>(d1, d2, d3). uptime_ms (getUptimeUs api d3))"

lemma takt_record_reserved [simp]: "length (tr_reserved (takt_record api cali x)) = 3"
  by (cases x) (simp add: takt_record_def sample_record_def)

lemma takts_collect:
  assumes "\<forall>x\<in>set xs. takt_ms api x - us_last s < 60000" and "length (us_batch s) \<le> kMaxRecords"
  shows "us_batch (fold (spec_takt api cali) xs s) = take kMaxRecords (us_batch s @ map (takt_record api cali) xs) \<and>
    us_last (fold (spec_takt api cali) xs s) = us_last s \<and> us_line (fold (spec_takt api cali) xs s) = us_line s"
  using assms(1)
proof (induction xs rule: rev_induct)
  case (snoc x xs)
  obtain d1 d2 d3 where x: "x = (d1, d2, d3)" by (cases x)
  then show ?case
    using snoc by (auto simp: spec_takt_def spec_flush_def spec_record_def spec_sample_def spec_upload_def takt_ms_def takt_record_def not_le min_def)
qed (use assms(2) in simp)

lemma batch_bytes_take:
  assumes "\<forall>r\<in>set rs. length (tr_reserved r) = 3"
  shows "take (12 * n) (batch_bytes rs) = batch_bytes (take n rs)"
  using assms
proof (induction rs arbitrary: n)
  case (Cons r rs)
  have len: "length (record_bytes r) = 12" using Cons.prems by (simp add: record_bytes_def)
  show ?case
  proof (cases n)
    case (Suc m)
    then show ?thesis using Cons len by (simp add: batch_bytes_def)
  qed (simp add: batch_bytes_def)
qed (simp add: batch_bytes_def)

lemma length_batch_bytes:
  assumes "\<forall>r\<in>set rs. length (tr_reserved r) = 3"
  shows "length (batch_bytes rs) = 12 * length rs"
  using assms by (induction rs) (simp_all add: batch_bytes_def record_bytes_def)

text \<open>
  Of the readings between two uploads, one per takt, only the first 21 reach the flash, and four bytes
  of the next one.
\<close>

lemma interval_keeps_21_records:
  assumes "us_batch s = []" and "\<forall>y\<in>set xs. takt_ms api y - us_last s < 60000" and "60000 \<le> takt_ms api x - us_last s"
    and "22 \<le> length (xs @ [x])" and "length (us_line s) = 256"
  shows "us_stored (fold (spec_takt api cali) (xs @ [x]) s) = take 256 (batch_bytes (map (takt_record api cali) (take 22 (xs @ [x]))))"
proof -
  let ?rs = "map (takt_record api cali) (xs @ [x])"
  obtain d1 d2 d3 where x: "x = (d1, d2, d3)" by (cases x)
  define u where "u = fold (spec_takt api cali) xs s"
  have u: "us_batch u = take kMaxRecords (map (takt_record api cali) xs)" "us_last u = us_last s" "us_line u = us_line s"
    using takts_collect [OF assms(2)] assms(1) by (simp_all add: u_def)
  have b: "take kMaxRecords (us_batch u @ [takt_record api cali x]) = take kMaxRecords ?rs" by (simp add: u min_def)
  have stored: "us_stored (spec_takt api cali x u) = overlay (take 256 (batch_bytes (take kMaxRecords ?rs))) (us_line u)"
    using assms(3) b u(2)
    by (simp add: x spec_takt_def spec_flush_def spec_record_def spec_sample_def spec_upload_def takt_ms_def takt_record_def Let_def)
  have "\<forall>r\<in>set (take kMaxRecords ?rs). length (tr_reserved r) = 3"
    by (auto dest!: in_set_takeD)
  from batch_bytes_take [OF this, of 22] have t: "take 264 (batch_bytes (take kMaxRecords ?rs)) = batch_bytes (take 22 ?rs)"
    by (simp add: kMaxRecords_def min_def)
  have l: "length (take 22 ?rs) = 22" using assms(4) by simp
  have "\<forall>r\<in>set (take 22 ?rs). length (tr_reserved r) = 3" unfolding take_map by auto
  from length_batch_bytes [OF this] have "length (batch_bytes (take 22 ?rs)) = 264" unfolding l by simp
  then have "length (take 264 (batch_bytes (take kMaxRecords ?rs))) = 264" using t by simp
  then have "264 \<le> length (batch_bytes (take kMaxRecords ?rs))" unfolding length_take by linarith
  then have "overlay (take 256 (batch_bytes (take kMaxRecords ?rs))) (us_line u) = take 256 (take 264 (batch_bytes (take kMaxRecords ?rs)))"
    using assms(5) u(3) by (simp add: overlay_def)
  also have "\<dots> = take 256 (batch_bytes (map (takt_record api cali) (take 22 (xs @ [x]))))" by (simp only: t) (simp only: take_map)
  finally show ?thesis using stored by (simp add: u_def)
qed


section \<open>Properties\<close>

text \<open>
  C4: From the sensor to the flash: the demo application implements the state machine \<open>spec_takt\<close>. Its boot succeeds,
  every takt returns, and in every takt one reading of the sensor, published on the bus and recorded by the callback,
  joins the batch in memory, of which 64 records are kept; whenever the upload interval of a minute has passed, the batch
  goes through the cache into the first 256 bytes of the flash, over the batch before it.
\<close>
theorem telemetry_reaches_flash:
  assumes "inj place" and "app_rest rank (ke_env other)" and "rest_aside place cells (ke_env other)"
    and "flash_device (backend (app_platform af b)) rd wr er cells cap sector" and "256 \<le> cap"
  shows "\<exists>w w' seen. app_boot place (demo_env_of place api cali other) af (app_reset tel_pool b d) = Some (True, w) \<and>
    run_takts (ke_env (demo_env_of place api cali other)) n w = Some w' \<and> length seen = n \<and>
    path_view cells w' = fold (spec_takt api cali) seen
      (spec_start (mem_get tel_pool 0 256) (mem_get (cells (device (app_platform af b))) 0 256))"
proof -
  let ?ke = "demo_env_of place api cali other" and ?b = "backend (app_platform af b)"
  let ?start = "spec_start (mem_get tel_pool 0 256) (mem_get (cells (device (app_platform af b))) 0 256)"
  define w1 where "w1 = app_timers place (app_configure place (app_reset tel_pool (app_platform af b) d))"
  have rest: "app_rest rank (ke_env (other\<lparr>ke_env := with_services place api cali (ke_env other)\<rparr>))"
    by (simp add: services_rest [OF assms(2)])
  obtain w2 w where w2: "kernel_boot ?ke w1 = (True, w2)" and w: "w = w2\<lparr>dm_boot := markBootSuccessful (dm_boot w2)\<rparr>"
    and boot: "app_boot place ?ke af (app_reset tel_pool b d) = Some (True, w)" and ok: "sys_ok w"
    and runs: "runs_at (place ObjRelay) 2 (sched w)" and live: "live_modules (sched w) = map place app_modules"
    by (rule app_booted [OF assms(1) rest, where api = api and af = af and tel_pool = tel_pool and b = b and d = d,
          folded demo_env_of_def w1_def]) (rule that)
  have 1: "path_ok ?b place w1" "path_view cells w1 = ?start"
    unfolding w1_def by (rule path_set_up [OF assms(1)])+
  have "aside place cells w1 w2" using path_boot [OF assms(1,3) 1(1), of api cali] w2 by simp
  then have "aside place cells w1 w" unfolding w markBootSuccessful_def by (rule aside_trans) simp
  from aside_path [OF this 1(1)] have v: "path_view cells w = ?start" "path_ok ?b place w" using 1(2) by simp_all
  have "wf_sched (sched w)" using runs by (simp add: runs_at_def)
  then obtain w' where run: "run_takts (ke_env ?ke) n w = Some w'"
    and "(chained (path_acts place api cali) (map place app_modules) ^^ n) ?start (path_view cells w')"
    using takt_view.takts_act [OF path_takt_view [OF assms, of api cali] _ _ ok v(2) live, of n] v(1) by auto
  from relpow_fold [where f = "spec_takt api cali", OF takt_chain [OF assms(1)] this(2)] obtain seen where
    "length seen = n" "path_view cells w' = fold (spec_takt api cali) seen ?start" by blast
  with boot run show ?thesis by (intro exI [of _ w] exI [of _ w'] exI [of _ seen]) simp
qed

definition part_flash :: "memory app_flash" where
  "part_flash = \<lparr>af_lookup = (\<lambda>_. Some mem_partition), af_ota0 = None, af_ota1 = None, af_ota = host_ota\<rparr>"

theorem telemetry_reaches_flash_witness:
  "\<exists>w w' seen. app_boot app_place (demo_env_of app_place demo_api (\<lambda>_. None) idle_kernel) part_flash
      (app_reset (\<lambda>_. 0) demo_boot demo_dev) = Some (True, w) \<and>
    run_takts (ke_env (demo_env_of app_place demo_api (\<lambda>_. None) idle_kernel)) 100000 w = Some w' \<and> length seen = 100000 \<and>
    path_view id w' = fold (spec_takt demo_api (\<lambda>_. None)) seen (spec_start (replicate 256 0) (replicate 256 0xFF))"
proof -
  have i: "inj app_place" by (rule injI) (simp add: app_place_def split: app_object.splits)
  have r: "app_rest (\<lambda>_. 0) (ke_env idle_kernel)" by (simp add: idle_kernel_def app_rest_idle)
  have a: "rest_aside app_place id (ke_env idle_kernel)" by (simp add: idle_kernel_def rest_aside_def idle_env_def)
  have p: "backend (app_platform part_flash demo_boot) = partition_backend mem_partition" "device (app_platform part_flash demo_boot) = (\<lambda>_. 0xFF)"
    by (simp_all add: app_platform_def part_flash_def platform_init_def initStorageFromPartition_def createPartitionBackend_def
        storage_init_def partition_backend_def Let_def demo_boot_def)
  have f: "flash_device (backend (app_platform part_flash demo_boot)) (partitionRead mem_partition) (partitionWrite mem_partition)
      (partitionErase mem_partition) id 8192 4096"
    unfolding p by (rule partition_flash) (simp_all add: mem_partition_def)
  have m: "mem_get (\<lambda>_. x) 0 256 = replicate 256 x" for x by (simp add: mem_get_def map_replicate_const)
  show ?thesis
    using telemetry_reaches_flash [OF i r a f, of demo_api "\<lambda>_. None" "\<lambda>_. 0" demo_dev 100000] by (simp add: p m)
qed

end
