(* ===== verification/Demo_Network.thy ===== *)
theory Demo_Network
  imports Applications
begin

text \<open>
  How the demo controller joins the network: the WiFi module (\<open>middleware/src/wifi_module.cpp\<close>), the timer that
  is its member, the event \<open>WiFiConnected\<close>, the callback of \<open>main.cpp\<close> and the MQTT module
  (\<open>middleware/src/mqtt_module.cpp\<close>) in the takts of the scheduler. WiFi is a background module and runs only
  when it has work; the timer gives it some, every five seconds, until it is connected. ESP32 build; the events
  that the network stacks of the vendor deliver from their own tasks are not part of a takt.
\<close>


section \<open>The network in the state of the application\<close>

definition net_view :: "('f, 'h) app_sys \<Rightarrow> wifi_module \<times> mqtt_module" where
  "net_view w = (dm_wifi w, dm_mqtt w)"

text \<open>
  The callback for \<open>WiFiConnected\<close> is the one in slot 0, where \<open>main\<close> puts it, no event is queued, and no MQTT message
  waits. The rest of the application keeps it so and leaves both modules alone.
\<close>

definition net_ok :: "(app_object \<Rightarrow> ptr) \<Rightarrow> ('f, 'h) app_sys \<Rightarrow> bool" where
  "net_ok place w \<longleftrightarrow> sole_listener (place FnWifiConnected) 0 (event_code WiFiConnected) (bus w) \<and> \<not> mq_msgPending (dm_mqtt w)"

definition off_net :: "(app_object \<Rightarrow> ptr) \<Rightarrow> ('f, 'h) app_sys \<Rightarrow> ('f, 'h) app_sys \<Rightarrow> bool" where
  "off_net place w w' \<longleftrightarrow> net_view w' = net_view w \<and> (net_ok place w \<longrightarrow> net_ok place w')"

definition rest_off_net :: "(app_object \<Rightarrow> ptr) \<Rightarrow> ('f, 'h) app_sys env \<Rightarrow> bool" where
  "rest_off_net place other \<longleftrightarrow>
     (\<forall>c d u w. off_net place w (e_handlers other c d u w)) \<and> (\<forall>c w. off_net place w (e_timerCallbacks other c w)) \<and>
     (\<forall>w. off_net place w (snd (e_nowUs other w)) \<and> off_net place w (e_wdtReset other w)) \<and>
     (\<forall>n w. off_net place w (e_delay other n w)) \<and>
     (\<forall>q w. off_net place w (m_tick (e_module other q) w) \<and> off_net place w (snd (m_init (e_module other q) w)))"

lemma rest_off_netD:
  assumes "rest_off_net place other"
  shows "off_net place w (e_handlers other c d u w)" "off_net place w (e_timerCallbacks other c w)"
    "off_net place w (snd (e_nowUs other w))" "off_net place w (e_wdtReset other w)" "off_net place w (e_delay other n w)"
    "off_net place w (m_tick (e_module other q) w)" "off_net place w (snd (m_init (e_module other q) w))"
  using assms unfolding rest_off_net_def by blast+

lemma off_net_refl [simp]: "off_net place w w"
  by (simp add: off_net_def)

lemma off_net_trans: "off_net place u v \<Longrightarrow> off_net place v w \<Longrightarrow> off_net place u w"
  by (simp add: off_net_def)

lemma off_net_frame [simp]:
  "off_net place w (w\<lparr>dm_dev := d\<rparr>)" "off_net place w (w\<lparr>dm_relay := r\<rparr>)" "off_net place w (w\<lparr>dm_telemetry := t\<rparr>)"
  "off_net place w (toggle_relay w)" "off_net place w (w\<lparr>timers := ts\<rparr>)" "off_net place w (on_sensor_data api e w)"
  by (simp_all add: off_net_def net_view_def net_ok_def toggle_relay_def on_sensor_data_def Let_def)

lemma net_frame [simp]:
  "net_view (w\<lparr>sched := s\<rparr>) = net_view w" "net_ok place (w\<lparr>sched := s\<rparr>) = net_ok place w"
  "net_view (w\<lparr>timers := ts\<rparr>) = net_view w" "net_ok place (w\<lparr>timers := ts\<rparr>) = net_ok place w"
  "net_view (w\<lparr>k_nvs := n\<rparr>) = net_view w" "net_ok place (w\<lparr>k_nvs := n\<rparr>) = net_ok place w"
  "net_view (w\<lparr>k_bootTimeMs := m\<rparr>) = net_view w" "net_ok place (w\<lparr>k_bootTimeMs := m\<rparr>) = net_ok place w"
  "net_view (w\<lparr>k_running := r\<rparr>) = net_view w" "net_ok place (w\<lparr>k_running := r\<rparr>) = net_ok place w"
  "net_view (w\<lparr>dm_boot := b\<rparr>) = net_view w" "net_ok place (w\<lparr>dm_boot := b\<rparr>) = net_ok place w"
  by (simp_all add: net_view_def net_ok_def)


subsection \<open>Events\<close>

lemma others_off_net:
  assumes "rest_off_net place other" and "c \<noteq> place FnWifiConnected"
  shows "off_net place w (app_handlers place api (e_handlers other) c d u w)"
  using assms(2) rest_off_netD(1) [OF assms(1)] by (simp add: app_handlers_def)

lemma publish_off_net:
  assumes "rest_off_net place other" and "net_ok place w" and "e \<noteq> event_code WiFiConnected"
  shows "off_net place w (publish (app_handlers place api (e_handlers other)) e p1 p2 w)"
  by (rule publish_others [where J = "off_net place w" and p = "place FnWifiConnected" and k = 0 and e = "event_code WiFiConnected"])
    (use assms(2,3) off_net_trans [OF _ others_off_net [OF assms(1)]] in
      \<open>auto simp: off_net_def net_ok_def simp del: event_code.simps\<close>)

text \<open>The callback asks once; a client that does not exist is not asked, and no answer is looked at.\<close>

definition ask :: "mqtt_module \<Rightarrow> mqtt_module" where
  "ask m = (if mq_client m then m\<lparr>mq_asked := mq_asked m @ [str ''takt/telemetry'']\<rparr> else m)"

lemma publish_asks:
  fixes place api w other p1 p2
  assumes "rest_off_net place other" and "net_ok place w" and "\<And>d. mqe_esp32 (net_mqtt api d)"
  defines "w' \<equiv> publish (app_handlers place api (e_handlers other)) (event_code WiFiConnected) p1 p2 w"
  shows "net_view w' = (dm_wifi w, ask (dm_mqtt w))" and "net_ok place w'"
proof -
  let ?hs = "app_handlers place api (e_handlers other)"
  let ?J = "off_net place w" and ?K = "\<lambda>v. net_view v = (dm_wifi w, ask (dm_mqtt w)) \<and> net_ok place v"
  note h = others_off_net [OF assms(1), where api = api]
  have j: "sole_listener (place FnWifiConnected) 0 (event_code WiFiConnected) (bus v)" if "?J v \<or> ?K v" for v
    using that assms(2) by (auto simp: off_net_def net_ok_def simp del: event_code.simps)
  have mine: "?K (?hs (place FnWifiConnected) d u v)" if "?J v" for d u v
    using that assms(2,3)
    by (simp add: off_net_def app_handlers_def on_wifi_connected_def net_view_def net_ok_def ask_def mqtt_subscribe_def)
  have others: "?J (?hs c d u v)" if "?J v" "c \<noteq> place FnWifiConnected" for c d u v
    using off_net_trans [OF that(1) h [OF that(2)]] .
  have others': "?K (?hs c d u v)" if "?K v" "c \<noteq> place FnWifiConnected" for c d u v
    using that(1) h [OF that(2), of v d u] by (simp add: off_net_def)
  have "?K w'" unfolding w'_def
    by (rule publish_sole [where J = ?J and K = ?K and p = "place FnWifiConnected" and k = 0])
      (use j mine others others' in \<open>simp_all add: kMaxEventSubscribers_def del: event_code.simps\<close>)
  then show "net_view w' = (dm_wifi w, ask (dm_mqtt w))" "net_ok place w'" by simp_all
qed


subsection \<open>The modules\<close>

text \<open>A tick of WiFi while the devices are in state \<open>d\<close>: it looks for the access point, and if it is new, MQTT is asked.\<close>

definition net_poll :: "'h app_api \<Rightarrow> 'h dev_sys \<Rightarrow> wifi_module \<times> mqtt_module \<Rightarrow> wifi_module \<times> mqtt_module" where
  "net_poll api d = (\<lambda>(n, m). let e = net_wifi api d in
     (fst (wifi_tick e n d), if \<not> wm_connected n \<and> we_ap_info e then ask m else m))"

lemma wifi_polls:
  fixes place api w other
  assumes "rest_off_net place other" and "net_ok place w" and "\<And>d. mqe_esp32 (net_mqtt api d)" and "\<And>d. we_esp32 (net_wifi api d)"
  defines "w' \<equiv> m_tick (wifi_imodule place api (app_handlers place api (e_handlers other))) w"
  shows "net_view w' = net_poll api (dm_dev w) (net_view w)" and "net_ok place w'"
proof -
  let ?e = "net_wifi api (dm_dev w)" and ?hs = "app_handlers place api (e_handlers other)"
  obtain n d where t: "wifi_tick ?e (dm_wifi w) (dm_dev w) = (n, d)" by fastforce
  have d: "d = (if \<not> wm_connected (dm_wifi w) \<and> we_ap_info ?e then dev_publish WiFiConnected 0 0 (dm_dev w) else dm_dev w)"
    using wifi_step_esp [of "WTick ?e" "dm_wifi w" "dm_dev w"] assms(4) t by (simp add: on_esp_def sees_ap_def)
  have w': "w' = forward ?hs d (w\<lparr>dm_wifi := n\<rparr>)" by (simp add: w'_def wifi_imodule_def t)
  have ok: "net_ok place (w\<lparr>dm_wifi := n, dm_dev := d\<rparr>)" using assms(2) by (simp add: net_ok_def)
  have "net_view w' = net_poll api (dm_dev w) (net_view w) \<and> net_ok place w'"
  proof (cases "\<not> wm_connected (dm_wifi w) \<and> we_ap_info ?e")
    case True
    then have "w' = publish ?hs (event_code WiFiConnected) 0 0 (w\<lparr>dm_wifi := n, dm_dev := d\<rparr>)"
      using forward_published(2) [of "dm_dev w" "w\<lparr>dm_wifi := n\<rparr>" ?hs WiFiConnected 0 0] by (simp add: w' d del: event_code.simps)
    then show ?thesis
      using publish_asks [OF assms(1) ok assms(3), of 0 0] True t by (simp add: net_poll_def net_view_def Let_def)
  next
    case False
    then have "d = dm_dev w" using d by argo
    then have "w' = w\<lparr>dm_wifi := n, dm_dev := d\<rparr>" using forward_published(1) [of d "w\<lparr>dm_wifi := n\<rparr>" ?hs] by (simp add: w')
    then show ?thesis using ok False t by (auto simp: net_poll_def net_view_def Let_def)
  qed
  then show "net_view w' = net_poll api (dm_dev w) (net_view w)" "net_ok place w'" by simp_all
qed

lemma relay_off_net:
  fixes place api w other
  assumes "rest_off_net place other" and "net_ok place w"
  defines "M \<equiv> relay_imodule api (app_handlers place api (e_handlers other))"
  shows "off_net place w (m_tick M w)" and "off_net place w (snd (m_init M w))"
proof -
  let ?hs = "app_handlers place api (e_handlers other)"
  have f: "off_net place w (forward ?hs d v)" if "announces WiFiConnected (dm_dev v) d" "off_net place w v" for d v
  proof -
    have "net_ok place (v\<lparr>dm_dev := d\<rparr>)" using assms(2) that(2) by (simp add: off_net_def net_ok_def)
    then have p: "off_net place v (publish ?hs e 0 0 (v\<lparr>dm_dev := d\<rparr>))" if "e \<noteq> event_code WiFiConnected" for e
      using publish_off_net [OF assms(1) _ that] off_net_trans [OF off_net_frame(1)] by blast
    have "off_net place v (forward ?hs d v)"
      by (rule forward_announces [OF that(1), of ?hs]) (use p in \<open>simp_all del: event_code.simps\<close>)
    then show ?thesis by (rule off_net_trans [OF that(2)])
  qed
  show "off_net place w (m_tick M w)"
    using f [OF relay_announces(1)] by (simp add: M_def relay_imodule_def split: prod.split)
  show "off_net place w (snd (m_init M w))"
    by (auto simp: M_def relay_imodule_def split: prod.split option.split intro!: f relay_announces(2))
qed


text \<open>What a takt does to the view: WiFi looks for the access point if it has work, and MQTT, which has none, does nothing.\<close>

definition net_acts :: "(app_object \<Rightarrow> ptr) \<Rightarrow> 'h app_api \<Rightarrow> ptr \<Rightarrow> wifi_module \<times> mqtt_module \<Rightarrow> wifi_module \<times> mqtt_module \<Rightarrow> bool" where
  "net_acts place api q v v' \<longleftrightarrow>
     (if q = place ObjWifi \<and> wifi_hasWork (fst v) then \<exists>d. v' = net_poll api d v else v' = v)"

definition net_timeout :: "wifi_module \<times> mqtt_module \<Rightarrow> wifi_module \<times> mqtt_module" where
  "net_timeout = (\<lambda>(n, m). (wifi_on_timeout n, m))"

lemma net_module_acts:
  fixes other :: "('f, 'h) app_sys env" and place :: "app_object \<Rightarrow> ptr" and api :: "'h app_api"
  assumes "inj place" and "rest_off_net place other" and esp: "\<And>d. mqe_esp32 (net_mqtt api d)" "\<And>d. we_esp32 (net_wifi api d)"
    and "net_ok place u" and "net_ok place w" and "net_view w = net_view u"
  defines "M \<equiv> e_module (app_env place api other)"
  assumes "m_type (M q) u = Background \<Longrightarrow> m_hasWork (M q) u"
  shows "net_acts place api q (net_view w) (net_view (m_tick (M q) w)) \<and> net_ok place (m_tick (M q) w)"
proof -
  note ne = inj_eq [OF assms(1)]
  consider "q = place ObjWifi" | "q = place ObjMqtt" | "q \<noteq> place ObjWifi" "q \<noteq> place ObjMqtt" by blast
  then show ?thesis
  proof cases
    case 1
    then have "wifi_hasWork (fst (net_view w))"
      using assms(7,9) ne by (simp add: M_def wifi_imodule_def net_view_def)
    then show ?thesis using wifi_polls [OF assms(2,6) esp] 1 ne by (auto simp: M_def net_acts_def)
  next
    case 2
    then have "mqtt_hasWork (dm_mqtt u)" using assms(9) ne by (simp add: M_def mqtt_imodule_def)
    then show ?thesis using assms(5) by (simp add: net_ok_def mqtt_hasWork_def)
  next
    case 3
    then have "off_net place w (m_tick (M q) w)"
      using relay_off_net(1) [OF assms(2,6)] rest_off_netD(6) [OF assms(2)] by (simp add: M_def)
    then show ?thesis using 3 assms(6) by (simp add: off_net_def net_acts_def)
  qed
qed

lemma net_takt_view:
  fixes other :: "('f, 'h) app_sys env"
  assumes "inj place" and "app_rest rank other" and "rest_off_net place other"
    and esp: "\<And>d. mqe_esp32 (net_mqtt api d)" "\<And>d. we_esp32 (net_wifi api d)"
  shows "takt_view (app_env place api other) rank (net_ok place) net_view
    (\<lambda>c v v'. v' = (if c = place FnWifiTimeout then net_timeout v else v)) (net_acts place api)"
proof
  let ?e = "app_env place api other" and ?U = "undisturbed (net_ok place) net_view"
  note r = app_restD [OF assms(2)] and o = rest_off_netD [OF assms(3)] and ne = inj_eq [OF assms(1)]
  have U: "?U w w'" if "still w w'" "off_net place w w'" for w w'
    using that by (simp add: undisturbed_def still_def off_net_def)
  show "tame rank ?e" "sched_quiet ?e" by (rule app_tame [OF assms(2)] app_sched_quiet [OF assms(2)])+
  show "quiet_callbacks (e_timerCallbacks ?e)" using callbacks_quiet [OF assms(2)] by simp
  show "?U w (snd (e_nowUs ?e w))" "?U w (e_wdtReset ?e w)" "?U w (e_delay ?e n w)" for w n
    using r(5-7) o(3-5) by (simp_all add: U)
  show "reacts_by (net_ok place) net_view (\<lambda>c v v'. v' = (if c = place FnWifiTimeout then net_timeout v else v)) (e_timerCallbacks ?e)"
  proof -
    have "net_view (e_timerCallbacks ?e c w) = (if c = place FnWifiTimeout then net_timeout (net_view w) else net_view w) \<and>
        net_ok place (e_timerCallbacks ?e c w)" if "net_ok place w" for c w
      using that o(2) [of w c] ne
      by (auto simp: app_callbacks_def off_net_def net_view_def net_ok_def net_timeout_def toggle_relay_def Let_def)
    then show ?thesis unfolding reacts_by_def by simp
  qed
  show "?U w (publish (e_handlers ?e) (event_code TaktOverrun) p1 p2 w)" for w p1 p2
  proof -
    have "still w (publish (e_handlers ?e) (event_code TaktOverrun) p1 p2 w)"
      by (rule publish_inv) (use still_trans [OF _ handlers_still [OF assms(2)]] in simp_all)
    moreover have "off_net place w (publish (e_handlers ?e) (event_code TaktOverrun) p1 p2 w)" if "net_ok place w"
      using publish_off_net [OF assms(3) that] by simp
    ultimately show ?thesis by (auto simp: undisturbed_def still_def off_net_def)
  qed
  show "?U w w'" if "dispatchQueued (e_handlers ?e) w = Some w'" "net_ok place w" for w w'
    using that by (subst (asm) dispatchQueued.simps) (simp add: net_ok_def sole_listener_def)
  show "timers (m_tick (e_module ?e q) w) = timers w" "tmgr (m_tick (e_module ?e q) w) = tmgr w" for q w
    using relay_tick_module(1,2) [OF assms(2)] stillD [OF wifi_tick_module(1) [OF assms(2)]]
      stillD [OF mqtt_tick_module(1) [OF assms(2)]] stillD [OF r(8)] by simp_all
  show "net_acts place api q (net_view w) (net_view w)"
    if "net_ok place w" "m_type (e_module ?e q) w = Background" "\<not> m_hasWork (e_module ?e q) w" for q w
    using that(3) ne by (auto simp: net_acts_def net_view_def wifi_imodule_def)
  show "net_acts place api q (net_view w) (net_view (m_tick (e_module ?e q) w)) \<and> net_ok place (m_tick (e_module ?e q) w)"
    if "net_ok place u" "m_type (e_module ?e q) u = Background \<Longrightarrow> m_hasWork (e_module ?e q) u" "net_ok place w" "net_view w = net_view u"
    for q u w
    by (rule net_module_acts [OF assms(1,3) esp that(1,3,4,2)])
qed simp_all


section \<open>Boot\<close>

definition fresh_net :: "wifi_module \<times> mqtt_module \<Rightarrow> bool" where
  "fresh_net = (\<lambda>(n, m). \<not> wm_connected n \<and> wm_reconnectPending n \<and> \<not> wm_eventPending n \<and> wm_connects n = 0 \<and> mq_asked m = [])"

text \<open>During the boot: where the timer of WiFi runs, its module has been initialized.\<close>

definition booting :: "(app_object \<Rightarrow> ptr) \<Rightarrow> ('f, 'h) app_sys \<Rightarrow> bool" where
  "booting place w \<longleftrightarrow> net_ok place w \<and> fresh_net (net_view w) \<and>
     ((\<exists>t. timers w (place ObjWifiTimer) = Some t \<and> t_active t) \<longrightarrow> wm_initialized (dm_wifi w))"

lemma booting_step: "booting place w \<Longrightarrow> off_net place w w' \<Longrightarrow> timers w' = timers w \<Longrightarrow> booting place w'"
  by (simp add: booting_def off_net_def net_view_def)

lemma booting_frame [simp]:
  "booting place (w\<lparr>sched := s\<rparr>) = booting place w" "booting place (w\<lparr>k_nvs := n\<rparr>) = booting place w"
  "booting place (w\<lparr>k_bootTimeMs := m\<rparr>) = booting place w" "booting place (w\<lparr>k_running := r\<rparr>) = booting place w"
  "booting place (w\<lparr>dm_boot := b\<rparr>) = booting place w"
  by (simp_all add: booting_def)

lemma network_init_booting:
  fixes w :: "('f, 'h) app_sys" and api :: "'h app_api"
  assumes "booting place w" and "\<And>d. we_esp32 (net_wifi api d)"
  shows "booting place (snd (m_init (wifi_imodule place api hs) w))" and "booting place (snd (m_init (mqtt_imodule api hs) w))"
proof -
  let ?n = "snd (wifi_init (net_wifi api (dm_dev w)) (net_stored api) (dm_wifi w))"
  have n: "wm_initialized ?n" "wm_connected ?n = wm_connected (dm_wifi w)" "wm_reconnectPending ?n = wm_reconnectPending (dm_wifi w)"
    "wm_eventPending ?n = wm_eventPending (dm_wifi w)" "wm_connects ?n = wm_connects (dm_wifi w)"
    using assms(2) by (simp_all add: wifi_init_def Let_def)
  obtain n' ts tm where w': "snd (m_init (wifi_imodule place api hs) w) = w\<lparr>dm_wifi := n', timers := ts, tmgr := tm\<rparr>" and "n' = ?n"
    by (rule wifi_init_changes)
  then show "booting place (snd (m_init (wifi_imodule place api hs) w))"
    using assms(1) n by (simp add: booting_def net_view_def net_ok_def fresh_net_def)
  show "booting place (snd (m_init (mqtt_imodule api hs) w))"
    using assms(1)
    by (auto simp: mqtt_init_module mqtt_init_def setBroker_def booting_def net_view_def net_ok_def fresh_net_def Let_def split: option.split)
qed

lemma net_boot:
  fixes other :: "('f, 'h) app_kenv"
  assumes "inj place" and "app_rest rank (ke_env other)" and "rest_off_net place (ke_env other)" and "\<And>d. we_esp32 (net_wifi api d)"
    and "booting place w"
  shows "booting place (snd (kernel_boot (app_kernel_env place api other) w))"
proof (rule kernel_boot_inv [where J = "booting place"])
  let ?ke = "app_kernel_env place api other" and ?hs = "app_handlers place api (e_handlers (ke_env other))"
  fix q and v :: "('f, 'h) app_sys"
  assume v: "booting place v"
  then have ok: "net_ok place v" by (simp add: booting_def)
  have "timers (snd (m_init (relay_imodule api ?hs) v)) = timers v"
    using stillD(1) [OF forward_frame(1) [OF assms(2)]] by (simp add: relay_imodule_def split: option.split prod.split)
  then have "booting place (snd (m_init (relay_imodule api ?hs) v))"
    using booting_step [OF v relay_off_net(2) [OF assms(3) ok]] by blast
  moreover have "booting place (snd (m_init (e_module (ke_env other) q) v))"
    using booting_step [OF v rest_off_netD(7) [OF assms(3)]] stillD(1) [OF app_restD(10) [OF assms(2)]] by blast
  ultimately show "booting place (snd (m_init (e_module (ke_env ?ke) q) v))"
    using network_init_booting [OF v assms(4)] by (simp add: app_kernel_env_def)
next
  let ?ke = "app_kernel_env place api other" and ?hs = "app_handlers place api (e_handlers (ke_env other))"
  fix v :: "('f, 'h) app_sys"
  assume v: "booting place v"
  have "booting place (publish ?hs e 0 0 v)" if "e \<noteq> event_code WiFiConnected" for e
  proof (rule booting_step [OF v publish_off_net [OF assms(3) _ that]])
    show "net_ok place v" using v by (simp add: booting_def)
    have "still v (publish ?hs e 0 0 v)" by (rule publish_inv) (use still_trans [OF _ handlers_still [OF assms(2)]] in simp_all)
    then show "timers (publish ?hs e 0 0 v) = timers v" by (rule stillD)
  qed
  then show "booting place (kernel_publish ?ke SystemBoot v) \<and> booting place (kernel_publish ?ke SystemReady v)"
    by (simp add: kernel_publish_def app_kernel_env_def)
qed (use assms(5) in simp_all)


section \<open>The takts\<close>

text \<open>The turn of WiFi while the devices are in state \<open>d\<close>: the scheduler leaves it out when it has no work.\<close>

definition net_turn :: "'h app_api \<Rightarrow> 'h dev_sys \<Rightarrow> wifi_module \<times> mqtt_module \<Rightarrow> wifi_module \<times> mqtt_module" where
  "net_turn api d v = (if wifi_hasWork (fst v) then net_poll api d v else v)"

text \<open>What holds between two takts; \<open>t\<close> is the timer of WiFi.\<close>

definition net_between :: "(app_object \<Rightarrow> ptr) \<Rightarrow> timer \<Rightarrow> ('f, 'h) app_sys \<Rightarrow> bool" where
  "net_between place t w \<longleftrightarrow> runs_at (place ObjWifi) 4 (sched w) \<and> taktPeriodMs (sched w) = 1 \<and> sys_ok w \<and> net_ok place w \<and>
     owns_callback w 2 (place ObjWifiTimer) t (place FnWifiTimeout)"

lemma net_takt:
  fixes other :: "('f, 'h) app_sys env" and place api
  defines "e \<equiv> app_env place api other"
  assumes "inj place" and "app_rest rank other" and "rest_off_net place other"
    and esp: "\<And>d. mqe_esp32 (net_mqtt api d)" "\<And>d. we_esp32 (net_wifi api d)" and "net_between place t w"
  shows "\<exists>w1 u. runTakt e w = Some w1 \<and> tick_state e 4 w = Some u \<and> taktPeriodMs (sched w1) = 1 \<and>
    net_between place (timer_advance 1 t) (e_delay e 1 w1) \<and>
    net_view (e_delay e 1 w1) = net_turn api (dm_dev u) (if timer_fires 1 t then net_timeout (net_view w) else net_view w)"
proof -
  have tv: "takt_view e rank (net_ok place) net_view (\<lambda>c v v'. v' = (if c = place FnWifiTimeout then net_timeout v else v)) (net_acts place api)"
    unfolding e_def by (rule net_takt_view [OF assms(2-6)])
  note q = takt_view.quiet_env [OF tv]
  have w: "runs_at (place ObjWifi) 4 (sched w)" "taktPeriodMs (sched w) = 1" "sys_ok w" "net_ok place w"
    "owns_callback w 2 (place ObjWifiTimer) t (place FnWifiTimeout)" using assms(7) by (simp_all add: net_between_def)
  have wf: "wf_sched (sched w)" "4 < moduleCount (sched w)" "me_module (modules (sched w) ! 4) = Some (place ObjWifi)"
    "me_active (modules (sched w) ! 4)" "ms_state (me_stats (modules (sched w) ! 4)) = Ready"
    using w(1) by (simp_all add: runs_at_def)
  obtain w1 where w1: "runTakt e w = Some w1" "sys_ok w1" using runTakt_defined [OF takt_view.tame_env [OF tv] w(3)] by blast
  note a = takt_view.takt_acts [OF tv wf(1) w(3,4) w1(1), unfolded w(2)] and tb = takt_view.takt_table [OF tv wf(1) w1(1)]
  obtain v x where v: "chained (\<lambda>c v v'. v' = (if c = place FnWifiTimeout then net_timeout v else v)) (fired 1 w) (net_view w) v"
    and u: "tick_state e 4 w = Some (on_entry 4 (set_state Running) (snd (e_nowUs e x)))"
    and x: "chained (net_acts place api) (live_upto 4 (sched w)) v (net_view x)" "net_ok place x" "modules (sched x) ! 4 = modules (sched w) ! 4"
    and rest: "chained (net_acts place api) (live_between 5 (moduleCount (sched w)) (sched w)) (net_view (run_entry e 4 x)) (net_view w1)"
    using takt_view.takt_turn [OF tv wf(1) w(3,4) w1(1) wf(2)] w(2) by auto
  let ?u = "on_entry 4 (set_state Running) (snd (e_nowUs e x))"
  have "v = fold (\<lambda>c v. if c = place FnWifiTimeout then net_timeout v else v) (fired 1 w) (net_view w)"
    by (rule chained_function [OF _ v])
  then have v: "v = (if timer_fires 1 t then net_timeout (net_view w) else net_view w)"
    by (simp add: fold_own count_fired [OF w(5)])
  have still: "q \<noteq> place ObjWifi \<Longrightarrow> net_acts place api q v v' \<Longrightarrow> v' = v" for q v v' by (simp add: net_acts_def)
  have xv: "net_view x = v" by (rule chained_still [OF x(1)]) (use runs_elsewhere(1) [OF w(1)] still in metis)
  have r: "net_view w1 = net_view (run_entry e 4 x)"
    by (rule chained_still [OF rest]) (use runs_elsewhere(2) [OF w(1)] still in \<open>metis eval_nat_numeral(3)\<close>)
  have m: "e_module e (place ObjWifi) = wifi_imodule place api (app_handlers place api (e_handlers other))"
    using inj_eq [OF assms(2)] by (simp add: e_def)
  have run: "shouldRunModule e (modules (sched x) ! 4) x \<longleftrightarrow> wifi_hasWork (fst v)"
    using wf(3-5) xv [symmetric] by (simp add: x(3) shouldRunModule_def m) (simp add: wifi_imodule_def net_view_def)
  note re = takt_view.run_entry_view [OF tv, of x 4 "place ObjWifi", unfolded x(3), OF wf(3) x(2)]
  have "net_view w1 = net_turn api (dm_dev ?u) v"
    using re wifi_polls(1) [OF assms(4) re(1) esp] run by (simp add: r net_turn_def m xv x(3))
  moreover have d: "timers (e_delay e 1 w1) = timers w1" "tmgr (e_delay e 1 w1) = tmgr w1"
    "net_view (e_delay e 1 w1) = net_view w1" "net_ok place (e_delay e 1 w1)"
    using takt_view.delay_aside [OF tv, of w1 1] a(2) by (simp_all add: undisturbed_def)
  moreover have "sched (e_delay e 1 w1) = sched w1" by (rule sched_quiet_simps(5) [OF q])
  moreover have "sys_ok (e_delay e 1 w1)"
    using w1(2) takt_view.tame_env [OF tv] by (simp add: sys_ok_def tame_def env_keeps_def)
  moreover have "owns_callback w1 2 (place ObjWifiTimer) (timer_advance 1 t) (place FnWifiTimeout)"
    using owns_callback_advance [OF w(5) _ a(3,4)] w(3) by (simp add: sys_ok_def safe_timers_def)
  then have "owns_callback (e_delay e 1 w1) 2 (place ObjWifiTimer) (timer_advance 1 t) (place FnWifiTimeout)"
    by (simp add: owns_callback_def d)
  ultimately show ?thesis
    using w1(1) u v runs_at_takt [OF q w(1) w1(1)] tb(3) w(2) by (simp add: net_between_def)
qed


subsection \<open>Looking for the access point\<close>

text \<open>A tick of a module that is not connected and was asked to connect.\<close>

lemma net_poll_searching:
  fixes api d
  assumes "\<And>d. we_esp32 (net_wifi api d)" and "wm_initialized n" and "wm_reconnectPending n" and "\<not> wm_connected n" and "\<not> wm_eventPending n"
  defines "found \<equiv> we_ap_info (net_wifi api d)"
  shows "net_poll api d (n, m) = (n\<lparr>wm_reconnectPending := False, wm_connected := found, wm_connects := Suc (wm_connects n)\<rparr>,
    if found then ask m else m)"
  using assms by (auto simp: net_poll_def wifi_tick_defs Let_def intro!: wifi_module.equality)

text \<open>
  \<open>searched look ap n\<close>: after \<open>n\<close> takts, when the module may look for the access point in the takts \<open>look\<close>, and it is there in
  the takts \<open>ap\<close>. Takts are counted from 0.
\<close>

definition searched :: "(nat \<Rightarrow> bool) \<Rightarrow> (nat \<Rightarrow> bool) \<Rightarrow> nat \<Rightarrow> wifi_module \<times> mqtt_module \<Rightarrow> bool" where
  "searched look ap n = (\<lambda>(w, m). (wm_connected w \<longleftrightarrow> (\<exists>j<n. look j \<and> ap j)) \<and>
     wm_connects w = card {j. j < n \<and> look j \<and> (\<forall>i<j. look i \<longrightarrow> \<not> ap i)} \<and>
     mq_asked m = (if wm_connected w \<and> mq_client m then [str ''takt/telemetry''] else []) \<and>
     wm_initialized w \<and> (wm_reconnectPending w \<longleftrightarrow> n = 0) \<and> \<not> wm_eventPending w)"

lemma searched_facts:
  assumes "searched look ap n (net_view w)"
  shows "(wm_connected (dm_wifi w) \<longleftrightarrow> (\<exists>j<n. look j \<and> ap j)) \<and>
    wm_connects (dm_wifi w) = card {j. j < n \<and> look j \<and> (\<forall>i<j. look i \<longrightarrow> \<not> ap i)} \<and>
    mq_asked (dm_mqtt w) = (if wm_connected (dm_wifi w) \<and> mq_client (dm_mqtt w) then [str ''takt/telemetry''] else [])"
  using assms by (simp add: searched_def net_view_def)

definition every5s :: "nat \<Rightarrow> bool" where
  "every5s j \<longleftrightarrow> j = 0 \<or> Suc j mod 5000 = 0"

lemma ask_simps [simp]: "mq_client (ask m) = mq_client m"
  by (simp add: ask_def)

lemma card_below_Suc: "card {j. j < Suc n \<and> P j} = card {j. j < n \<and> P j} + (if P n then 1 else 0)"
proof -
  have "{j. j < Suc n \<and> P j} = (if P n then insert n {j. j < n \<and> P j} else {j. j < n \<and> P j})"
    by (auto simp: less_Suc_eq)
  then show ?thesis by simp
qed

lemma ex_below_Suc: "(\<exists>j<Suc n. P j) \<longleftrightarrow> (\<exists>j<n. P j) \<or> P n"
  by (auto simp: less_Suc_eq)

lemma search_step:
  assumes "\<And>d. we_esp32 (net_wifi api d)" and "searched every5s ap n v" and "ap n = we_ap_info (net_wifi api d)"
  shows "searched every5s ap (Suc n) (net_turn api d (if Suc n mod 5000 = 0 then net_timeout v else v))"
proof -
  obtain w m where v: "v = (w, m)" by (cases v)
  note s = assms(2) [unfolded v searched_def prod.case]
  let ?v = "if Suc n mod 5000 = 0 then net_timeout v else v"
  show ?thesis
  proof (cases "every5s n \<and> \<not> wm_connected w")
    case True
    then have v': "?v = (w\<lparr>wm_reconnectPending := True\<rparr>, m)"
      using s by (auto simp: v net_timeout_def wifi_on_timeout_def every5s_def)
    have "net_turn api d ?v = (w\<lparr>wm_reconnectPending := False, wm_connected := ap n, wm_connects := Suc (wm_connects w)\<rparr>,
        if ap n then ask m else m)"
      using net_poll_searching [OF assms(1), of "w\<lparr>wm_reconnectPending := True\<rparr>" d m] s True assms(3)
      unfolding v' by (auto simp: net_turn_def wifi_hasWork_def intro!: wifi_module.equality)
    moreover have "\<forall>i<n. every5s i \<longrightarrow> \<not> ap i" using s True by blast
    ultimately show ?thesis using s True by (simp add: searched_def card_below_Suc ex_below_Suc ask_def)
  next
    case False
    then have "?v = v" using s by (auto simp: v net_timeout_def wifi_on_timeout_def every5s_def)
    moreover have "\<not> wifi_hasWork w" using s False by (auto simp: wifi_hasWork_def every5s_def)
    ultimately have "net_turn api d ?v = v" by (simp add: net_turn_def v)
    moreover have "\<not> (every5s n \<and> (\<forall>i<n. every5s i \<longrightarrow> \<not> ap i))" and "n \<noteq> 0" using s False by (auto simp: every5s_def)
    ultimately show ?thesis using s False by (auto simp: searched_def card_below_Suc ex_below_Suc v)
  qed
qed

lemma net_takts:
  fixes other :: "('f, 'h) app_sys env" and place api w
  defines "e \<equiv> app_env place api other"
  defines "ap \<equiv> \<lambda>j. we_ap_info (net_wifi api (dm_dev (the (tick_state e 4 (the (run_takts e j w))))))"
  assumes "inj place" and "app_rest rank other" and "rest_off_net place other"
    and esp: "\<And>d. mqe_esp32 (net_mqtt api d)" "\<And>d. we_esp32 (net_wifi api d)"
    and "net_between place t w" and "intervalMs t = 5000" and "elapsedMs t = 0" and "t_active t" and "t_repeat t"
    and "searched every5s ap 0 (net_view w)"
  shows "\<exists>w' u. run_takts e n w = Some w' \<and> tick_state e 4 w' = Some u \<and>
    net_between place (t\<lparr>elapsedMs := of_nat (n mod 5000)\<rparr>) w' \<and> searched every5s ap n (net_view w')"
proof (induction n)
  case 0
  have "t\<lparr>elapsedMs := 0\<rparr> = t" using assms(10) by (metis timer.surjective timer.update_convs(3))
  then show ?case using net_takt [OF assms(3-8)] assms(8,13) by (auto simp: e_def)
next
  case (Suc n)
  let ?t = "t\<lparr>elapsedMs := of_nat (n mod 5000)\<rparr>"
  obtain w1 u where w1: "run_takts e n w = Some w1" "tick_state e 4 w1 = Some u" "net_between place ?t w1"
    "searched every5s ap n (net_view w1)" using Suc by blast
  obtain w2 where w2: "runTakt e w1 = Some w2" "taktPeriodMs (sched w2) = 1"
    "net_between place (timer_advance 1 ?t) (e_delay e 1 w2)"
    "net_view (e_delay e 1 w2) = net_turn api (dm_dev u) (if timer_fires 1 ?t then net_timeout (net_view w1) else net_view w1)"
    using net_takt [OF assms(3-7) w1(3)] w1(2) by (auto simp: e_def)
  have t: "timer_fires 1 ?t \<longleftrightarrow> Suc n mod 5000 = 0" "timer_advance 1 ?t = t\<lparr>elapsedMs := of_nat (Suc n mod 5000)\<rparr>"
    using timer_millisecond [of ?t 5000 "n mod 5000"] assms(9-12) by (simp_all add: mod_Suc)
  have "ap n = we_ap_info (net_wifi api (dm_dev u))" by (simp add: ap_def w1(1,2))
  then have "searched every5s ap (Suc n) (net_view (e_delay e 1 w2))"
    using search_step [OF esp(2) w1(4)] by (simp add: w2(4) t(1))
  moreover have "run_takts e (Suc n) w = Some (e_delay e 1 w2)" unfolding run_takts_Suc_end by (simp add: w1(1) w2(1,2))
  moreover have b: "net_between place (t\<lparr>elapsedMs := of_nat (Suc n mod 5000)\<rparr>) (e_delay e 1 w2)" using w2(3) by (simp only: t(2))
  moreover obtain u' where "tick_state e 4 (e_delay e 1 w2) = Some u'"
    using net_takt [OF assms(3-7) b] by (auto simp: e_def)
  ultimately show ?case by blast
qed


section \<open>Properties\<close>

text \<open>
  C5: The demo application joins the network. Its boot succeeds and every takt returns. WiFi looks for the access point
  in the first takt and then in every 5000th, as long as it has not found it, and asks the driver to connect each time; as soon as one of
  these ticks sees the access point, in the state in which the takt has brought the devices when it is called, the module counts as
  connected, and from then on it never looks again. The MQTT client is asked for the subscription exactly
  once, at that moment, if it exists; what it answers has no effect.
\<close>
theorem demo_joins_network:
  assumes "inj place" and "app_rest rank (ke_env other)" and "rest_off_net place (ke_env other)"
    and "\<And>d. mqe_esp32 (net_mqtt api d)" and "\<And>d. we_esp32 (net_wifi api d)"
  shows "\<exists>w. app_boot place (app_kernel_env place api other) af (app_reset tel_pool b d) = Some (True, w) \<and>
    (let e = ke_env (app_kernel_env place api other);
         looks = (\<lambda>j. j = 0 \<or> Suc j mod 5000 = 0);
         there = (\<lambda>j. we_ap_info (net_wifi api (dm_dev (the (tick_state e 4 (the (run_takts e j w)))))))
     in \<forall>n. \<exists>w' u. run_takts e n w = Some w' \<and> tick_state e 4 w' = Some u \<and>
       (wm_connected (dm_wifi w') \<longleftrightarrow> (\<exists>j<n. looks j \<and> there j)) \<and>
       wm_connects (dm_wifi w') = card {j. j < n \<and> looks j \<and> (\<forall>i<j. looks i \<longrightarrow> \<not> there i)} \<and>
       mq_asked (dm_mqtt w') = (if wm_connected (dm_wifi w') \<and> mq_client (dm_mqtt w') then [str ''takt/telemetry''] else []))"
proof -
  let ?ke = "app_kernel_env place api other"
  define w1 where "w1 = app_timers place (app_configure place (app_reset tel_pool (app_platform af b) d))"
  obtain w2 w where w2: "kernel_boot ?ke w1 = (True, w2)" and w: "w = w2\<lparr>dm_boot := markBootSuccessful (dm_boot w2)\<rparr>"
    and boot: "app_boot place ?ke af (app_reset tel_pool b d) = Some (True, w)" and ok: "sys_ok w" "taktPeriodMs (sched w) = 1"
    and runs: "runs_at (place ObjWifi) 4 (sched w)"
    and own: "owns_callback w 2 (place ObjWifiTimer) (running_timer 5000 (place FnWifiTimeout) 2) (place FnWifiTimeout)"
    by (rule app_booted [OF assms(1,2), where api = api and af = af and tel_pool = tel_pool and b = b and d = d, folded w1_def]) (rule that)
  have "net_view w1 = (new_wifi, new_mqtt)"
    by (simp add: w1_def app_timers_def app_configure_def app_reset_def timer_construct_def net_view_def Let_def)
  moreover have "wifi_timer_waits place w1" unfolding w1_def by (rule app_wifi_timer_waits [OF assms(1)])
  then have "timers w1 (place ObjWifiTimer) = Some (new_timer 5000 True)" by (simp add: wifi_timer_waits_def)
  ultimately have "booting place w1"
    using app_listeners(1) [OF assms(1), of tel_pool "app_platform af b" d]
    by (simp add: booting_def net_ok_def fresh_net_def w1_def net_view_def new_wifi_def new_mqtt_def new_timer_def)
  from net_boot [OF assms(1-3,5) this] have "booting place w" using w2 by (simp add: w)
  then have v: "net_ok place w" "fresh_net (net_view w)" "wm_initialized (fst (net_view w))"
    using own by (auto simp: booting_def net_view_def owns_callback_def running_timer_def)
  then have v0: "searched every5s ap 0 (net_view w)" for ap by (auto simp: searched_def fresh_net_def)
  let ?e = "app_env place api (ke_env other)"
  let ?there = "\<lambda>j. we_ap_info (net_wifi api (dm_dev (the (tick_state ?e 4 (the (run_takts ?e j w))))))"
  have "net_between place (running_timer 5000 (place FnWifiTimeout) 2) w"
    using runs ok v(1) own by (simp add: net_between_def)
  note nt = net_takts [OF assms(1-5) this _ _ _ _ v0]
  have all: "\<exists>w' u. run_takts ?e n w = Some w' \<and> tick_state ?e 4 w' = Some u \<and> searched every5s ?there n (net_view w')" for n
    using nt [of n] unfolding running_timer_def timer.simps by blast
  have main: "\<exists>w' u. run_takts ?e n w = Some w' \<and> tick_state ?e 4 w' = Some u \<and>
      (wm_connected (dm_wifi w') \<longleftrightarrow> (\<exists>j<n. every5s j \<and> ?there j)) \<and>
      wm_connects (dm_wifi w') = card {j. j < n \<and> every5s j \<and> (\<forall>i<j. every5s i \<longrightarrow> \<not> ?there i)} \<and>
      mq_asked (dm_mqtt w') = (if wm_connected (dm_wifi w') \<and> mq_client (dm_mqtt w') then [str ''takt/telemetry''] else [])" for n
  proof -
    obtain w' u where o: "run_takts ?e n w = Some w'" "tick_state ?e 4 w' = Some u" "searched every5s ?there n (net_view w')"
      using all [of n] by (elim exE conjE)
    show ?thesis
      by (rule exI [of _ w'], rule exI [of _ u], rule conjI, rule o(1), rule conjI, rule o(2), rule searched_facts [OF o(3)])
  qed
  have ke: "ke_env ?ke = ?e" by (simp add: app_kernel_env_def)
  show ?thesis
    unfolding Let_def ke by (rule exI [of _ w], rule conjI, rule boot, rule allI, rule main [unfolded every5s_def])
qed

theorem demo_joins_network_witness:
  "\<exists>w w'. app_boot app_place (app_kernel_env app_place demo_api idle_kernel) bare_flash (app_reset (\<lambda>_. 0) demo_boot demo_dev) = Some (True, w) \<and>
    run_takts (ke_env (app_kernel_env app_place demo_api idle_kernel)) 20000 w = Some w' \<and> wm_connected (dm_wifi w') \<and>
    wm_connects (dm_wifi w') = 1"
proof -
  have i: "inj app_place" by (rule injI) (simp add: app_place_def split: app_object.splits)
  have r: "app_rest (\<lambda>_. 0) (ke_env idle_kernel)" by (simp add: idle_kernel_def app_rest_idle)
  have o: "rest_off_net app_place (ke_env idle_kernel)" by (simp add: idle_kernel_def rest_off_net_def idle_env_def)
  have e: "mqe_esp32 (net_mqtt demo_api d)" "we_esp32 (net_wifi demo_api d)" "we_ap_info (net_wifi demo_api d)" for d
    by (simp_all add: demo_api_def driver_api.defs app_api.defs ap_env_def online_env_def)
  have "{j. j < 20000 \<and> (j = 0 \<or> Suc j mod 5000 = 0) \<and> (\<forall>i<j. \<not> (i = 0 \<or> Suc i mod 5000 = 0))} = {0}" by force
  then have c: "card {j. j < 20000 \<and> (j = 0 \<or> Suc j mod 5000 = 0) \<and> (\<forall>i<j. \<not> (i = 0 \<or> Suc i mod 5000 = 0))} = 1" by simp
  have x: "\<exists>j<20000. j = 0 \<or> Suc j mod 5000 = 0" by (rule exI [of _ 0]) simp
  have "\<exists>w. app_boot app_place (app_kernel_env app_place demo_api idle_kernel) bare_flash (app_reset (\<lambda>_. 0) demo_boot demo_dev) = Some (True, w) \<and>
    (\<forall>n. \<exists>w' u. run_takts (ke_env (app_kernel_env app_place demo_api idle_kernel)) n w = Some w' \<and>
      tick_state (ke_env (app_kernel_env app_place demo_api idle_kernel)) 4 w' = Some u \<and>
      (wm_connected (dm_wifi w') \<longleftrightarrow> (\<exists>j<n. j = 0 \<or> Suc j mod 5000 = 0)) \<and>
      wm_connects (dm_wifi w') = card {j. j < n \<and> (j = 0 \<or> Suc j mod 5000 = 0) \<and> (\<forall>i<j. \<not> (i = 0 \<or> Suc i mod 5000 = 0))} \<and>
      mq_asked (dm_mqtt w') = (if wm_connected (dm_wifi w') \<and> mq_client (dm_mqtt w') then [str ''takt/telemetry''] else []))"
    using demo_joins_network [OF i r o e(1,2), of bare_flash "\<lambda>_. 0" demo_boot demo_dev]
    by (simp only: Let_def e(3) simp_thms)
  then obtain w where boot: "app_boot app_place (app_kernel_env app_place demo_api idle_kernel) bare_flash (app_reset (\<lambda>_. 0) demo_boot demo_dev) = Some (True, w)"
    and takts: "\<forall>n. \<exists>w' u. run_takts (ke_env (app_kernel_env app_place demo_api idle_kernel)) n w = Some w' \<and>
      tick_state (ke_env (app_kernel_env app_place demo_api idle_kernel)) 4 w' = Some u \<and>
      (wm_connected (dm_wifi w') \<longleftrightarrow> (\<exists>j<n. j = 0 \<or> Suc j mod 5000 = 0)) \<and>
      wm_connects (dm_wifi w') = card {j. j < n \<and> (j = 0 \<or> Suc j mod 5000 = 0) \<and> (\<forall>i<j. \<not> (i = 0 \<or> Suc i mod 5000 = 0))} \<and>
      mq_asked (dm_mqtt w') = (if wm_connected (dm_wifi w') \<and> mq_client (dm_mqtt w') then [str ''takt/telemetry''] else [])"
    by (elim exE conjE)
  from spec [OF takts, of 20000] obtain w' where w: "run_takts (ke_env (app_kernel_env app_place demo_api idle_kernel)) 20000 w = Some w'"
    "wm_connected (dm_wifi w') \<longleftrightarrow> (\<exists>j<20000. j = 0 \<or> Suc j mod 5000 = 0)"
    "wm_connects (dm_wifi w') = card {j. j < 20000 \<and> (j = 0 \<or> Suc j mod 5000 = 0) \<and> (\<forall>i<j. \<not> (i = 0 \<or> Suc i mod 5000 = 0))}"
    by (elim exE conjE)
  have "wm_connected (dm_wifi w')" "wm_connects (dm_wifi w') = 1" by (simp_all only: w(2,3) x c)
  then show ?thesis using boot w(1) by (intro exI [of _ w] exI [of _ w'] conjI)
qed

end
