(* ===== verification/Device_Life.thy ===== *)
theory Device_Life
  imports Applications
begin

text \<open>
  The device over its resets: the boot loader (\<open>takt_boot/src/bootloader.cpp\<close>), the demo application
  (\<open>examples/demo_controller/main/main.cpp\<close>) and the update service share the boot configuration in
  the memory that survives a reset. ESP32 build: an image is valid when the vendor finds its description.

  What ties them together is not code of the repository, and is a parameter here. That a reset runs
  \<open>Bootloader::entry\<close> is what its header and \<open>docs/bootloader.md\<close> say; no program of the repository calls it. Which
  program runs when \<open>entry\<close> has set a boot partition and restarted the chip is decided by the vendor's first boot
  loader: \<open>runs_app d\<close> says that on the device \<open>d\<close> this is the demo application. Nothing relates the partition that
  \<open>jumpToFirmware\<close> picks to the image that was validated or to the slot an update asked for.
\<close>


section \<open>A reset\<close>

text \<open>The flash and the boot configuration survive; the statics are initialized again.\<close>

definition after_reset :: "'f boot_sys \<Rightarrow> 'f boot_sys" where
  "after_reset b = \<lparr>backend = no_backend, regions = replicate kMaxRegions new_region, regionCount = 0,
     device = device b, fw = new_fw_cache, bootConfig = bootConfig b\<rparr>"

text \<open>
  From one reset to the next: the boot loader; then, if it restarted the chip into the application, \<open>main\<close>, and
  \<open>k\<close> takts if its boot succeeds. The result tells what the boot loader called and how that ended;
  after any other end than a restart into the application the device waits for the next reset. (The
  application's key-value store is that of the host build, which starts empty: nothing is lost by erasing it.)
\<close>

definition power_cycle ::
  "(app_object \<Rightarrow> ptr) \<Rightarrow> ('f, 'h) app_kenv \<Rightarrow> 'f app_flash \<Rightarrow> memory \<Rightarrow> 'h dev_sys \<Rightarrow> 'f boot_vendor \<Rightarrow> ('f \<Rightarrow> bool) \<Rightarrow>
   boot_env \<Rightarrow> nat \<Rightarrow> 'f boot_sys \<Rightarrow> ((boot_outcome \<times> boot_end) \<times> 'f boot_sys) option" where
  "power_cycle place ke af tel_pool d vendor runs_app benv k b =
     (let (out, e, b1, nvs) = bootloader_entry benv (Some vendor) nvs_eraseAll (after_reset b) new_nvs_host in
      if e = Rebooted \<and> runs_app (device b1)
      then do { (ok, w) \<leftarrow> app_boot place ke af (app_reset tel_pool (after_reset b1) d);
                w1 \<leftarrow> (if ok then run_takts (ke_env ke) k w else Some w);
                Some ((out, e), dm_boot w1) }
      else Some ((out, e), b1))"

primrec life ::
  "(app_object \<Rightarrow> ptr) \<Rightarrow> ('f, 'h) app_kenv \<Rightarrow> 'f app_flash \<Rightarrow> memory \<Rightarrow> 'h dev_sys \<Rightarrow> 'f boot_vendor \<Rightarrow> ('f \<Rightarrow> bool) \<Rightarrow>
   boot_env \<Rightarrow> nat list \<Rightarrow> 'f boot_sys \<Rightarrow> ((boot_outcome \<times> boot_end) list \<times> 'f boot_sys) option" where
  "life place ke af tel_pool d vendor runs_app benv [] b = Some ([], b)"
| "life place ke af tel_pool d vendor runs_app benv (k # ks) b =
     do { (out, b1) \<leftarrow> power_cycle place ke af tel_pool d vendor runs_app benv k b;
          (outs, b2) \<leftarrow> life place ke af tel_pool d vendor runs_app benv ks b1;
          Some (out # outs, b2) }"


section \<open>The boot configuration\<close>

lemma load_cong: "bootConfig s' = bootConfig s \<Longrightarrow> loadBootConfig s' = loadBootConfig s"
  by (simp add: loadBootConfig_def)

lemma after_reset_config [simp]: "bootConfig (after_reset b) = bootConfig b" "loadBootConfig (after_reset b) = loadBootConfig b"
  by (simp_all add: after_reset_def loadBootConfig_def)

lemma platform_config [simp]: "bootConfig (app_platform af b) = bootConfig b"
  by (simp add: app_platform_def platform_init_def initStorageFromPartition_def storage_init_def fw_init_def Let_def
      split: prod.split option.split)

text \<open>The outcome of a reset when the vendor finds an image and nobody holds the button.\<close>

lemma entry_outcome:
  assumes "\<not> gpio0_low benv" and "esp_image_valid benv = Some v" and "v 0 \<or> v 1"
    and "bc_mode (snd (loadBootConfig s)) \<noteq> boot_mode_code FactoryReset"
  shows "fst (boot_entry benv s) = (if 3 < bc_bootCount (snd (loadBootConfig s)) + 1 then EnterRecovery else JumpToFirmware 0)"
  using assms by (auto simp: boot_entry_def Let_def determineBootMode_def load_save validateFirmware_def)

text \<open>The rest of the application does not touch the configuration.\<close>

definition config :: "('f, 'h) app_sys \<Rightarrow> boot_config" where
  "config w = bootConfig (dm_boot w)"

definition keeps_config :: "('f, 'h) app_sys env \<Rightarrow> bool" where
  "keeps_config other \<longleftrightarrow>
     (\<forall>c d u w. config (e_handlers other c d u w) = config w) \<and> (\<forall>c w. config (e_timerCallbacks other c w) = config w) \<and>
     (\<forall>w. config (snd (e_nowUs other w)) = config w \<and> config (e_wdtReset other w) = config w) \<and>
     (\<forall>n w. config (e_delay other n w) = config w) \<and>
     (\<forall>q w. config (m_tick (e_module other q) w) = config w \<and> config (snd (m_init (e_module other q) w)) = config w)"

lemma keeps_configD:
  assumes "keeps_config other"
  shows "config (e_handlers other c d u w) = config w" "config (e_timerCallbacks other c w) = config w"
    "config (snd (e_nowUs other w)) = config w" "config (e_wdtReset other w) = config w" "config (e_delay other n w) = config w"
    "config (m_tick (e_module other q) w) = config w" "config (snd (m_init (e_module other q) w)) = config w"
  using assms unfolding keeps_config_def by blast+

lemma config_frame [simp]:
  "config (w\<lparr>sched := s\<rparr>) = config w" "config (w\<lparr>timers := ts\<rparr>) = config w" "config (w\<lparr>bus := b\<rparr>) = config w"
  "config (w\<lparr>dm_dev := d\<rparr>) = config w" "config (w\<lparr>dm_relay := r\<rparr>) = config w" "config (w\<lparr>dm_telemetry := t\<rparr>) = config w"
  "config (w\<lparr>k_running := k\<rparr>) = config w" "config (w\<lparr>k_nvs := v\<rparr>) = config w" "config (w\<lparr>k_bootTimeMs := m\<rparr>) = config w"
  "config (w\<lparr>tmgr := tm\<rparr>) = config w" "config (w\<lparr>dm_wifi := wn\<rparr>) = config w" "config (w\<lparr>dm_mqtt := mq\<rparr>) = config w"
  "config (toggle_relay w) = config w" "config (on_wifi_connected api w) = config w"
  by (simp_all add: config_def toggle_relay_def on_wifi_connected_def Let_def)

lemma config_handlers:
  assumes "keeps_config other"
  shows "config (app_handlers place api (e_handlers other) c d u w) = config w"
  using keeps_configD(1) [OF assms] by (simp add: app_handlers_def on_sensor_data_def)

lemma config_events:
  assumes "keeps_config other"
  shows "config (publish (app_handlers place api (e_handlers other)) e a b w) = config w"
    and "config (forward (app_handlers place api (e_handlers other)) d w) = config w"
  by (rule publish_inv [where I = "\<lambda>v. config v = config w"] forward_inv [where I = "\<lambda>v. config v = config w"],
      simp_all add: config_handlers [OF assms])+

lemma config_modules:
  fixes other :: "('f, 'h) app_sys env" and api :: "'h app_api" and place :: "app_object \<Rightarrow> ptr"
  assumes "keeps_config other"
  shows "config (m_tick (e_module (app_env place api other) q) w) = config w"
    and "config (snd (m_init (e_module (app_env place api other) q) w)) = config w"
proof -
  let ?hs = "app_handlers place api (e_handlers other)"
  note f = config_events(2) [OF assms, of place api] and k = keeps_configD(6,7) [OF assms]
  have "config (m_tick (relay_imodule api ?hs) w) = config w" "config (m_tick (wifi_imodule place api ?hs) w) = config w"
    "config (m_tick (mqtt_imodule api ?hs) w) = config w"
    by (simp_all add: relay_imodule_def wifi_imodule_def mqtt_imodule_def f split: prod.split)
  then show "config (m_tick (e_module (app_env place api other) q) w) = config w" using k by simp
  have "config (snd (m_init (wifi_imodule place api ?hs) w)) = config w"
    by (rule wifi_init_changes [of place api ?hs w]) simp
  moreover have "config (snd (m_init (relay_imodule api ?hs) w)) = config w"
    by (simp add: relay_imodule_def f split: prod.split option.split)
  ultimately show "config (snd (m_init (e_module (app_env place api other) q) w)) = config w"
    using k by (simp add: mqtt_init_module)
qed

lemma config_takt_view:
  assumes "app_rest rank other" and "keeps_config other"
  shows "takt_view (app_env place api other) rank (\<lambda>w. True) config (\<lambda>c v v'. v' = v) (\<lambda>q v v'. v' = v)"
proof
  let ?e = "app_env place api other" and ?U = "undisturbed (\<lambda>w. True) config"
  note c = keeps_configD [OF assms(2)] and r = app_restD [OF assms(1)]
  have U: "?U w w'" if "still w w'" "config w' = config w" for w w'
    using that by (simp add: undisturbed_def still_def)
  show "tame rank ?e" "sched_quiet ?e" by (rule app_tame [OF assms(1)] app_sched_quiet [OF assms(1)])+
  show "quiet_callbacks (e_timerCallbacks ?e)" using callbacks_quiet [OF assms(1)] by simp
  show "reacts_by (\<lambda>w. True) config (\<lambda>c v v'. v' = v) (e_timerCallbacks ?e)"
    using c(2) by (simp add: reacts_by_def app_callbacks_def)
  show "?U w (snd (e_nowUs ?e w))" "?U w (e_wdtReset ?e w)" "?U w (e_delay ?e n w)" for w n
    using r(5-7) c(3-5) by (simp_all add: U)
  have h: "?U w (e_handlers ?e c d u w)" for c d u w
    using handlers_still [OF assms(1)] config_handlers [OF assms(2)] by (simp add: U)
  show "?U w (publish (e_handlers ?e) (event_code TaktOverrun) p1 p2 w)" for w p1 p2
    by (rule publish_inv [where I = "?U w"]) (use undisturbed_trans [OF _ h] in simp_all)
  show "?U w w'" if "dispatchQueued (e_handlers ?e) w = Some w'" for w w'
    by (rule dispatchQueued_inv [where I = "?U w", OF _ _ that])
      (use undisturbed_trans [OF _ h] in \<open>auto simp: undisturbed_def\<close>)
  show "timers (m_tick (e_module ?e q) w) = timers w" "tmgr (m_tick (e_module ?e q) w) = tmgr w" for q w
    using relay_tick_module(1,2) [OF assms(1)] stillD [OF r(8)] stillD [OF wifi_tick_module(1) [OF assms(1)]]
      stillD [OF mqtt_tick_module(1) [OF assms(1)]] by simp_all
  show "config (m_tick (e_module ?e q) w) = config w \<and> True" for q w
    using config_modules(1) [OF assms(2)] by simp
qed simp_all


section \<open>A start that succeeds\<close>

lemma config_boot:
  assumes "keeps_config (ke_env other)"
  shows "config (snd (kernel_boot (app_kernel_env place api other) w)) = config w"
  by (rule kernel_boot_inv [where J = "\<lambda>v. config v = config w"])
    (use config_modules(2) [OF assms] config_events(1) [OF assms] in
      \<open>simp_all add: kernel_publish_def app_kernel_env_def del: app_env_simps(3)\<close>)

lemma chained_same: "chained (\<lambda>q v v'. v' = v) ps = (\<lambda>v v'. v' = v)"
  by (induction ps) (auto simp: fun_eq_iff)

lemma relpow_same: "((\<lambda>v v'. v' = v) ^^ n) v v' \<longleftrightarrow> v' = v"
  by (induction n arbitrary: v') auto

lemma healthy_cycle:
  fixes other :: "('f, 'h) app_kenv"
  assumes "inj place" and "app_rest rank (ke_env other)" and "keeps_config (ke_env other)"
    and "\<not> gpio0_low benv" and "esp_image_valid benv = Some v" and "v 0 \<or> v 1"
    and "\<forall>d. \<exists>part. jump_target vendor d = Some part \<and> runs_app (snd (set_boot (bv_ota vendor) part d))"
    and "bc_mode (snd (loadBootConfig b)) \<noteq> boot_mode_code FactoryReset" and "bc_bootCount (snd (loadBootConfig b)) < 3"
  shows "\<exists>b'. power_cycle place (app_kernel_env place api other) af tel_pool d vendor runs_app benv k b =
      Some ((JumpToFirmware 0, Rebooted), b') \<and>
    bc_bootCount (snd (loadBootConfig b')) = 0 \<and> bc_mode (snd (loadBootConfig b')) = boot_mode_code Normal"
proof -
  let ?ke = "app_kernel_env place api other"
  have "\<not> 3 < bc_bootCount (snd (loadBootConfig b)) + 1"
    using assms(9) by (simp add: word_less_nat_alt unat_word_ariths)
  then have j: "fst (boot_entry benv (after_reset b)) = JumpToFirmware 0"
    using entry_outcome [OF assms(4-6), of "after_reset b"] assms(8) by simp
  obtain out e b1 nvs where b1: "bootloader_entry benv (Some vendor) nvs_eraseAll (after_reset b) new_nvs_host = (out, e, b1, nvs)"
    by (metis prod_cases4)
  have out: "out = JumpToFirmware 0" using bootloader_entry_parts(1) [OF b1] j by simp
  have e: "e = Rebooted" "runs_app (device b1)"
    using bootloader_entry_parts(2) [OF b1] spec [OF assms(7), of "device (snd (boot_entry benv (after_reset b)))"]
    by (auto simp: out jumpToFirmware_def restart_into_def)
  obtain w2 w where w: "w = w2\<lparr>dm_boot := markBootSuccessful (dm_boot w2)\<rparr>"
    and boot: "app_boot place ?ke af (app_reset tel_pool (after_reset b1) d) = Some (True, w)"
    and ok: "sys_ok w" "runs_at (place ObjRelay) 2 (sched w)"
    by (rule app_booted [OF assms(1,2), where api = api and af = af and tel_pool = tel_pool and b = "after_reset b1" and d = d]) blast
  have "wf_sched (sched w)" using ok(2) by (simp add: runs_at_def)
  then obtain w' where run: "run_takts (ke_env ?ke) k w = Some w'" and c: "config w' = config w"
    using takt_view.takts_act [OF config_takt_view [OF assms(2,3), of place api] _ _ ok(1) TrueI refl, of k]
    by (auto simp: chained_same relpow_same app_kernel_env_def)
  have "loadBootConfig (dm_boot w') = loadBootConfig (markBootSuccessful (dm_boot w2))"
    using c by (intro load_cong) (simp add: config_def w)
  then show ?thesis using b1 boot run by (simp add: power_cycle_def out e load_mark)
qed


section \<open>A start that fails\<close>

lemma init_false_stays: "fst (fold (init_entry env) is (False, w)) = False"
proof (induction "is" arbitrary: w)
  case (Cons i "is")
  have "fst (init_entry env i (False, w)) = False"
    by (auto simp: init_entry_def Let_def split: option.split prod.split)
  then obtain w1 where "init_entry env i (False, w) = (False, w1)" by (cases "init_entry env i (False, w)") simp
  then show ?case using Cons by simp
qed simp

lemma initAll_fails:
  assumes "sched_quiet env" and "wf_sched (sched w)" and "i < moduleCount (sched w)"
    and "me_active (modules (sched w) ! i)" and "me_module (modules (sched w) ! i) = Some p"
    and "\<And>w. \<not> fst (m_init (e_module env p) w)"
  shows "\<not> fst (initAll env w)"
proof -
  obtain ok w1 where w1: "fold (init_entry env) [0..<i] (True, w) = (ok, w1)" by fastforce
  have e: "modules (sched w1) ! i = modules (sched w) ! i"
    using init_entries [OF assms(1,2) _ w1] assms(3) by simp
  have "fst (init_entry env i (ok, w1)) = False"
    using assms(4-6) e by (auto simp: init_entry_def Let_def split: prod.split) (metis fst_conv)
  then obtain w2 where "init_entry env i (ok, w1) = (False, w2)" by (metis prod.collapse)
  then have "initAll env w = fold (init_entry env) [Suc i..<moduleCount (sched w)] (False, w2)"
    using w1 by (simp add: initAll_fold [OF assms(1,2)] upt_split_at [OF assms(3)])
  then show ?thesis by (simp add: init_false_stays)
qed

lemma kernel_boot_fails:
  assumes "\<And>v. sched v = sched w \<Longrightarrow> \<not> fst (initAll (ke_env ke) v)" and "\<And>e v. sched (kernel_publish ke e v) = sched v"
  shows "\<not> fst (kernel_boot ke w)"
proof -
  obtain ok n where n: "nvs_init (str ''takt'') (k_nvs w) = (ok, n)" by fastforce
  define w3 where "w3 = kernel_publish ke SystemBoot (w\<lparr>k_bootTimeMs := ke_nowMs ke w, k_nvs := if ok then snd (nvs_backup n) else n\<rparr>)"
  have "\<not> fst (initAll (ke_env ke) w3)" by (rule assms(1)) (simp add: w3_def assms(2))
  then obtain w4 where "initAll (ke_env ke) w3 = (False, w4)" by (cases "initAll (ke_env ke) w3") simp
  then show ?thesis using n by (simp add: kernel_boot_def Let_def w3_def)
qed

lemma failing_boot:
  fixes other :: "('f, 'h) app_kenv"
  assumes "inj place" and "sched_quiet (app_env place api (ke_env other))" and "keeps_config (ke_env other)"
    and "bad \<in> set app_modules" and "bad \<notin> {ObjRelay, ObjWifi, ObjMqtt}" and "\<And>w. \<not> fst (m_init (e_module (ke_env other) (place bad)) w)"
  shows "\<exists>w. app_boot place (app_kernel_env place api other) af (app_reset tel_pool b d) = Some (False, w) \<and>
    loadBootConfig (dm_boot w) = loadBootConfig b"
proof -
  let ?ke = "app_kernel_env place api other" and ?env = "app_env place api (ke_env other)"
  define w1 where "w1 = app_timers place (app_configure place (app_reset tel_pool (app_platform af b) d))"
  note f = app_setup_facts [OF assms(1), where tel_pool = tel_pool and b = "app_platform af b" and d = d, folded w1_def]
  have s: "app_setup place (app_reset tel_pool (app_platform af b) d) = Some w1" by (simp add: w1_def app_setup_effect)
  have "length app_modules = 12" by (simp add: app_modules_def)
  then obtain i where i: "i < 12" "app_modules ! i = bad" using assms(4) unfolding in_set_conv_nth by metis
  have p: "place bad \<noteq> place ObjRelay" "place bad \<noteq> place ObjWifi" "place bad \<noteq> place ObjMqtt" using inj_eq [OF assms(1)] assms(5) by simp_all
  have e: "ke_env ?ke = ?env" by (simp add: app_kernel_env_def)
  have pub: "sched (kernel_publish ?ke e v) = sched v" for e v
    using sched_publish [OF assms(2)] by (simp add: kernel_publish_def app_kernel_env_def)
  obtain ok w2 where w2: "kernel_boot ?ke w1 = (ok, w2)" by fastforce
  have "\<not> fst (kernel_boot ?ke w1)"
  proof (rule kernel_boot_fails)
    show "\<not> fst (initAll (ke_env ?ke) v)" if "sched v = sched w1" for v
      unfolding e
      by (rule initAll_fails [OF assms(2), where i = i and p = "place bad"])
        (use f(4,5,7) i p assms(6) in \<open>simp_all add: that registered_entry_def\<close>)
  qed (rule pub)
  then have "\<not> ok" using w2 by simp
  moreover have "config w2 = config w1" using config_boot [OF assms(3), of place api w1] w2 by simp
  then have "bootConfig (dm_boot w2) = bootConfig b"
    by (simp add: config_def w1_def app_timers_def app_configure_def app_reset_def timer_construct_def Let_def)
  ultimately show ?thesis
    using s w2 load_cong by (intro exI [of _ w2]) (simp add: app_boot_def app_reset_def)
qed


lemma failing_cycle:
  fixes other :: "('f, 'h) app_kenv"
  assumes "inj place" and "sched_quiet (app_env place api (ke_env other))" and "keeps_config (ke_env other)"
    and "bad \<in> set app_modules" and "bad \<notin> {ObjRelay, ObjWifi, ObjMqtt}" and "\<And>w. \<not> fst (m_init (e_module (ke_env other) (place bad)) w)"
    and "\<not> gpio0_low benv" and "esp_image_valid benv = Some v" and "v 0 \<or> v 1"
    and "bc_mode (snd (loadBootConfig b)) \<noteq> boot_mode_code FactoryReset"
  shows "\<exists>e b'. power_cycle place (app_kernel_env place api other) af tel_pool d vendor runs_app benv k b =
      Some ((if 3 < bc_bootCount (snd (loadBootConfig b)) + 1 then EnterRecovery else JumpToFirmware 0, e), b') \<and>
    snd (loadBootConfig b') = (snd (loadBootConfig b))\<lparr>bc_bootCount := bc_bootCount (snd (loadBootConfig b)) + 1\<rparr>"
proof -
  obtain out e b1 nvs where b1: "bootloader_entry benv (Some vendor) nvs_eraseAll (after_reset b) new_nvs_host = (out, e, b1, nvs)"
    by (metis prod_cases4)
  have out: "out = (if 3 < bc_bootCount (snd (loadBootConfig b)) + 1 then EnterRecovery else JumpToFirmware 0)"
    using entry_outcome [OF assms(7-9), of "after_reset b"] assms(10) bootloader_entry_parts(1) [OF b1] by simp
  have l1: "snd (loadBootConfig b1) = (snd (loadBootConfig b))\<lparr>bc_bootCount := bc_bootCount (snd (loadBootConfig b)) + 1\<rparr>"
    using entry_config [of benv "after_reset b"] bootloader_entry_parts(3) [OF b1] by simp
  obtain w where "app_boot place (app_kernel_env place api other) af (app_reset tel_pool (after_reset b1) d) = Some (False, w)"
    "loadBootConfig (dm_boot w) = loadBootConfig b1"
    using failing_boot [OF assms(1-6), of af tel_pool "after_reset b1" d] by auto
  then show ?thesis using b1 l1 by (simp add: power_cycle_def out)
qed

lemma failing_life:
  fixes other :: "('f, 'h) app_kenv"
  assumes "inj place" and "sched_quiet (app_env place api (ke_env other))" and "keeps_config (ke_env other)"
    and "bad \<in> set app_modules" and "bad \<notin> {ObjRelay, ObjWifi, ObjMqtt}" and "\<And>w. \<not> fst (m_init (e_module (ke_env other) (place bad)) w)"
    and "\<not> gpio0_low benv" and "esp_image_valid benv = Some v" and "v 0 \<or> v 1"
    and "bc_mode (snd (loadBootConfig b)) \<noteq> boot_mode_code FactoryReset" and "bc_bootCount (snd (loadBootConfig b)) = of_nat c"
  shows "\<exists>outs b'. life place (app_kernel_env place api other) af tel_pool d vendor runs_app benv ks b = Some (outs, b') \<and>
    map fst outs = map (\<lambda>i. if 3 < (c + i + 1) mod 256 then EnterRecovery else JumpToFirmware 0) [0..<length ks]"
  using assms(10,11)
proof (induction ks arbitrary: b c)
  case (Cons k ks)
  have c1: "of_nat c + 1 = (of_nat (Suc c) :: u8)" by simp
  have "3 < (of_nat (Suc c) :: u8) \<longleftrightarrow> 3 < (c + 1) mod 256" unfolding word_less_nat_alt unat_of_nat by simp
  then have n: "3 < bc_bootCount (snd (loadBootConfig b)) + 1 \<longleftrightarrow> 3 < (c + 1) mod 256" using Cons.prems(2) c1 by (simp add: add.commute)
  obtain e b1 where b1: "power_cycle place (app_kernel_env place api other) af tel_pool d vendor runs_app benv k b =
      Some ((if 3 < (c + 1) mod 256 then EnterRecovery else JumpToFirmware 0, e), b1)"
    "snd (loadBootConfig b1) = (snd (loadBootConfig b))\<lparr>bc_bootCount := bc_bootCount (snd (loadBootConfig b)) + 1\<rparr>"
    using failing_cycle [OF assms(1-9) Cons.prems(1), of af tel_pool d vendor runs_app k] unfolding n by blast
  obtain outs b2 where b2: "life place (app_kernel_env place api other) af tel_pool d vendor runs_app benv ks b1 = Some (outs, b2)"
      "map fst outs = map (\<lambda>i. if 3 < (Suc c + i + 1) mod 256 then EnterRecovery else JumpToFirmware 0) [0..<length ks]"
    using Cons.IH [of b1 "Suc c"] Cons.prems b1(2) by auto
  have "[0..<length (k # ks)] = 0 # map Suc [0..<length ks]"
    by (metis length_Cons map_Suc_upt upt_conv_Cons zero_less_Suc)
  then show ?case using b1(1) b2 by (simp add: comp_def)
qed simp


section \<open>Updates\<close>

text \<open>Until the update is installed nothing touches the boot configuration; then it asks for the other slot, with the counter as it was.\<close>

lemma startDfu_config: "startDfuListener env s = Some (ok, s') \<Longrightarrow> bootConfig s' = bootConfig s"
  by (auto simp: startDfuListener_def Let_def split: if_splits bind_splits prod.splits)

lemma start_config: "ota_startUpdate env transport n v s = Some (ok, s') \<Longrightarrow> bootConfig s' = bootConfig s"
  by (auto simp: ota_startUpdate_def Let_def recovery_init_def beginWrite_def dest!: startDfu_config
      split: if_splits bind_splits prod.splits)

lemma chunk_config: "ota_feedChunk c s = (r, s') \<Longrightarrow> bootConfig s' = bootConfig s"
  by (auto simp: ota_feedChunk_def receiveChunk_def Let_def dest!: writeChunk_manager same_managerD(8) split: if_splits prod.splits)

lemma feed_config: "feed_chunks cs s = (ok, s') \<Longrightarrow> bootConfig s' = bootConfig s"
proof (induction cs arbitrary: s)
  case (Cons c cs)
  then show ?case by (auto dest: chunk_config split: prod.splits if_splits)
qed simp

lemma activate_active: "activateSlot api slot s = (True, s') \<Longrightarrow> activeSlot (fw s') = slot"
  by (auto simp: activateSlot_def Let_def split: if_splits prod.splits)

lemma complete_config:
  assumes "ota_completeUpdate env s = (True, s')"
  shows "snd (loadBootConfig s') = (snd (loadBootConfig s))\<lparr>bc_mode := boot_mode_code OtaPending, bc_otaSlot := activeSlot (fw s')\<rparr>"
proof -
  obtain s1 where f: "finalizeDfu env s = (True, s1)" and s': "loadBootConfig s' = loadBootConfig s1" "fw s' = fw s1"
    using assms by (auto simp: ota_completeUpdate_def Let_def loadBootConfig_def split: if_splits prod.splits)
  obtain s2 s3 slot where fin: "finalizeWrite (setState Verifying s) = (True, s2)"
    and act: "activateSlot (env_ota env) slot (setState Installing s2) = (True, s3)"
    and s1: "loadBootConfig s1 = loadBootConfig (requestOtaBoot slot (emit (Published OtaComplete 0 0) (setState Complete s3)))"
    and fw: "fw s1 = fw s3"
    using f by (auto simp: finalizeDfu_def Let_def loadBootConfig_def requestOtaBoot_def emit_def setState_def split: if_splits prod.splits)
  have "bootConfig (emit (Published OtaComplete 0 0) (setState Complete s3)) = bootConfig s"
    using same_managerD(8) [OF finalizeWrite_manager [OF fin]] same_managerD(8) [OF activateSlot_manager [OF act]] by simp
  then have "loadBootConfig (emit (Published OtaComplete 0 0) (setState Complete s3)) = loadBootConfig s" by (rule load_cong)
  then have "snd (loadBootConfig s1) = (snd (loadBootConfig s))\<lparr>bc_mode := boot_mode_code OtaPending, bc_otaSlot := slot\<rparr>"
    unfolding s1 requestOtaBoot_def by (simp add: load_save boot_config.equality)
  then show ?thesis using s' fw activate_active [OF act] by simp
qed

text \<open>\<open>n\<close> resets in a row, none of which reports success, with what the boot loader does to the device.\<close>

primrec resets :: "boot_env \<Rightarrow> 'f boot_vendor option \<Rightarrow> nat \<Rightarrow> ('f, 'z) boot_sys_scheme \<Rightarrow> ('f, 'z) boot_sys_scheme" where
  "resets benv vendor 0 s = s"
| "resets benv vendor (Suc n) s =
     resets benv vendor n (let (out, s1) = boot_entry benv s in snd (leave vendor out s1))"

lemma load_resets:
  "snd (loadBootConfig (resets benv vendor n s)) =
     (snd (loadBootConfig s))\<lparr>bc_bootCount := bc_bootCount (snd (loadBootConfig s)) + of_nat n\<rparr>"
proof (induction n arbitrary: s)
  case (Suc n)
  show ?case by (simp add: Suc case_prod_unfold Let_def entry_config add.assoc del: leave.simps)
qed simp

lemma leave_device:
  assumes "device s' = device s"
  shows "fst (leave vendor out s') = fst (leave vendor out s)"
    and "device (snd (leave vendor out s')) = device (snd (leave vendor out s))"
  by (cases out; simp add: assms jumpToFirmware_def enterRecovery_def enterEmergency_def restart_into_def split: option.split)+

lemma attempt:
  assumes "\<not> gpio0_low benv" and "bc_mode (snd (loadBootConfig s)) = boot_mode_code OtaPending"
  shows "fst (boot_entry benv s) =
    (if 3 < (unat (bc_bootCount (snd (loadBootConfig s))) + 1) mod 256 then EnterRecovery else JumpToFirmware 0)"
proof -
  let ?c = "bc_bootCount (snd (loadBootConfig s))"
  have "3 < (of_nat (unat ?c + 1) :: u8) \<longleftrightarrow> 3 < (unat ?c + 1) mod 256"
    unfolding word_less_nat_alt unat_of_nat by simp
  then have "3 < ?c + 1 \<longleftrightarrow> 3 < (unat ?c + 1) mod 256" by (simp add: add.commute)
  then show ?thesis using assms by (simp add: boot_entry_def Let_def determineBootMode_def load_save)
qed

lemma boot_entry_device [simp]: "device (snd (boot_entry benv s)) = device s"
  by (simp add: boot_entry_def Let_def)


text \<open>The same state, but with a request for the slot \<open>q\<close>.\<close>

definition asking_for :: "u8 \<Rightarrow> ('f, 'z) boot_sys_scheme \<Rightarrow> ('f, 'z) boot_sys_scheme" where
  "asking_for q s = saveBootConfig ((snd (loadBootConfig s))\<lparr>bc_otaSlot := q\<rparr>) s"

lemma load_asking: "snd (loadBootConfig (asking_for q s)) = (snd (loadBootConfig s))\<lparr>bc_otaSlot := q\<rparr>"
  using crc_absorb_config [of s] by (simp add: asking_for_def load_save boot_config.equality)

lemma slot_without_effect:
  assumes "\<not> gpio0_low benv" and "bc_mode (snd (loadBootConfig s)) = boot_mode_code OtaPending"
    and "bootloader_entry benv vendor erase s nvs = (out, e, s', nvs')"
  shows "case bootloader_entry benv vendor erase (asking_for q s) nvs of
    (out1, e1, s1, nvs1) \<Rightarrow> (out1, e1, device s1, nvs1) = (out, e, device s', nvs')"
proof -
  obtain out1 e1 s1 nvs1 where b: "bootloader_entry benv vendor erase (asking_for q s) nvs = (out1, e1, s1, nvs1)"
    by (metis prod_cases4)
  note p = bootloader_entry_parts [OF b] and p' = bootloader_entry_parts [OF assms(3)]
  have o: "out1 = out" and ne: "out \<noteq> EraseNvsEnterRecovery"
    using attempt [OF assms(1), of "asking_for q s"] attempt [OF assms(1,2)] assms(2) p(1) p'(1)
    by (simp_all add: load_asking)
  have "device (snd (boot_entry benv (asking_for q s))) = device (snd (boot_entry benv s))"
    by (simp add: asking_for_def)
  from leave_device [OF this, of vendor out] have "e1 = e" "device s1 = device s'"
    using p(2) p'(2) by (simp_all add: o)
  then show ?thesis using b o ne p(4) p'(4) by simp
qed

text \<open>
  The documented way into recovery, the mode stored in the configuration, has no effect: an image that is
  valid starts all the same.
\<close>

lemma recovery_request_ignored:
  assumes "\<not> gpio0_low benv" and "validateFirmware benv 0 s \<or> validateFirmware benv 1 s" and "bc_bootCount (snd (loadBootConfig s)) < 3"
  shows "fst (boot_entry benv (saveBootConfig ((snd (loadBootConfig s))\<lparr>bc_mode := boot_mode_code Recovery\<rparr>) s)) = JumpToFirmware 0"
proof -
  have "\<not> 3 < bc_bootCount (snd (loadBootConfig s)) + 1" using assms(3) by (simp add: word_less_nat_alt unat_word_ariths)
  then show ?thesis using assms(1,2) by (auto simp: boot_entry_def Let_def determineBootMode_def load_save)
qed


section \<open>Properties\<close>


text \<open>
  A vendor whose boot data are the byte at address 0 of the device, with the next update in the second slot, where the
  application is.
\<close>

definition demo_vendor :: "memory boot_vendor" where
  "demo_vendor = \<lparr>bv_ota = \<lparr>running_label = (\<lambda>_. Some ''ota_0''),
       set_boot = (\<lambda>part d. (True, d(0 := if part = ''ota_0'' then 0 else if part = ''ota_1'' then 1 else 2)))\<rparr>,
     next_update = (\<lambda>_. Some ''ota_1''), recovery_part = (\<lambda>_. Some ''recovery'')\<rparr>"

definition demo_runs :: "memory \<Rightarrow> bool" where
  "demo_runs d \<longleftrightarrow> d 0 = 1"

lemma demo_jump: "\<forall>d. \<exists>part. jump_target demo_vendor d = Some part \<and> demo_runs (snd (set_boot (bv_ota demo_vendor) part d))"
  by (simp add: demo_vendor_def demo_runs_def jump_target_def)

lemma demo_image: "\<not> gpio0_low Boot.demo_env" "esp_image_valid Boot.demo_env = Some (\<lambda>_. True)"
  by (simp_all add: Boot.demo_env_def)

lemma demo_boot_config: "snd (loadBootConfig demo_boot) = default_config"
  by (simp add: loadBootConfig_def demo_boot_def default_config_def kBootConfigMagic_def)

lemma inj_app_place: "inj app_place"
  by (rule injI) (simp add: app_place_def split: app_object.splits)


text \<open>
  C12: A device on which a module fails to initialize gets three starts and then the recovery image, reset after reset,
  until the 8-bit counter has gone round: the failed boot returns from \<open>main\<close> and never reports success. This is so
  whichever partitions the vendor picks and whatever they hold, as far as the boot configuration goes.
\<close>
theorem failing_device_recovers:
  assumes "inj place" and "sched_quiet (app_env place api (ke_env other))" and "keeps_config (ke_env other)"
    and "bad \<in> set app_modules" and "bad \<notin> {ObjRelay, ObjWifi, ObjMqtt}" and "\<And>w. \<not> fst (m_init (e_module (ke_env other) (place bad)) w)"
    and "\<not> gpio0_low benv" and "esp_image_valid benv = Some v" and "v 0 \<or> v 1"
    and "bc_mode (snd (loadBootConfig b)) \<noteq> boot_mode_code FactoryReset" and "bc_bootCount (snd (loadBootConfig b)) = 0"
  shows "\<exists>outs b'. life place (app_kernel_env place api other) af tel_pool d vendor runs_app benv ks b = Some (outs, b') \<and>
    map fst outs = map (\<lambda>i. if 3 < (i + 1) mod 256 then EnterRecovery else JumpToFirmware 0) [0..<length ks]"
  using failing_life [OF assms(1-10), of 0 af tel_pool d vendor runs_app ks] assms(11) by simp

text \<open>A UART module that does not initialize.\<close>

definition no_uart :: "('f, 'h) app_kenv" where
  "no_uart = idle_kernel\<lparr>ke_env := idle_env\<lparr>e_module := (\<lambda>q.
     (e_module idle_env q)\<lparr>m_init := (\<lambda>w. (q \<noteq> app_place ObjUart, w))\<rparr>)\<rparr>\<rparr>"

lemma no_uart_quiet: "sched_quiet (app_env app_place api (ke_env (no_uart :: ('f, 'h) app_kenv)))"
proof -
  let ?e = "app_env app_place api (ke_env (no_uart :: ('f, 'h) app_kenv))" and ?idle = "app_env app_place api (idle_env :: ('f, 'h) app_sys env)"
  have q: "sched_quiet ?idle" by (rule app_sched_quiet [OF app_rest_idle])
  have "sched (snd (m_init (e_module ?e p) w)) = sched w \<and> sched (m_tick (e_module ?e p) w) = sched w \<and>
      sched (m_shutdown (e_module ?e p) w) = sched w" for p w
  proof (cases "p \<in> {app_place ObjRelay, app_place ObjWifi, app_place ObjMqtt}")
    case True
    then have "e_module ?e p = e_module ?idle p" by (auto simp: no_uart_def)
    then show ?thesis using q by (simp add: sched_quiet_def del: app_env_simps)
  next
    case False
    then have "e_module ?e p = e_module (ke_env no_uart) p" by simp
    then show ?thesis by (simp add: no_uart_def del: app_env_simps) (simp add: idle_env_def)
  qed
  then show ?thesis using q by (simp add: sched_quiet_def no_uart_def)
qed

theorem failing_device_recovers_witness:
  "\<exists>outs b'. life app_place (app_kernel_env app_place demo_api no_uart) bare_flash (\<lambda>_. 0) demo_dev demo_vendor demo_runs Boot.demo_env
    [7, 7, 7, 7, 7] demo_boot = Some (outs, b') \<and>
      map fst outs = [JumpToFirmware 0, JumpToFirmware 0, JumpToFirmware 0, EnterRecovery, EnterRecovery]"
proof -
  have k: "keeps_config (ke_env no_uart)" by (simp add: no_uart_def keeps_config_def idle_env_def)
  have bad: "ObjUart \<in> set app_modules" "ObjUart \<notin> {ObjRelay, ObjWifi, ObjMqtt}" by (simp_all add: app_modules_def)
  have f: "\<not> fst (m_init (e_module (ke_env no_uart) (app_place ObjUart)) w)" for w by (simp add: no_uart_def)
  show ?thesis
    using failing_device_recovers [OF inj_app_place no_uart_quiet k bad f demo_image, where b = demo_boot and api = demo_api
        and af = bare_flash and tel_pool = "\<lambda>_. 0" and d = demo_dev and vendor = demo_vendor and runs_app = demo_runs and ks = "[7, 7, 7, 7, 7]"]
    by (simp add: demo_boot_config default_config_def upt_rec del: life.simps)
qed

text \<open>
  C13: After an update was installed, the boot loader calls \<open>jumpToFirmware\<close> at most three times in a row and then
  \<open>enterRecovery\<close>, until the 8-bit counter has gone round; but this counter goes on from where it was before the update, so that after an update installed when
  it stood at three or more, which is always so in recovery mode after failed starts, it does not call it at all. The
  slot of the update is in the boot configuration that it reads, but has no effect: the jump makes the vendor's
  next-update partition (or the running one) the boot partition, the same for every slot that could be asked for, and
  whether this holds the new firmware is not looked at.
\<close>
theorem update_inherits_boot_counter:
  assumes "ota_startUpdate env transport imageSize version s = Some (True, s1)" and "feed_chunks cs s1 = (True, s2)"
    and "ota_completeUpdate env s2 = (True, s3)" and "\<not> gpio0_low benv"
    and "s4 = resets benv (Some vendor) n s3"
    and "bootloader_entry benv (Some vendor) erase s4 nvs = (out, e, s5, nvs5)"
  shows "out = (if 3 < (unat (bc_bootCount (snd (loadBootConfig s))) + n + 1) mod 256 then EnterRecovery else JumpToFirmware 0) \<and>
    bc_otaSlot (snd (loadBootConfig s5)) = activeSlot (fw s3) \<and>
    (out = JumpToFirmware 0 \<longrightarrow>
      (e, device s5) = (case jump_target vendor (device s4) of None \<Rightarrow> (Aborted, device s4)
        | Some part \<Rightarrow> (Rebooted, snd (set_boot (bv_ota vendor) part (device s4))))) \<and>
    (\<forall>q. case bootloader_entry benv (Some vendor) erase (asking_for q s4) nvs of
      (out', e', s', nvs') \<Rightarrow> (out', e', device s', nvs') = (out, e, device s5, nvs5))"
proof -
  have "loadBootConfig s2 = loadBootConfig s"
    using start_config [OF assms(1)] feed_config [OF assms(2)] by (intro load_cong) simp
  then have c3: "snd (loadBootConfig s3) = (snd (loadBootConfig s))\<lparr>bc_mode := boot_mode_code OtaPending, bc_otaSlot := activeSlot (fw s3)\<rparr>"
    using complete_config [OF assms(3)] by simp
  have c4: "bc_mode (snd (loadBootConfig s4)) = boot_mode_code OtaPending" "bc_otaSlot (snd (loadBootConfig s4)) = activeSlot (fw s3)"
    "bc_bootCount (snd (loadBootConfig s4)) = bc_bootCount (snd (loadBootConfig s)) + of_nat n"
    by (simp_all add: assms(5) load_resets c3)
  have "(unat (bc_bootCount (snd (loadBootConfig s4))) + 1) mod 256 = (unat (bc_bootCount (snd (loadBootConfig s))) + n + 1) mod 256"
    unfolding c4(3) by (simp add: unat_word_ariths unat_of_nat mod_simps)
  then have out: "out = (if 3 < (unat (bc_bootCount (snd (loadBootConfig s))) + n + 1) mod 256 then EnterRecovery else JumpToFirmware 0)"
    using attempt [OF assms(4) c4(1)] bootloader_entry_parts(1) [OF assms(6)] by simp
  have slot: "bc_otaSlot (snd (loadBootConfig s5)) = activeSlot (fw s3)"
    using bootloader_entry_parts(3) [OF assms(6)] c4(2) by (simp add: entry_config)
  have jump: "(e, device s5) = (case jump_target vendor (device s4) of None \<Rightarrow> (Aborted, device s4)
        | Some part \<Rightarrow> (Rebooted, snd (set_boot (bv_ota vendor) part (device s4))))" if "out = JumpToFirmware 0"
    using bootloader_entry_parts(2) [OF assms(6)] that by (auto simp: jumpToFirmware_def restart_into_def split: option.splits)
  show ?thesis using out slot jump slot_without_effect [OF assms(4) c4(1) assms(6)] by blast
qed

theorem update_inherits_boot_counter_witness:
  "\<exists>s1 s2 s3. ota_startUpdate Dfu.demo_env ViaWiFi 4100 7 (demo_dfu\<lparr>bootConfig := default_config\<lparr>bc_bootCount := 4\<rparr>\<rparr>) = Some (True, s1) \<and>
    feed_chunks [replicate 4096 1, [1, 2, 3, 4]] s1 = (True, s2) \<and> ota_completeUpdate Dfu.demo_env s2 = (True, s3) \<and>
    fst (bootloader_entry Boot.demo_env (Some demo_vendor) nvs_eraseAll s3 new_nvs_host) = EnterRecovery"
proof -
  let ?s = "demo_dfu\<lparr>bootConfig := default_config\<lparr>bc_bootCount := 4\<rparr>\<rparr>"
  have "\<exists>s1 s2 s3. ota_startUpdate Dfu.demo_env ViaWiFi 4100 7 ?s = Some (True, s1) \<and>
      feed_chunks [replicate 4096 1, [1, 2, 3, 4]] s1 = (True, s2) \<and> ota_completeUpdate Dfu.demo_env s2 = (True, s3)"
    using ota_session [OF testflash.flash_device_axioms, of ?s "0x8000" "[replicate 4096 1, [1, 2, 3, 4]]" 4100 Dfu.demo_env ViaWiFi 7]
    by (fastforce simp: Dfu.demo_env_def)
  then obtain s1 s2 s3 where s: "ota_startUpdate Dfu.demo_env ViaWiFi 4100 7 ?s = Some (True, s1)"
    "feed_chunks [replicate 4096 1, [1, 2, 3, 4]] s1 = (True, s2)" "ota_completeUpdate Dfu.demo_env s2 = (True, s3)" by blast
  have c: "snd (loadBootConfig ?s) = default_config\<lparr>bc_bootCount := 4\<rparr>"
    by (simp add: loadBootConfig_def default_config_def Let_def)
  obtain out e s5 nvs where b: "bootloader_entry Boot.demo_env (Some demo_vendor) nvs_eraseAll s3 new_nvs_host = (out, e, s5, nvs)"
    by (metis prod_cases4)
  have "s3 = resets Boot.demo_env (Some demo_vendor) 0 s3" by simp
  from update_inherits_boot_counter [OF s demo_image(1) this b] have "out = EnterRecovery" by (simp add: c)
  with s b show ?thesis by (metis fst_conv)
qed

end
