(* ===== verification/Test_Programs.thy ===== *)
theory Test_Programs
  imports Kernel Boot
begin

text \<open>
  The programs of \<open>tests/\<close> run on the model: every expectation of the repository's own tests holds of the
  definitions. The objects of a test are at fixed addresses, its local variables are the end of the state
  record, and each test starts from fresh singletons.
\<close>


section \<open>Scheduler\<close>

record mock =
  mk_initCalled :: bool
  mk_shutdownCalled :: bool
  mk_initResult :: bool
  mk_hasWork :: bool
  mk_tickCount :: int
  mk_type :: module_type

type_synonym mock_sys = "mock sched_sys_scheme"

definition new_mock :: "module_type \<Rightarrow> mock" where
  "new_mock t = \<lparr>mk_initCalled = False, mk_shutdownCalled = False, mk_initResult = True, mk_hasWork = True,
     mk_tickCount = 0, mk_type = t\<rparr>"

definition on_mock :: "(mock \<Rightarrow> mock) \<Rightarrow> mock_sys \<Rightarrow> mock_sys" where
  "on_mock f w = w\<lparr>sched_sys.more := f (sched_sys.more w)\<rparr>"

definition mock_imodule :: "mock_sys imodule" where
  "mock_imodule = \<lparr>
     m_init = (\<lambda>w. (mk_initResult (sched_sys.more w), on_mock (\<lambda>m. m\<lparr>mk_initCalled := True\<rparr>) w)),
     m_tick = on_mock (\<lambda>m. m\<lparr>mk_tickCount := mk_tickCount m + 1\<rparr>),
     m_shutdown = on_mock (\<lambda>m. m\<lparr>mk_shutdownCalled := True\<rparr>),
     m_type = (\<lambda>w. mk_type (sched_sys.more w)), m_budgetUs = (\<lambda>w. 0), m_hasWork = (\<lambda>w. mk_hasWork (sched_sys.more w))\<rparr>"

definition mock_env :: "mock_sys env" where
  "mock_env = idle_env\<lparr>e_module := (\<lambda>p. mock_imodule)\<rparr>"

definition mock_start :: "mock \<Rightarrow> u16 \<times> bool \<times> mock_sys" where
  "mock_start m =
     (let (mid, s) = registerModule (Some 1) new_scheduler
      in (mid, initAll mock_env \<lparr>bus = new_event_bus, timers = Map.empty, tmgr = new_timer_manager, sched = s, \<dots> = m\<rparr>))"

definition RegisterAndInit :: "bool list" where
  "RegisterAndInit = (let (mid, ok, w) = mock_start (new_mock Static)
     in [mid \<noteq> kInvalidModuleId, ok, mk_initCalled (sched_sys.more w)])"

definition RunTaktCallsTick :: "bool option" where
  "RunTaktCallsTick = (let (mid, ok, w) = mock_start (new_mock Static)
     in map_option (\<lambda>w1. mk_tickCount (sched_sys.more w1) = 1) (runTakt mock_env w))"

definition BackgroundModuleSkippedWhenIdle :: "bool option" where
  "BackgroundModuleSkippedWhenIdle = (let (mid, ok, w) = mock_start (new_mock Background\<lparr>mk_hasWork := False\<rparr>)
     in map_option (\<lambda>w1. mk_tickCount (sched_sys.more w1) = 0) (runTakt mock_env w))"

lemma mock_start_effect:
  "mock_start m = (0, mk_initResult m, \<lparr>bus = new_event_bus, timers = Map.empty, tmgr = new_timer_manager,
     sched = new_scheduler\<lparr>modules := \<lparr>me_module = Some 1, me_stats = new_module_stats\<lparr>ms_state :=
       if mk_initResult m then Ready else Error\<rparr>, me_active = True\<rparr> # replicate 47 new_module_entry, moduleCount := 1\<rparr>,
     \<dots> = m\<lparr>mk_initCalled := True\<rparr>\<rparr>)"
  by (simp add: mock_start_def registerModule_def new_scheduler_def kMaxModules_def update_entry_def initAll_def
      for_modules.simps init_entry_def mock_env_def mock_imodule_def on_mock_def on_entry_def set_state_def Let_def
      new_module_entry_def numeral_eq_Suc)

text \<open>No timer, no queued event: a takt is the loop over the modules.\<close>

lemma no_timers: "tmgr w = new_timer_manager \<Longrightarrow> tmgr_tick tcbs d w = Some w"
proof -
  assume w: "tmgr w = new_timer_manager"
  have "mfold (tmgr_tick_slot tcbs d) is w = Some w" if "\<forall>i\<in>set is. i < kMaxTimers" for "is"
    using that by (induction "is") (simp_all add: tmgr_tick_slot_def w new_timer_manager_def)
  then show ?thesis by (simp add: tmgr_tick_def)
qed

lemma no_events: "queueCount (bus w) = 0 \<Longrightarrow> dispatchQueued cbs w = Some w"
  by (subst dispatchQueued.simps) simp

lemma quiet_takt:
  "tmgr w = new_timer_manager \<Longrightarrow> bus w = new_event_bus \<Longrightarrow> runTakt mock_env w = Some (finish_takt mock_env 0 (run_modules mock_env w))"
  by (simp add: runTakt_def mock_env_def idle_env_def no_timers no_events new_event_bus_def)

lemmas takt_eval = run_modules_def for_modules.simps run_entry_def mock_env_def idle_env_def
  mock_imodule_def on_mock_def on_entry_def set_state_def update_entry_def new_mock_def shouldRunModule_def finish_takt_def
  account_takt_def account_def over_budget_def new_module_stats_def new_scheduler_def kMaxModules_def Let_def

lemma test_scheduler:
  "RegisterAndInit = [True, True, True]" "RunTaktCallsTick = Some True" "BackgroundModuleSkippedWhenIdle = Some True"
  by (simp_all add: RegisterAndInit_def RunTaktCallsTick_def BackgroundModuleSkippedWhenIdle_def kInvalidModuleId_def
      mock_start_effect quiet_takt)
    (simp_all add: takt_eval)


section \<open>Event bus\<close>

text \<open>\<open>g_received\<close> is the only variable of the test; \<open>onEvent\<close> is at address 1.\<close>

definition onEvent :: "bool bus_sys_scheme handlers" where
  "onEvent c d u w = (if ev_id d = event_code WiFiConnected then w\<lparr>bus_sys.more := True\<rparr> else w)"

definition PublishSubscribe :: "bool list \<times> bool bus_sys_scheme" where
  "PublishSubscribe =
     (let (handle, b) = subscribe (event_code WiFiConnected) (Some 1) None new_event_bus;
          w1 = publish onEvent (event_code WiFiConnected) 0 0 \<lparr>bus = b, \<dots> = False\<rparr>
      in ([0 \<le> handle, bus_sys.more w1], w1\<lparr>bus := unsubscribe handle (bus w1)\<rparr>))"

text \<open>The second test goes on with the bus that the first one leaves.\<close>

definition EnqueueAndDispatch :: "bool bus_sys_scheme \<Rightarrow> (bool \<times> bool) option" where
  "EnqueueAndDispatch w =
     (let (handle, b) = subscribe (event_code WiFiConnected) (Some 1) None (bus w);
          (ok, b1) = enqueue (empty_event\<lparr>ev_id := event_code WiFiConnected\<rparr>) b
      in map_option (\<lambda>w1. (ok, bus_sys.more w1)) (dispatchQueued onEvent \<lparr>bus = b1, \<dots> = False\<rparr>))"

lemma one_subscriber:
  fixes w :: "bool bus_sys_scheme"
  assumes "subscriptions (bus w) = \<lparr>sub_event = 0x100, sub_callback = Some 1, sub_userData = None, sub_active = True\<rparr> #
      replicate 31 new_subscription" and "ev_id d = 0x100"
  shows "dispatch onEvent d w = w\<lparr>bus_sys.more := True\<rparr>"
proof -
  have rest: "fold (dispatch_slot onEvent d) is v = v" if "\<forall>i\<in>set is. 0 < i \<and> i < 32" "bus v = bus w" for "is" v
    using that
  proof (induction "is")
    case (Cons i "is")
    then have "subscriptions (bus v) ! i = new_subscription" using assms(1) by (cases i) simp_all
    then have "dispatch_slot onEvent d i v = v" by (simp add: dispatch_slot_def new_subscription_def Let_def)
    then show ?case using Cons by simp
  qed simp
  have "[0..<kMaxEventSubscribers] = 0 # [1..<kMaxEventSubscribers]" by (simp add: kMaxEventSubscribers_def upt_rec)
  then show ?thesis
    using rest [of "[1..<kMaxEventSubscribers]" "w\<lparr>bus_sys.more := True\<rparr>"] assms
    by (simp add: dispatch_def dispatch_slot_def onEvent_def kMaxEventSubscribers_def Let_def)
qed

lemma fresh_subscriptions: "subscriptions new_event_bus = new_subscription # replicate 31 new_subscription"
  by (simp add: new_event_bus_def kMaxEventSubscribers_def numeral_eq_Suc)

lemma free_slot: "subscribe e c u (b\<lparr>subscriptions := s # r\<rparr>) = (0, b\<lparr>subscriptions :=
    \<lparr>sub_event = e, sub_callback = c, sub_userData = u, sub_active = True\<rparr> # r, subscriberCount := subscriberCount b + 1\<rparr>)"
  if "subscriberCount b < kMaxEventSubscribers" "\<not> sub_active s"
  using that by (simp add: subscribe_def)

definition one_bus :: "subscription \<Rightarrow> nat \<Rightarrow> event_bus" where
  "one_bus s n = new_event_bus\<lparr>subscriptions := s # replicate 31 new_subscription, subscriberCount := n\<rparr>"

lemma test_publish_subscribe:
  "PublishSubscribe = ([True, True], \<lparr>bus = one_bus \<lparr>sub_event = 0x100, sub_callback = Some 1, sub_userData = None,
     sub_active = False\<rparr> 0, \<dots> = True\<rparr>)"
proof -
  have "new_event_bus = new_event_bus\<lparr>subscriptions := new_subscription # replicate 31 new_subscription\<rparr>"
    by (simp flip: fresh_subscriptions)
  then have "subscribe 0x100 (Some 1) None new_event_bus =
      (0, one_bus \<lparr>sub_event = 0x100, sub_callback = Some 1, sub_userData = None, sub_active = True\<rparr> 1)"
    using free_slot [of new_event_bus new_subscription "0x100" "Some 1" None "replicate 31 new_subscription"]
    by (simp add: one_bus_def) (simp add: new_event_bus_def kMaxEventSubscribers_def new_subscription_def)
  then show ?thesis
    by (simp add: PublishSubscribe_def publish_def one_subscriber one_bus_def unsubscribe_def kMaxEventSubscribers_def Let_def)
qed

lemma test_enqueue_and_dispatch: "EnqueueAndDispatch (snd PublishSubscribe) = Some (True, True)"
proof -
  let ?d = "empty_event\<lparr>ev_id := 0x100\<rparr>"
  let ?b = "one_bus \<lparr>sub_event = 0x100, sub_callback = Some 1, sub_userData = None, sub_active = True\<rparr> 1"
  have s: "subscribe 0x100 (Some 1) None (one_bus \<lparr>sub_event = 0x100, sub_callback = Some 1, sub_userData = None,
      sub_active = False\<rparr> 0) = (0, ?b)"
    unfolding one_bus_def subscribe_def by (simp add: kMaxEventSubscribers_def new_event_bus_def)
  have q: "replicate kEventQueueDepth empty_event = empty_event # replicate 63 empty_event"
    by (simp add: kEventQueueDepth_def numeral_eq_Suc)
  have e: "enqueue ?d ?b = (True, ?b\<lparr>queue := ?d # replicate 63 empty_event, queueTail := 1, queueCount := 1\<rparr>)"
    by (simp add: enqueue_def one_bus_def new_event_bus_def q) (simp add: kEventQueueDepth_def)
  have "dispatchQueued onEvent \<lparr>bus = ?b\<lparr>queue := ?d # replicate 63 empty_event, queueTail := 1, queueCount := 1\<rparr>, \<dots> = False\<rparr> =
      Some \<lparr>bus = ?b\<lparr>queue := ?d # replicate 63 empty_event, queueTail := 1, queueCount := 0, queueHead := 1\<rparr>, \<dots> = True\<rparr>"
    by (subst dispatchQueued.simps) (simp add: dequeue_def one_subscriber one_bus_def no_events new_event_bus_def kEventQueueDepth_def)
  with s e show ?thesis
    by (simp add: test_publish_subscribe EnqueueAndDispatch_def)
qed


section \<open>Timers\<close>

text \<open>The timer is at address 100; its callback counts.\<close>

definition timer_test :: "bool \<Rightarrow> u32 list \<Rightarrow> (int list) option" where
  "timer_test rep ds =
     (let tcbs = (\<lambda>c w. w\<lparr>timer_sys.more := timer_sys.more w + 1\<rparr>);
          w0 = timer_construct 100 rep 100 \<lparr>bus = new_event_bus, timers = Map.empty, tmgr = new_timer_manager, \<dots> = 0\<rparr>
      in do { w1 \<leftarrow> timer_onTimeout 1 100 w0;
              w2 \<leftarrow> timer_start 100 w1;
              map_option snd (mfold (\<lambda>d (w, ns). map_option (\<lambda>w'. (w', ns @ [timer_sys.more w'])) (tmgr_tick tcbs d w)) ds (w2, [])) })"

lemma test_timer_one_shot: "timer_test False [50, 50] = Some [0, 1]"
  by code_simp

lemma test_timer_repeat: "timer_test True [100, 100] = Some [1, 2]"
  by code_simp


section \<open>Boot loader and key-value store\<close>

definition BootConfigRoundTrip :: "(bool \<times> bool \<times> bool)" where
  "BootConfigRoundTrip =
     (let cfg = default_config\<lparr>bc_mode := boot_mode_code OtaPending, bc_bootCount := 2, bc_otaSlot := 1\<rparr>;
          (ok, loaded) = loadBootConfig (saveBootConfig cfg demo_boot)
      in (ok, bc_bootCount loaded = 2, bc_otaSlot loaded = 1))"

definition MarkBootSuccessfulResetsCounter :: bool where
  "MarkBootSuccessfulResetsCounter =
     (bc_bootCount (snd (loadBootConfig (markBootSuccessful (saveBootConfig (default_config\<lparr>bc_bootCount := 5\<rparr>) demo_boot)))) = 0)"

lemma test_bootloader: "BootConfigRoundTrip = (True, True, True)" "MarkBootSuccessfulResetsCounter"
  by (simp_all add: BootConfigRoundTrip_def MarkBootSuccessfulResetsCounter_def load_save load_mark default_config_def kBootConfigMagic_def Let_def)

definition SetGetU32 :: "bool \<times> bool \<times> bool \<times> u32" where
  "SetGetU32 =
     (let (ok1, n1) = nvs_init (str ''test'') new_nvs_host;
          (ok2, n2) = setU32 (str ''counter'') 42 1 n1;
          (ok3, val) = getU32 (str ''counter'') 0 n2
      in (ok1, ok2, ok3, val))"

lemma test_nvs: "SetGetU32 = (True, True, True, 42)"
  by (simp add: SetGetU32_def nvs_init_def setU32_def getU32_def writeEntry_def readEntry_def overlay_def host_key_def Let_def)


section \<open>Firmware store\<close>

text \<open>The text with its terminating zero. The two slots of the test overlap.\<close>

definition test_payload :: bytes where
  "test_payload = str ''TAKT firmware image test payload'' @ [0]"

definition WriteVerifyCrc :: "bool list" where
  "WriteVerifyCrc =
     (let s0 = storage_init (mem_backend 65536 4096) \<lparr>backend = no_backend, regions = replicate kMaxRegions new_region,
            regionCount = 0, device = (\<lambda>_. 0), fw = new_fw_cache\<rparr>;
          (ok1, s1) = fw_init host_ota 0x1000 0x4000 0x8000 (snd s0);
          (ok2, s2) = beginWrite 33 0x00010000 s1;
          (n, s3) = writeChunk test_payload s2;
          (ok4, s4) = finalizeWrite s3
      in [ok2, 0 < n, ok4, verify (inactiveSlot (fw s4)) s4])"

lemma test_firmware_cache: "WriteVerifyCrc = [True, True, True, True]"
proof -
  let ?b = "mem_backend 65536 4096"
  define s where "s = (\<lparr>backend = ?b, regions = replicate kMaxRegions new_region, regionCount = 0, device = (\<lambda>_. 0),
    fw = new_fw_cache\<lparr>slotOffset := [0x1000, 0x4000], slotSize := 0x8000, activeSlot := 0\<rparr>\<rparr> :: memory fw_sys)"
  have init: "snd (fw_init host_ota 0x1000 0x4000 0x8000 (snd (storage_init ?b \<lparr>backend = no_backend,
      regions = replicate kMaxRegions new_region, regionCount = 0, device = (\<lambda>_. 0), fw = new_fw_cache\<rparr>))) = s"
    by (simp add: s_def fw_init_def storage_init_def host_ota_def mem_backend_def getHeader_def storage_read_def mem_read_def
        mem_get_def bytes_header_def kFirmwareMagic_def Let_def)
  have len: "length test_payload = 33" "test_payload \<noteq> []" by (simp_all add: test_payload_def str_def)
  have s: "backend s = ?b" "slotOffset (fw s) = [0x1000, 0x4000]" "inactiveSlot (fw s) = 1" "slotSize (fw s) = 0x8000"
    by (simp_all add: s_def inactiveSlot_def)
  obtain s1 s2 s3 where w: "beginWrite 33 0x00010000 s = (True, s1)" "write_chunks [test_payload] s1 = (True, s2)"
    "finalizeWrite s2 = (True, s3)"
    using testflash.session_ok [of s "0x4000" "[test_payload]" 33 "0x00010000"] s len
    by (auto simp del: write_chunks.simps)
  obtain n where n: "writeChunk test_payload s1 = (n, s2)" "0 < n"
    using w(2) len by (auto split: prod.splits if_splits)
  show ?thesis
    using w(1,3) n conjunct1 [OF finalizeWrite_verifies [OF w(3)]] by (simp add: WriteVerifyCrc_def Let_def init split_beta)
qed

end
