(* ===== verification/Spec2Isabelle.thy ===== *)
theory Spec2Isabelle
  imports Event_Bus Timers Scheduler Fw_Cache Boot Nvs Cache_Mgr Dfu Kernel Web_Server Drivers
    Field_Modules Net_Modules Script_Engine Services Sensor Reports
    Takt_View Timer_Driven Applications
    Telemetry_Path Demo_Network Device_Life Test_Programs
begin

text \<open>
  TAKT OS: a cooperative, takt-driven firmware framework in C++ (ESP32 and host builds).

  \<^bold>\<open>The program.\<close> An application registers modules, subscribes to events, starts timers and boots
  the kernel. The kernel opens the key-value store, initializes the modules and runs the scheduler,
  whose loop has no exit: each takt advances all timers by the takt period, drains the deferred
  events, resets the watchdog, ticks every runnable module in registration order and accounts the
  time. Below it are the storage manager (bounds, sectors, regions over a flash backend), the write
  back cache and the firmware store with two slots; beside it the boot loader that decides on each
  reset between the firmware and recovery and restarts the chip into a partition of the vendor's choice, and the recovery manager and the OTA service that bring
  a new image into the inactive slot. Modules and services (relay, UART, Modbus and its gateway, BLE,
  WiFi, MQTT, web server, script engine, telemetry, configuration) sit on the drivers and talk
  through the event bus.

  \<^bold>\<open>Where the parts are.\<close> Every C++ class is a record of its fields, every enumeration a datatype,
  every method a function on the state with the result first; fixed-width integers are words of that
  width. All state lives in one record that each layer extends: \<open>bus_sys\<close> (event bus) \<open>timer_sys\<close>
  (timers) \<open>sched_sys\<close> (scheduler) \<open>kernel_sys\<close> (kernel, diagnostics, C interface). Objects that are
  reached through pointers are entries of a store from addresses to records, so that a pointer to a
  dead object is an address that the store does not have, and an operation that follows it is \<open>None\<close>.

  \<^item> \<open>Takt_Prelude\<close>: named collections of facts, words, little-endian bytes, byte memories, loops over
    a range.
  \<^item> \<open>Checksums\<close>: \<open>crc32.cpp\<close>, the bitwise CRC of \<open>bootloader.cpp\<close>, the CRC of \<open>modbus_module.cpp\<close>.
  \<^item> \<open>Ring_Queue\<close>: the contract of a bounded queue in a circular array, used by the event bus and the
    script engine.
  \<^item> \<open>Event_Bus\<close>: \<open>event_bus.cpp\<close>. \<open>Timers\<close>: \<open>timer.cpp\<close> and \<open>timer_manager.hpp\<close>, with construction,
    destruction and moves of timer objects. \<open>Scheduler\<close>: \<open>scheduler.cpp\<close>. \<open>Kernel\<close>: \<open>kernel.cpp\<close>,
    \<open>diagnostics.cpp\<close>, the small kernel of the lite build and the C interface \<open>takt_sdk.cpp\<close>.
  \<^item> \<open>Storage\<close>: \<open>storage_manager.cpp\<close>, \<open>flash_backend.cpp\<close> and the memory backend of the tests.
    \<open>Cache_Mgr\<close>: \<open>cache_manager.cpp\<close>. \<open>Fw_Cache\<close>: \<open>firmware_cache.cpp\<close>. \<open>Nvs\<close>: \<open>nvs_manager.cpp\<close>, both
    builds.
  \<^item> \<open>Boot\<close>: \<open>bootloader.cpp\<close>. \<open>Dfu\<close>: \<open>recovery_manager.cpp\<close>, \<open>recovery_transports.cpp\<close>,
    \<open>ota_service.cpp\<close> and the loop of the recovery application.
  \<^item> \<open>Drivers\<close>: UART, GPIO, ADC and platform start-up. \<open>Field_Modules\<close>: relay, UART and Modbus modules
    and the Modbus gateway. \<open>Net_Modules\<close>: BLE, WiFi and MQTT modules. \<open>Web_Server\<close>: the logger and the
    web server module. \<open>Reports\<close>: the reports of the kernel and of the diagnostics in the log. \<open>Sensor\<close>: sensor module and ADC readings in volts. \<open>Script_Engine\<close>, \<open>Services\<close>: script queue, telemetry and configuration services.
  \<^item> \<open>Takt_View\<close>, \<open>Timer_Driven\<close>: what a takt does to the part of the state that one component sees.
    \<open>Applications\<close>: the main functions of the demo controller and of the recovery application.
    \<open>Telemetry_Path\<close>: the demo from the sensor to the flash. \<open>Demo_Network\<close>: the demo and its network, from the
    timer of WiFi to the subscription of MQTT. \<open>Device_Life\<close>: boot loader, demo application and
    updates over any number of resets. \<open>Test_Programs\<close>: the programs of \<open>tests/\<close> run on the model; every
    expectation holds.

  \<^bold>\<open>What is a parameter.\<close> Code behind a pointer (event handlers, timer callbacks, the virtual
  functions of modules, flash backends), the clock, the watchdog, the delay of the RTOS and the vendor
  libraries (partition and OTA functions, NVS, network stacks, HTTP server) are functions in the
  records \<open>env\<close>, \<open>kernel_env\<close>, \<open>dfu_env\<close> and their like. What a theorem needs of them is a
  named hypothesis: \<open>tame\<close> and \<open>sched_quiet\<close> (application code obeys the timer discipline, its event
  cascades are well founded, it leaves the module table alone), \<open>flash_device\<close> (a device that reads back
  what was written after an erase), the documented behaviour of the vendor NVS library. Each is
  instantiated in a witness.

  \<^bold>\<open>Interfaces.\<close> The locale \<open>byte_checksum\<close> carries the error detection of all three checksums, \<open>fifo\<close>
  the behaviour of both circular queues, \<open>kv_store\<close> the last-value-wins reading of the key-value stores,
  \<open>flash_device\<close> what the storage layers rely on, \<open>takt_view\<close> what a takt does to a view of the state when
  every callback and every module acts on it in a known way, and \<open>timer_driven\<close>, a sublocale of it, the
  cooperation of a timer callback with a module over any number of takts. Each is instantiated on the
  definitions of the component that provides it (\<open>takt_view\<close> four times: for the relay, for the telemetry,
  for the network modules and for the boot configuration), and the properties are read off the instance.

  \<^bold>\<open>What is shown.\<close> Event bus: table and counter invariants, the queue as a lossless FIFO up to its
  depth, exact delivery order, termination of draining when cascades are well founded and a live-lock
  when they are not. Timers: the registry discipline under every operation of a timer, with the two exceptions that break it, no dead timer
  is ever touched, exact firing times over any number of ticks, and what becomes of the pool after a
  move or a repeated callback that broke the discipline. Scheduler and kernel: registration, initialization, one tick per
  module and takt in registration order, statistics, stopped modules stay stopped, module ids are
  stable over every sequence of operations. That the \<open>tick\<close> of a module is called is said by an observer
  (\<open>observes\<close>): a part of the state that only ticks change shows which were called, how often and in which order.
  The shutdown silences every module but one that asks for it from its own tick. Storage: writes on a conforming device, cache and key-value
  round trips. Firmware: an update session succeeds, corruption of a slot is detected, activation and
  rollback, a complete update through OTA service, recovery manager, firmware store, storage and boot
  configuration, boot-loop detection. Modules: frames, state machines, settings and pages. The demo
  application: from reset through set-up and boot to the level at the relay pin after \<open>n\<close> takts; its
  telemetry as a refinement of the state machine \<open>spec_takt\<close>, through scheduler, event bus, telemetry
  service, cache, storage manager and flash; how it joins the network, through timer, scheduler, WiFi module, event bus
  and MQTT module, when it looks for the access point, in the device state of its turn in the takt (\<open>tick_state\<close>), and what it asks the
  broker for. The device: the boot loader jumps after every reset of a device whose application starts, goes to recovery
  when the application fails, and goes on with the boot counter as it was after an update, whose slot has no effect on
  the jump.
  Theorems that a reader may not expect (a broken contract, a lost event, a key that is never read)
  state what the code does; they are listed as findings of the development.

  \<^bold>\<open>Loops.\<close> Loops over tables are folds over a fixed range or the function \<open>for_modules\<close>, which reads
  its bound in every iteration as the code does. Loops that may not end are \<open>partial_function (option)\<close>:
  draining the queue, the scheduler, the recovery application; that they return, or never do, is
  proved. No definition uses fuel; \<open>run_takts env n\<close> is the state after \<open>n\<close> iterations of the scheduler.

  \<^bold>\<open>Not modelled.\<close> In the demo application the relay, the network modules and the code of \<open>main.cpp\<close> are
  composed with the kernel, in \<open>Telemetry_Path\<close> the sensor and the telemetry service too; the other modules are the
  parameter \<open>other\<close>, and their own models are not composed with the scheduler. The events that the network stacks
  deliver from their own tasks are steps of the machines of \<open>Net_Modules\<close>, not of a takt. No program of the repository
  calls \<open>Bootloader::entry\<close>, and none decides which program runs after \<open>esp_restart\<close>: \<open>Device_Life\<close> runs \<open>entry\<close> at each
  reset, as its header describes, takes the partitions of the vendor as a parameter (\<open>boot_vendor\<close>) and the image that the
  chosen partition holds as another (\<open>runs_app\<close>); the kernel's key-value store is that of the host build there. Log texts other
  than the two reports (output only), the log helpers of the C interface (they do not compile), overflow and
  subnormal numbers of \<open>float\<close> (they do not arise), host stubs that only return constants, the vendor code of
  the network stacks, preemption by interrupts and other RTOS tasks (the framework is cooperative and takes no
  locks), tools and documentation.
\<close>

end
